(* ===== verification/Prelude.thy ===== *)
theory Prelude
  imports Main "HOL-Library.Word" "HOL-Library.Sublist"
begin

text \<open>
  Shared vocabulary of the development: Go's error values, the outcome of a run, the
  state-passing programs every component is written in, and the collections of facts
  the component proofs are carried by.

  A Go function of the repository becomes a program: a function from the state of the
  process to an outcome and the next state. The outcome says how the call ended: it
  returned a value, the process left through \<open>os.Exit\<close> (or \<open>log.Fatalf\<close>,
  which exits with status 1), the goroutine panicked, or the fuel of a loop that may
  run forever was used up. Go's own error results stay ordinary values: \<open>err\<close> is
  \<open>None\<close> for \<open>nil\<close>.
\<close>

section \<open>Errors and outcomes\<close>

datatype goerr = GoErr (errMsg: string)

type_synonym err = "goerr option"

datatype 'a outcome = Ret 'a | Exit int | Panic | NoFuel

type_synonym ('s, 'a) prog = "'s \<Rightarrow> 'a outcome \<times> 's"

named_theorems run "equations that run one construct of a program on a state"
named_theorems emits_intro "rules that bound the events a program may add to the history"
named_theorems ordered_intro "rules that bound the order of the events of a program"

section \<open>Programs\<close>

definition ret :: "'a \<Rightarrow> ('s, 'a) prog" where
  "ret x = (\<lambda>s. (Ret x, s))"

definition exitWith :: "int \<Rightarrow> ('s, 'a) prog" where
  "exitWith c = (\<lambda>s. (Exit c, s))"

definition panic :: "('s, 'a) prog" where
  "panic = (\<lambda>s. (Panic, s))"

definition noFuel :: "('s, 'a) prog" where
  "noFuel = (\<lambda>s. (NoFuel, s))"

definition bnd :: "('s, 'a) prog \<Rightarrow> ('a \<Rightarrow> ('s, 'b) prog) \<Rightarrow> ('s, 'b) prog" where
  "bnd m f = (\<lambda>s. case m s of
      (Ret x, s') \<Rightarrow> f x s'
    | (Exit c, s') \<Rightarrow> (Exit c, s')
    | (Panic, s') \<Rightarrow> (Panic, s')
    | (NoFuel, s') \<Rightarrow> (NoFuel, s'))"

definition reads :: "('s \<Rightarrow> 'a) \<Rightarrow> ('s, 'a) prog" where
  "reads f = (\<lambda>s. (Ret (f s), s))"

definition modify :: "('s \<Rightarrow> 's) \<Rightarrow> ('s, unit) prog" where
  "modify f = (\<lambda>s. (Ret (), f s))"

text \<open>
  The two shapes of Go's error handling: \<open>tryE\<close> is
  \<open>x, err := m; if err != nil { return err }\<close> and \<open>checkE\<close> is
  \<open>err = m; if err != nil { return err }\<close>, in a function whose only result is
  an error.
\<close>

definition tryE :: "('s, goerr + 'a) prog \<Rightarrow> ('a \<Rightarrow> ('s, err) prog) \<Rightarrow> ('s, err) prog" where
  "tryE m f = bnd m (\<lambda>r. case r of Inl e \<Rightarrow> ret (Some e) | Inr x \<Rightarrow> f x)"

definition checkE :: "('s, err) prog \<Rightarrow> ('s, err) prog \<Rightarrow> ('s, err) prog" where
  "checkE m k = bnd m (\<lambda>e. case e of Some x \<Rightarrow> ret (Some x) | None \<Rightarrow> k)"

definition andThen :: "('s, 'a) prog \<Rightarrow> ('s, 'b) prog \<Rightarrow> ('s, 'b) prog" where
  "andThen m k = bnd m (\<lambda>_. k)"

lemma run_ret [run]: "ret x s = (Ret x, s)"
  by (simp add: ret_def)

lemma run_exitWith [run]: "exitWith c s = (Exit c, s)"
  by (simp add: exitWith_def)

lemma run_panic [run]: "panic s = (Panic, s)"
  by (simp add: panic_def)

lemma run_noFuel [run]: "noFuel s = (NoFuel, s)"
  by (simp add: noFuel_def)

lemma run_reads [run]: "reads f s = (Ret (f s), s)"
  by (simp add: reads_def)

lemma run_modify [run]: "modify f s = (Ret (), f s)"
  by (simp add: modify_def)

lemma run_bnd [run]:
  "bnd m f s = (case fst (m s) of Ret x \<Rightarrow> f x (snd (m s)) | Exit c \<Rightarrow> (Exit c, snd (m s))
     | Panic \<Rightarrow> (Panic, snd (m s)) | NoFuel \<Rightarrow> (NoFuel, snd (m s)))"
  by (simp add: bnd_def split: prod.split outcome.split)

lemma run_bnd_once:
  "bnd m f s = (case m s of (o1, u) \<Rightarrow> (case o1 of Ret x \<Rightarrow> f x u | Exit c \<Rightarrow> (Exit c, u)
     | Panic \<Rightarrow> (Panic, u) | NoFuel \<Rightarrow> (NoFuel, u)))"
  by (simp add: bnd_def)

lemma bnd_ret_left: "bnd (ret x) f = f x"
  by (rule ext) (simp add: run)

lemma bnd_ret_right: "bnd m ret = m"
  by (rule ext) (auto simp: bnd_def ret_def split: prod.split outcome.split)

lemma bnd_assoc: "bnd (bnd m f) g = bnd m (\<lambda>x. bnd (f x) g)"
  by (rule ext) (simp add: bnd_def split: prod.split outcome.split)

lemma checkE_nil: "checkE m (ret None) = m"
  by (rule ext) (simp add: checkE_def bnd_def ret_def split: prod.split outcome.split option.split)

text \<open>A run of a sequence that returned went through a return of its first part.\<close>

lemma bnd_Ret:
  assumes "bnd m f s = (Ret y, t)"
  obtains x u where "m s = (Ret x, u)" and "f x u = (Ret y, t)"
  using assms by (auto simp: bnd_def split: prod.splits outcome.splits)

lemma bnd_cases:
  assumes "bnd m f s = (r, t)"
  obtains (returned) x u where "m s = (Ret x, u)" and "f x u = (r, t)"
    | (stopped) o1 where "m s = (o1, t)" and "\<And>x. o1 \<noteq> Ret x" and "\<And>x. r \<noteq> Ret x"
  using assms by (auto simp: bnd_def split: prod.splits outcome.splits)

lemma bnd_RetD: "bnd m f s = (Ret y, t) \<Longrightarrow> \<exists>x u. m s = (Ret x, u) \<and> f x u = (Ret y, t)"
  by (erule bnd_Ret) blast

lemma checkE_RetD:
  "checkE m k s = (Ret None, t) \<Longrightarrow> \<exists>u. m s = (Ret None, u) \<and> k u = (Ret None, t)"
  unfolding checkE_def by (drule bnd_RetD) (auto simp: ret_def split: option.splits)

section \<open>Looking a value up by the last match\<close>

text \<open>
  The code scans a list and keeps the value of the last element that matches (the
  \<open>break\<close> leaves the inner loop only).
\<close>

fun lastMatch :: "('a \<Rightarrow> bool) \<Rightarrow> 'a list \<Rightarrow> 'a option" where
  "lastMatch p [] = None"
| "lastMatch p (x # xs) = (case lastMatch p xs of Some y \<Rightarrow> Some y
     | None \<Rightarrow> if p x then Some x else None)"

lemma lastMatch_Some: "lastMatch p xs = Some x \<Longrightarrow> x \<in> set xs \<and> p x"
  by (induction xs) (auto split: option.splits if_splits)

lemma lastMatch_None: "lastMatch p xs = None \<longleftrightarrow> (\<forall>x \<in> set xs. \<not> p x)"
  by (induction xs) (auto split: option.splits)

end
