(* ===== verification/FileStream.thy ===== *)
theory FileStream
  imports Prelude
begin

text \<open>
  util/litepeer.go: fetching a file of the storage network. \<open>downloadFile\<close> runs two
  goroutines over an \<open>io.Pipe\<close>, a reader of the network stream that strips the header,
  cuts the stream into blocks and decrypts them, and a writer of the local file, under a
  context that may be cancelled at any time. It is modelled as a state machine: \<open>dlStep\<close>
  is one move of one participant, and the choice of the move (who moves, how many bytes a
  read returns, whether a file operation fails, when the context is cancelled) is an
  argument, so that every interleaving is a list of choices. A choice that is not enabled
  leaves the state as it is.

  The stream is the bytes it still has to deliver and how it ends (\<open>io.EOF\<close> or another
  error). The key is an optional decryption function. \<open>written\<close> is what the
  \<open>bufio.Writer\<close> has accepted; its final \<open>Flush\<close>, whose error the code
  ignores, may lose the bytes of its buffer of 4096 (\<open>lost\<close>). The block size is a
  parameter \<open>B\<close>, fixed by \<open>bufLen\<close>.
\<close>

section \<open>The state of a download\<close>

datatype dealStatus = FileDealStatusSuccess | FileDealStatusToIpfs | FileDealStatusTransmit
  | FileDealStatusFail | FileDealStatusErr

definition dcFileHead :: string where
  "dcFileHead = ''$$dcfile$$''"

type_synonym symKey = "(string \<Rightarrow> string option) option"

definition bufLen :: "symKey \<Rightarrow> nat" where
  "bufLen key = (case key of None \<Rightarrow> 3 * 2 ^ 20 | Some _ \<Rightarrow> 3 * 2 ^ 20 + 28)"

datatype readerPc = PLoop | PWrite string bool | PDone
  \<comment> \<open>\<open>PWrite c final\<close>: in \<open>wp.Write\<close> with \<open>c\<close> still to be taken; \<open>final\<close> when the
    goroutine returns afterwards\<close>

datatype writerPc = CCreate | CLoop | CRead | CDone bool
  \<comment> \<open>\<open>CRead\<close>: past the test of the context, in \<open>rp.Read\<close>; \<open>CDone eof\<close>: returned,
    \<open>eof\<close> when it saw the end of the pipe\<close>

record dl =
  stream :: string
  srcEOF :: bool
  waitBuffer :: string
  headDealFlag :: bool
  completeFlag :: bool
  pPc :: readerPc
  cPc :: writerPc
  rClosed :: bool
  written :: string
  lost :: nat  \<comment> \<open>bytes still buffered that the final \<open>Flush\<close> failed to write\<close>
  dealedSize :: "64 word"
  lastReport :: "dealStatus option"
  cancelled :: bool
  mainRet :: "bool option"

definition dlInit :: "string \<Rightarrow> bool \<Rightarrow> dl" where
  "dlInit content eof = \<lparr>stream = content, srcEOF = eof, waitBuffer = [], headDealFlag = False,
     completeFlag = False, pPc = PLoop, cPc = CCreate, rClosed = False, written = [], lost = 0,
     dealedSize = 0, lastReport = None, cancelled = False, mainRet = None\<rparr>"

text \<open>The moves: the context is cancelled; the reader goes on, its read returning at most
  \<open>n\<close> bytes; \<open>os.Create\<close> succeeds or fails; the writer takes up to \<open>n\<close>
  bytes from a write in progress and its own write fails after \<open>j\<close> bytes
  (\<open>Some j\<close>) or succeeds; the writer tests the context and reads the pipe, or returns
  (cancelled, or at the end of the pipe), losing \<open>l\<close> buffered bytes; it closes the pipe;
  the caller returns.\<close>

datatype choice = ChCancel | ChReader nat | ChCreate bool | ChTake nat "nat option"
  | ChWriter nat | ChClose | ChMain

section \<open>The reading goroutine\<close>

text \<open>The end of the stream: flush what is buffered, decrypted when there is a key. The flag
  is set before the last block is decrypted and handed over.\<close>

definition readerEnd :: "symKey \<Rightarrow> dl \<Rightarrow> dl" where
  "readerEnd key s =
    (let s1 = s\<lparr>completeFlag := (srcEOF s \<or> completeFlag s)\<rparr>
     in if waitBuffer s = [] then s1\<lparr>pPc := PDone\<rparr>
        else (case key of
            None \<Rightarrow> s1\<lparr>pPc := PWrite (waitBuffer s) True\<rparr>
          | Some decrypt \<Rightarrow> (case decrypt (waitBuffer s) of
                None \<Rightarrow> s1\<lparr>pPc := PDone\<rparr>
              | Some content \<Rightarrow> s1\<lparr>pPc := PWrite content True\<rparr>)))"

text \<open>A read into the header buffer of \<open>32 - length waitBuffer\<close> bytes.\<close>

definition readerHead :: "nat \<Rightarrow> symKey \<Rightarrow> dl \<Rightarrow> dl" where
  "readerHead n key s =
    (let k = min n (min (32 - length (waitBuffer s)) (length (stream s)))
     in if k > 0 then
          (let wb = waitBuffer s @ take k (stream s); s1 = s\<lparr>stream := drop k (stream s)\<rparr>
           in if length wb < 32 then s1\<lparr>waitBuffer := wb\<rparr>
              else s1\<lparr>headDealFlag := True,
                      waitBuffer := (if take 10 wb = dcFileHead then drop 32 wb else wb)\<rparr>)
        else if stream s = [] then readerEnd key s else s)"

text \<open>A read into the block buffer of \<open>B\<close> bytes.\<close>

definition readerBody :: "nat \<Rightarrow> nat \<Rightarrow> symKey \<Rightarrow> dl \<Rightarrow> dl" where
  "readerBody n B key s =
    (let k = min n (min B (length (stream s)))
     in if k > 0 then
          (let wb = waitBuffer s @ take k (stream s); s1 = s\<lparr>stream := drop k (stream s)\<rparr>
           in if length wb < B then s1\<lparr>waitBuffer := wb\<rparr>
              else (let s2 = s1\<lparr>waitBuffer := drop B wb\<rparr> in case key of
                  None \<Rightarrow> s2\<lparr>pPc := PWrite (take B wb) False\<rparr>
                | Some decrypt \<Rightarrow> (case decrypt (take B wb) of
                      None \<Rightarrow> s2\<lparr>pPc := PDone\<rparr>
                    | Some content \<Rightarrow> s2\<lparr>pPc := PWrite content False\<rparr>)))
        else if stream s = [] then readerEnd key s else s)"

definition readerStep :: "nat \<Rightarrow> nat \<Rightarrow> symKey \<Rightarrow> dl \<Rightarrow> dl" where
  "readerStep n B key s =
     (case pPc s of
        PLoop \<Rightarrow>
          if cancelled s then s\<lparr>pPc := PDone\<rparr>
          else if \<not> headDealFlag s then readerHead n key s
          else readerBody n B key s
      | PWrite c final \<Rightarrow> if rClosed s then s\<lparr>pPc := PDone\<rparr> else s
      | PDone \<Rightarrow> s)"

section \<open>The writing goroutine and the caller\<close>

definition afterWrite :: "string \<Rightarrow> bool \<Rightarrow> readerPc" where
  "afterWrite left final = (if left \<noteq> [] then PWrite left final else if final then PDone else PLoop)"

text \<open>A read of the pipe that meets a write in progress takes up to \<open>3 << 20\<close> bytes
  (none from an empty write), and the writer writes them to the file. It is past the test
  of the context, so a cancellation does not keep it from taking these bytes.\<close>

definition writerTake :: "nat \<Rightarrow> nat option \<Rightarrow> dl \<Rightarrow> dl" where
  "writerTake n fails s =
     (case (cPc s, pPc s) of
        (CRead, PWrite c final) \<Rightarrow>
          (let k = min (max n 1) (min (3 * 2 ^ 20) (length c));
               s1 = s\<lparr>pPc := afterWrite (drop k c) final, cPc := CLoop\<rparr>
           in if k = 0 then s1
              else (case fails of
                  None \<Rightarrow> s1\<lparr>written := written s @ take k c,
                            dealedSize := dealedSize s + of_nat k,
                            lastReport := Some FileDealStatusTransmit\<rparr>
                | Some j \<Rightarrow> s1\<lparr>written := written s @ take j (take k c), cPc := CDone False\<rparr>))
      | _ \<Rightarrow> s)"

definition writerStep :: "nat \<Rightarrow> dl \<Rightarrow> dl" where
  "writerStep l s =
     (case cPc s of
        CLoop \<Rightarrow>
          if cancelled s then s\<lparr>cPc := CDone False, lost := min l 4096\<rparr>
          else s\<lparr>cPc := CRead\<rparr>
      | CRead \<Rightarrow>
          if pPc s = PDone
          then s\<lparr>cPc := CDone True, lost := min l 4096,
                 lastReport := Some (if completeFlag s
                   then FileDealStatusSuccess else FileDealStatusFail)\<rparr>
          else s
      | _ \<Rightarrow> s)"

definition isCDone :: "writerPc \<Rightarrow> bool" where
  "isCDone c = (case c of CDone _ \<Rightarrow> True | _ \<Rightarrow> False)"

definition onDisk :: "dl \<Rightarrow> string" where
  "onDisk s = take (length (written s) - lost s) (written s)"

text \<open>One move. \<open>wg.Done\<close> comes before \<open>rp.Close\<close>, so the caller may return in
  between; it returns \<open>nil\<close> when the flag is set at that moment.\<close>

fun dlStep :: "nat \<Rightarrow> symKey \<Rightarrow> choice \<Rightarrow> dl \<Rightarrow> dl" where
  "dlStep B key ChCancel s = s\<lparr>cancelled := True\<rparr>"
| "dlStep B key (ChReader n) s = readerStep n B key s"
| "dlStep B key (ChCreate ok) s =
     (if cPc s = CCreate then s\<lparr>cPc := (if ok then CLoop else CDone False)\<rparr> else s)"
| "dlStep B key (ChTake n fails) s = writerTake n fails s"
| "dlStep B key (ChWriter l) s = writerStep l s"
| "dlStep B key ChClose s = (if isCDone (cPc s) then s\<lparr>rClosed := True\<rparr> else s)"
| "dlStep B key ChMain s =
     (if isCDone (cPc s) \<and> mainRet s = None then s\<lparr>mainRet := Some (completeFlag s)\<rparr> else s)"

definition dlRun :: "nat \<Rightarrow> symKey \<Rightarrow> choice list \<Rightarrow> dl \<Rightarrow> dl" where
  "dlRun B key cs s = foldl (\<lambda>s c. dlStep B key c s) s cs"

inductive reach :: "nat \<Rightarrow> symKey \<Rightarrow> string \<Rightarrow> bool \<Rightarrow> dl \<Rightarrow> bool" for B key content eof where
  start: "reach B key content eof (dlInit content eof)"
| move: "reach B key content eof s \<Longrightarrow> reach B key content eof (dlStep B key c s)"

lemma reach_run: "reach B key content eof s \<Longrightarrow> reach B key content eof (dlRun B key cs s)"
  by (induction cs arbitrary: s) (auto simp: dlRun_def intro: reach.move)

section \<open>What the file should hold\<close>

text \<open>The payload of a stream is what follows the header of 32 bytes, when it has one; it is
  cut into blocks of \<open>B\<close> bytes, the last one shorter, each decrypted on its own.\<close>

definition payload :: "string \<Rightarrow> string" where
  "payload content = (if 32 \<le> length content \<and> take 10 content = dcFileHead
     then drop 32 content else content)"

function blocks :: "nat \<Rightarrow> string \<Rightarrow> string list" where
  "blocks B xs = (if B = 0 \<or> xs = [] then [] else take B xs # blocks B (drop B xs))"
  by pat_completeness auto
termination by (relation "measure (length \<circ> snd)") auto

declare blocks.simps [simp del]

definition dec :: "symKey \<Rightarrow> string \<Rightarrow> string option" where
  "dec key = (case key of None \<Rightarrow> Some | Some decrypt \<Rightarrow> decrypt)"

definition clear :: "symKey \<Rightarrow> string list \<Rightarrow> string" where
  "clear key bs = concat (map (\<lambda>b. case dec key b of None \<Rightarrow> [] | Some c \<Rightarrow> c) bs)"

definition readable :: "symKey \<Rightarrow> string list \<Rightarrow> bool" where
  "readable key bs = (\<forall>b \<in> set bs. dec key b \<noteq> None)"

lemma clear_simps [simp]: "clear key [] = []" "clear None bs = concat bs"
  "clear key (as @ bs) = clear key as @ clear key bs"
  by (induction bs) (simp_all add: clear_def dec_def)

definition lastBlock :: "string \<Rightarrow> string list" where
  "lastBlock xs = (if xs = [] then [] else [xs])"

lemma blocks_split:
  assumes "\<forall>b \<in> set bs. length b = B" and "length w < B"
  shows "blocks B (concat bs @ w) = bs @ lastBlock w"
  using assms
proof (induction bs)
  case Nil
  then show ?case by (cases "w = []") (auto simp: blocks.simps lastBlock_def)
next
  case (Cons b bs)
  then have "b @ concat bs @ w \<noteq> []" "B \<noteq> 0" by auto
  then show ?case using Cons by (subst blocks.simps) simp
qed

lemma concat_blocks: "0 < B \<Longrightarrow> concat (blocks B xs) = xs"
proof (induction B xs rule: blocks.induct)
  case (1 B xs)
  then show ?case by (subst blocks.simps) auto
qed

end
