(* ===== verification/StreamProofs.thy ===== *)
theory StreamProofs
  imports FileStream
begin

text \<open>
  What \<open>downloadFile\<close> guarantees, proved of the state machine of theory FileStream: an
  invariant that ties the bytes handed to the writer to the blocks of the stream, a
  measure that every effective move decreases, and from them the completeness of a
  successful download, its termination, and the cases in which success is reported over
  a truncated file.
\<close>

section \<open>The invariant of a download\<close>

lemma readerEnd_dec:
  "readerEnd key s =
    (if waitBuffer s = [] then s\<lparr>completeFlag := srcEOF s \<or> completeFlag s, pPc := PDone\<rparr>
     else case dec key (waitBuffer s) of
         None \<Rightarrow> s\<lparr>completeFlag := srcEOF s \<or> completeFlag s, pPc := PDone\<rparr>
       | Some c \<Rightarrow> s\<lparr>completeFlag := srcEOF s \<or> completeFlag s, pPc := PWrite c True\<rparr>)"
  by (simp add: readerEnd_def dec_def split: option.split)

text \<open>\<open>blocksRead bs s\<close>: the stream so far was cut into the full blocks \<open>bs\<close>, and
  the rest of it is in the buffer and still to be read.\<close>

definition blocksRead :: "nat \<Rightarrow> string \<Rightarrow> string list \<Rightarrow> dl \<Rightarrow> bool" where
  "blocksRead B content bs s \<longleftrightarrow>
     (\<forall>b \<in> set bs. length b = B) \<and> length (waitBuffer s) < B \<and>
     (if headDealFlag s then payload content = concat bs @ waitBuffer s @ stream s
      else bs = [] \<and> content = waitBuffer s @ stream s \<and> length (waitBuffer s) < 32)"

text \<open>\<open>handedOver\<close>: what the writer has got so far, by the reader's position.\<close>

fun handedOver :: "symKey \<Rightarrow> string list \<Rightarrow> readerPc \<Rightarrow> dl \<Rightarrow> bool" where
  "handedOver key bs PLoop s = (\<not> completeFlag s \<and> readable key bs \<and> written s = clear key bs)"
| "handedOver key bs (PWrite c False) s =
     (\<not> completeFlag s \<and> readable key bs \<and> written s @ c = clear key bs)"
| "handedOver key bs (PWrite c True) s = (stream s = [] \<and> readable key bs \<and>
     written s @ c = clear key (bs @ lastBlock (waitBuffer s)))"
| "handedOver key bs PDone s = (completeFlag s \<longrightarrow> stream s = [] \<and> readable key bs \<and>
     written s = clear key (bs @ lastBlock (waitBuffer s)))"

definition dlInv :: "nat \<Rightarrow> symKey \<Rightarrow> string \<Rightarrow> dl \<Rightarrow> bool" where
  "dlInv B key content s \<longleftrightarrow>
     (mainRet s = Some True \<longrightarrow> completeFlag s) \<and>
     (rClosed s \<longrightarrow> isCDone (cPc s)) \<and> (cPc s = CDone True \<longrightarrow> pPc s = PDone) \<and>
     (cPc s = CCreate \<longrightarrow> lost s = 0) \<and>
     (cPc s \<noteq> CDone False \<longrightarrow> (\<exists>bs. blocksRead B content bs s \<and> handedOver key bs (pPc s) s))"

lemma blocksRead_other [simp]:
  "blocksRead B content bs (s\<lparr>pPc := pc\<rparr>) = blocksRead B content bs s"
  "blocksRead B content bs (s\<lparr>cPc := c\<rparr>) = blocksRead B content bs s"
  "blocksRead B content bs (s\<lparr>written := w\<rparr>) = blocksRead B content bs s"
  "blocksRead B content bs (s\<lparr>lost := l\<rparr>) = blocksRead B content bs s"
  "blocksRead B content bs (s\<lparr>dealedSize := d\<rparr>) = blocksRead B content bs s"
  "blocksRead B content bs (s\<lparr>lastReport := r\<rparr>) = blocksRead B content bs s"
  "blocksRead B content bs (s\<lparr>cancelled := b\<rparr>) = blocksRead B content bs s"
  "blocksRead B content bs (s\<lparr>rClosed := b\<rparr>) = blocksRead B content bs s"
  "blocksRead B content bs (s\<lparr>mainRet := m\<rparr>) = blocksRead B content bs s"
  by (simp_all add: blocksRead_def)

lemma handedOver_other [simp]:
  "handedOver key bs pc (s\<lparr>pPc := pc'\<rparr>) = handedOver key bs pc s"
  "handedOver key bs pc (s\<lparr>cPc := c\<rparr>) = handedOver key bs pc s"
  "handedOver key bs pc (s\<lparr>cPc := c, written := w\<rparr>) = handedOver key bs pc (s\<lparr>written := w\<rparr>)"
  "handedOver key bs pc (s\<lparr>lost := l\<rparr>) = handedOver key bs pc s"
  "handedOver key bs pc (s\<lparr>dealedSize := d\<rparr>) = handedOver key bs pc s"
  "handedOver key bs pc (s\<lparr>lastReport := r\<rparr>) = handedOver key bs pc s"
  "handedOver key bs pc (s\<lparr>cancelled := b\<rparr>) = handedOver key bs pc s"
  "handedOver key bs pc (s\<lparr>rClosed := b\<rparr>) = handedOver key bs pc s"
  "handedOver key bs pc (s\<lparr>mainRet := m\<rparr>) = handedOver key bs pc s"
  by (cases "(key, bs, pc, s)" rule: handedOver.cases; simp)+

lemma inv_start: "32 < B \<Longrightarrow> dlInv B key content (dlInit content eof)"
  by (auto simp: dlInv_def dlInit_def blocksRead_def readable_def intro!: exI [of _ "[]"])

lemma clear_last: "clear key (lastBlock w) = (if w = [] then [] else case dec key w of None \<Rightarrow> [] | Some c \<Rightarrow> c)"
  by (simp add: lastBlock_def clear_def)

lemma handed_end:
  assumes "stream s = []" and "handedOver key bs PLoop s" and "pPc s = PLoop"
  shows "handedOver key bs (pPc (readerEnd key s)) (readerEnd key s)"
  using assms by (auto simp: readerEnd_dec clear_last split: option.split)

lemma readerEnd_same [simp]: "cPc (readerEnd key s) = cPc s" "rClosed (readerEnd key s) = rClosed s"
  "lost (readerEnd key s) = lost s" "mainRet (readerEnd key s) = mainRet s"
  "completeFlag (readerEnd key s) = (srcEOF s \<or> completeFlag s)"
  "blocksRead B content bs (readerEnd key s) = blocksRead B content bs s"
  by (auto simp: readerEnd_dec blocksRead_def split: option.split)

lemma read_end:
  assumes "dlInv B key content s" and "stream s = []" and "pPc s = PLoop"
  shows "dlInv B key content (readerEnd key s)"
  using assms handed_end [of s key] unfolding dlInv_def by auto

lemma read_head:
  assumes inv: "dlInv B key content s" and pc: "pPc s = PLoop" and h: "\<not> headDealFlag s" and B: "32 < B"
  shows "dlInv B key content (readerHead n key s)"
proof -
  define k where "k = min n (min (32 - length (waitBuffer s)) (length (stream s)))"
  show ?thesis
  proof (cases "k > 0 \<and> cPc s \<noteq> CDone False")
    case True
    obtain bs where bs: "blocksRead B content bs s" "handedOver key bs PLoop s"
      using inv True pc by (auto simp: dlInv_def)
    have eq: "bs = []" "content = waitBuffer s @ take k (stream s) @ drop k (stream s)"
        "length (waitBuffer s) < 32"
      using bs(1) h by (auto simp: blocksRead_def)
    have len: "length (waitBuffer s @ take k (stream s)) \<le> 32"
      using eq(3) by (auto simp: k_def)
    have t10: "take 10 content = take 10 (waitBuffer s @ take k (stream s))"
      if "length (waitBuffer s @ take k (stream s)) \<ge> 32"
      using that by (subst eq(2)) (simp add: k_def)
    show ?thesis
    proof (cases "length (waitBuffer s @ take k (stream s)) < 32")
      case True
      then show ?thesis using inv bs eq B pc h \<open>k > 0 \<and> _\<close>
        unfolding dlInv_def readerHead_def k_def [symmetric] Let_def
        by (auto simp: blocksRead_def readable_def intro!: exI [of _ "[]"])
    next
      case False
      define wb where "wb = waitBuffer s @ take k (stream s)"
      have wb: "length wb = 32" "content = wb @ drop k (stream s)" "take 10 content = take 10 wb"
        using False len eq t10 by (auto simp: wb_def)
      have step: "readerHead n key s = s\<lparr>stream := drop k (stream s), headDealFlag := True,
          waitBuffer := (if take 10 wb = dcFileHead then drop 32 wb else wb)\<rparr>"
        unfolding readerHead_def k_def [symmetric] Let_def wb_def [symmetric]
        using \<open>k > 0 \<and> _\<close> wb(1) by simp
      show ?thesis unfolding step
        using inv bs(2) eq(1) wb B pc \<open>k > 0 \<and> _\<close> unfolding dlInv_def
        by (auto simp: blocksRead_def readable_def payload_def intro!: exI [of _ "[]"])
    qed
  next
    case False
    then show ?thesis
      using inv pc read_end [OF inv _ pc, of]
      unfolding readerHead_def k_def [symmetric] Let_def
      by (auto simp: dlInv_def)
  qed
qed

lemma read_body_block:
  assumes bs: "blocksRead B content bs s" "handedOver key bs PLoop s" and h: "headDealFlag s"
    and s': "s' = s\<lparr>stream := drop k (stream s), waitBuffer := drop B (waitBuffer s @ take k (stream s)), pPc := pc\<rparr>"
    and k: "k \<le> B" and full: "B \<le> length (waitBuffer s @ take k (stream s))"
    and pc: "pc = (case dec key (take B (waitBuffer s @ take k (stream s))) of
      None \<Rightarrow> PDone | Some c \<Rightarrow> PWrite c False)"
  shows "\<exists>bs. blocksRead B content bs s' \<and> handedOver key bs (pPc s') s'"
proof -
  define wb where "wb = waitBuffer s @ take k (stream s)"
  have "payload content = concat bs @ wb @ drop k (stream s)"
    using bs(1) h by (simp add: blocksRead_def wb_def)
  moreover have "concat (bs @ [take B wb]) @ drop B wb @ drop k (stream s)
      = concat bs @ (take B wb @ drop B wb) @ drop k (stream s)"
    by (simp only: concat_append concat.simps append_Nil2 append_assoc)
  ultimately have "payload content = concat (bs @ [take B wb]) @ drop B wb @ drop k (stream s)"
    by (simp only: append_take_drop_id)
  moreover have "length (take B wb) = B" "length (drop B wb) < B"
    using full k bs(1) by (auto simp: wb_def blocksRead_def)
  moreover have s'': "waitBuffer s' = drop B wb" "stream s' = drop k (stream s)" "headDealFlag s'"
      "pPc s' = (case dec key (take B wb) of None \<Rightarrow> PDone | Some c \<Rightarrow> PWrite c False)"
      "completeFlag s' = completeFlag s" "written s' = written s"
    by (simp_all add: s' pc wb_def h del: drop_append take_append)
  ultimately have "blocksRead B content (bs @ [take B wb]) s'"
    using bs(1) by (auto simp: blocksRead_def simp del: drop_append take_append)
  moreover have "handedOver key (bs @ [take B wb]) (pPc s') s'"
    using bs(2) by (auto simp: s'' clear_def readable_def split: option.split)
  ultimately show ?thesis by blast
qed

lemma readerBody_dec:
  "readerBody n B key s =
    (let k = min n (min B (length (stream s))); wb = waitBuffer s @ take k (stream s)
     in if k > 0 then
          if length wb < B then s\<lparr>stream := drop k (stream s), waitBuffer := wb\<rparr>
          else s\<lparr>stream := drop k (stream s), waitBuffer := drop B wb,
                 pPc := (case dec key (take B wb) of None \<Rightarrow> PDone | Some c \<Rightarrow> PWrite c False)\<rparr>
        else if stream s = [] then readerEnd key s else s)"
  unfolding readerBody_def Let_def dec_def
  apply (intro if_cong refl)
  apply (cases key)
   apply (simp only: option.case)
  subgoal for d
    by (cases "d (take B (waitBuffer s @ take (min n (min B (length (stream s)))) (stream s)))")
      (simp_all only: option.case)
  done

lemma read_body:
  assumes inv: "dlInv B key content s" and pc: "pPc s = PLoop" and h: "headDealFlag s"
  shows "dlInv B key content (readerBody n B key s)"
proof -
  define k where "k = min n (min B (length (stream s)))"
  define wb where "wb = waitBuffer s @ take k (stream s)"
  show ?thesis
  proof (cases "k > 0 \<and> cPc s \<noteq> CDone False")
    case True
    obtain bs where bs: "blocksRead B content bs s" "handedOver key bs PLoop s"
      using inv True pc by (auto simp: dlInv_def)
    show ?thesis
    proof (cases "length wb < B")
      case True
      then show ?thesis using inv bs pc h \<open>k > 0 \<and> _\<close>
        unfolding dlInv_def readerBody_dec k_def [symmetric] Let_def wb_def [symmetric]
        by (auto simp: blocksRead_def wb_def intro!: exI [of _ bs])
    next
      case False
      then show ?thesis using inv pc \<open>k > 0 \<and> _\<close> read_body_block [OF bs h refl, of k]
        unfolding dlInv_def readerBody_dec k_def [symmetric] Let_def wb_def
        by (auto simp: k_def)
    qed
  next
    case False
    then show ?thesis
      using inv pc read_end [OF inv _ pc]
      unfolding readerBody_dec k_def [symmetric] Let_def
      by (auto simp: dlInv_def)
  qed
qed

lemma read_step:
  assumes inv: "dlInv B key content s" and B: "32 < B"
  shows "dlInv B key content (readerStep n B key s)"
proof (cases "pPc s")
  case PLoop
  show ?thesis
  proof (cases "cancelled s")
    case True
    then show ?thesis using inv PLoop by (auto simp: readerStep_def dlInv_def)
  next
    case False
    then show ?thesis using PLoop read_head [OF inv PLoop _ B] read_body [OF inv PLoop]
      by (simp add: readerStep_def)
  qed
next
  case (PWrite c final)
  then show ?thesis using inv by (cases "cPc s") (auto simp: readerStep_def dlInv_def isCDone_def)
next
  case PDone
  then show ?thesis using inv by (simp add: readerStep_def)
qed

lemma handed_take:
  assumes "handedOver key bs (PWrite c final) s"
  shows "handedOver key bs (afterWrite (drop k c) final)
    (s\<lparr>pPc := pc, written := written s @ take k c\<rparr>)"
  using assms by (cases final) (auto simp: afterWrite_def)

lemma handed_empty:
  "handedOver key bs (PWrite [] final) s \<Longrightarrow> handedOver key bs (afterWrite [] final) s"
  by (cases final) (auto simp: afterWrite_def)

lemma take_step:
  assumes inv: "dlInv B key content s"
  shows "dlInv B key content (writerTake n fails s)"
proof (cases "cPc s = CRead \<and> (\<exists>c final. pPc s = PWrite c final)")
  case False
  then have "writerTake n fails s = s"
    by (auto simp: writerTake_def split: writerPc.split readerPc.split)
  then show ?thesis using inv by simp
next
  case True
  then obtain c final where pc: "cPc s = CRead" "pPc s = PWrite c final" by auto
  define k where "k = min (max n 1) (min (3 * 2 ^ 20) (length c))"
  obtain bs where bs: "blocksRead B content bs s" "handedOver key bs (PWrite c final) s"
    using inv pc by (auto simp: dlInv_def)
  have step: "writerTake n fails s =
      (if k = 0 then s\<lparr>pPc := afterWrite (drop k c) final, cPc := CLoop\<rparr>
       else case fails of
         None \<Rightarrow> s\<lparr>pPc := afterWrite (drop k c) final, cPc := CLoop, written := written s @ take k c,
           dealedSize := dealedSize s + of_nat k, lastReport := Some FileDealStatusTransmit\<rparr>
       | Some j \<Rightarrow> s\<lparr>pPc := afterWrite (drop k c) final,
           written := written s @ take j (take k c), cPc := CDone False\<rparr>)"
    unfolding writerTake_def using pc
    by (simp only: k_def [symmetric] Let_def prod.case writerPc.case readerPc.case) (simp split: option.split)
  show ?thesis
  proof (cases "k = 0")
    case True
    then have "c = []" by (auto simp: k_def min_def max_def split: if_splits)
    then show ?thesis using inv pc bs True handed_empty [of key bs final s]
      unfolding step by (auto simp: dlInv_def isCDone_def intro!: exI [of _ bs])
  next
    case False
    then show ?thesis using inv pc bs(1) handed_take [OF bs(2), of k]
      unfolding step by (auto simp: dlInv_def isCDone_def split: option.split intro!: exI [of _ bs])
  qed
qed

lemma step_inv: "dlInv B key content s \<Longrightarrow> 32 < B \<Longrightarrow> dlInv B key content (dlStep B key c s)"
proof (induction B key c s rule: dlStep.induct)
  case (2 B key n s)
  then show ?case by (simp add: read_step)
next
  case (4 B key n fails s)
  then show ?case by (simp add: take_step)
qed (auto simp: dlInv_def isCDone_def writerStep_def split: writerPc.split)

lemma reach_inv: "reach B key content eof s \<Longrightarrow> 32 < B \<Longrightarrow> dlInv B key content s"
  by (induction rule: reach.induct) (auto intro: inv_start step_inv)

section \<open>Termination of every schedule\<close>

text \<open>The measure of a state: the stream left, where the reader is, the bytes of the write
  in progress, where the writer is, and the three flags still to be set.\<close>

fun readerRank :: "readerPc \<Rightarrow> nat" where
  "readerRank (PWrite c final) = (if final then 1 else 3)"
| "readerRank PLoop = 2"
| "readerRank PDone = 0"

fun inWrite :: "readerPc \<Rightarrow> nat" where
  "inWrite (PWrite c final) = length c"
| "inWrite pc = 0"

fun writerRank :: "writerPc \<Rightarrow> nat" where
  "writerRank CCreate = 3"
| "writerRank CLoop = 2"
| "writerRank CRead = 1"
| "writerRank (CDone eof) = 0"

definition movesLeft :: "(dl \<Rightarrow> nat) list" where
  "movesLeft = [\<lambda>s. length (stream s), \<lambda>s. readerRank (pPc s), \<lambda>s. inWrite (pPc s),
     \<lambda>s. writerRank (cPc s), \<lambda>s. if cancelled s then 0 else 1,
     \<lambda>s. if rClosed s then 0 else 1, \<lambda>s. if mainRet s = None then 1 else 0]"

lemma readerEnd_moves: "pPc s = PLoop \<Longrightarrow> (readerEnd key s, s) \<in> measures movesLeft"
  by (auto simp: readerEnd_dec movesLeft_def split: option.split)

lemma readerHead_cases:
  "readerHead n key s = s \<or> length (stream (readerHead n key s)) < length (stream s) \<or>
   readerHead n key s = readerEnd key s"
proof -
  define k where "k = min n (min (32 - length (waitBuffer s)) (length (stream s)))"
  show ?thesis
    unfolding readerHead_def k_def [symmetric] Let_def by (auto simp: k_def)
qed

lemma readerBody_cases:
  "readerBody n B key s = s \<or> length (stream (readerBody n B key s)) < length (stream s) \<or>
   readerBody n B key s = readerEnd key s"
proof -
  define k where "k = min n (min B (length (stream s)))"
  show ?thesis
    unfolding readerBody_dec k_def [symmetric] Let_def by (auto simp: k_def)
qed

lemma stream_moves: "length (stream t) < length (stream s) \<Longrightarrow> (t, s) \<in> measures movesLeft"
  by (simp add: movesLeft_def)

lemma rank_moves:
  "stream t = stream s \<Longrightarrow> readerRank (pPc t) < readerRank (pPc s) \<Longrightarrow> (t, s) \<in> measures movesLeft"
  by (simp add: movesLeft_def)

lemma inWrite_moves:
  "stream t = stream s \<Longrightarrow> readerRank (pPc t) = readerRank (pPc s) \<Longrightarrow> inWrite (pPc t) < inWrite (pPc s) \<Longrightarrow>
   (t, s) \<in> measures movesLeft"
  by (simp add: movesLeft_def)

lemma reader_moves:
  assumes "readerStep n B key s \<noteq> s"
  shows "(readerStep n B key s, s) \<in> measures movesLeft"
proof (cases "pPc s")
  case PLoop
  show ?thesis
  proof (cases "cancelled s")
    case True
    then show ?thesis using PLoop by (simp add: readerStep_def movesLeft_def)
  next
    case False
    then show ?thesis using assms PLoop readerHead_cases [of n key s] readerBody_cases [of n B key s]
      readerEnd_moves [OF PLoop, of key]
      by (auto simp: readerStep_def intro: stream_moves)
  qed
next
  case (PWrite c final)
  then show ?thesis using assms by (auto simp: readerStep_def movesLeft_def split: if_splits)
next
  case PDone
  then show ?thesis using assms by (simp add: readerStep_def)
qed

lemma take_moves:
  assumes "writerTake n fails s \<noteq> s"
  shows "(writerTake n fails s, s) \<in> measures movesLeft"
proof -
  obtain c final where pc: "cPc s = CRead" "pPc s = PWrite c final"
    using assms by (auto simp: writerTake_def split: writerPc.splits readerPc.splits if_splits)
  define k where "k = min (max n 1) (min (3 * 2 ^ 20) (length c))"
  have same: "stream (writerTake n fails s) = stream s"
      "pPc (writerTake n fails s) = afterWrite (drop k c) final"
    unfolding writerTake_def using pc
    by (simp_all only: k_def [symmetric] Let_def prod.case writerPc.case readerPc.case)
      (simp_all split: option.split)
  show ?thesis
  proof (cases "drop k c = []")
    case True
    then show ?thesis using same pc(2) by (intro rank_moves) (auto simp: afterWrite_def)
  next
    case False
    then have "c \<noteq> []" by auto
    then have "0 < k" by (simp add: k_def)
    then show ?thesis using same pc(2) False
      by (intro inWrite_moves) (auto simp: afterWrite_def)
  qed
qed

lemma writer_moves:
  "stream t = stream s \<Longrightarrow> pPc t = pPc s \<Longrightarrow> writerRank (cPc t) < writerRank (cPc s) \<Longrightarrow>
   (t, s) \<in> measures movesLeft"
  by (simp add: movesLeft_def)

lemma flag_moves:
  "\<not> cancelled s \<Longrightarrow> (s\<lparr>cancelled := True\<rparr>, s) \<in> measures movesLeft"
  "\<not> rClosed s \<Longrightarrow> (s\<lparr>rClosed := True\<rparr>, s) \<in> measures movesLeft"
  "mainRet s = None \<Longrightarrow> (s\<lparr>mainRet := Some b\<rparr>, s) \<in> measures movesLeft"
  by (simp_all add: movesLeft_def)

lemma dl_unchanged: "cancelled s \<Longrightarrow> s\<lparr>cancelled := True\<rparr> = s"
  "rClosed s \<Longrightarrow> s\<lparr>rClosed := True\<rparr> = s"
  by (cases s; simp)+

lemma step_moves: "dlStep B key c s \<noteq> s \<Longrightarrow> (dlStep B key c s, s) \<in> measures movesLeft"
proof (cases c)
  case ChCancel
  assume "dlStep B key c s \<noteq> s"
  then show ?thesis using ChCancel flag_moves(1) dl_unchanged(1) by force
next
  case (ChCreate ok)
  assume "dlStep B key c s \<noteq> s"
  then have "cPc s = CCreate" using ChCreate by (simp split: if_splits)
  then show ?thesis using ChCreate by (intro writer_moves) simp_all
next
  case (ChWriter l)
  assume A: "dlStep B key c s \<noteq> s"
  then have "cPc s = CLoop \<or> cPc s = CRead" using ChWriter by (simp add: writerStep_def split: writerPc.splits)
  then show ?thesis using ChWriter A by (intro writer_moves) (auto simp: writerStep_def split: if_splits)
next
  case ChClose
  assume "dlStep B key c s \<noteq> s"
  then show ?thesis using ChClose flag_moves(2) dl_unchanged(2) by (force split: if_splits)
next
  case ChMain
  assume "dlStep B key c s \<noteq> s"
  then show ?thesis using ChMain flag_moves(3) by (force split: if_splits)
qed (simp_all add: reader_moves take_moves)

section \<open>What a download guarantees\<close>

lemma reach_eof: "reach B key content eof s \<Longrightarrow> srcEOF s = eof \<and> (completeFlag s \<longrightarrow> eof)"
proof (induction rule: reach.induct)
  case start
  then show ?case by (simp add: dlInit_def)
next
  case (move s c)
  have e: "srcEOF (readerEnd key s) = srcEOF s" by (auto simp: readerEnd_dec split: option.split)
  have "srcEOF (dlStep B key c s) = srcEOF s \<and>
      (completeFlag (dlStep B key c s) \<longrightarrow> completeFlag s \<or> srcEOF s)"
  proof (cases c)
    case (ChReader n)
    have "srcEOF (readerHead n key s) = srcEOF s \<and>
        (completeFlag (readerHead n key s) \<longrightarrow> completeFlag s \<or> srcEOF s)"
      using e by (auto simp: readerHead_def Let_def)
    moreover have "srcEOF (readerBody n B key s) = srcEOF s \<and>
        (completeFlag (readerBody n B key s) \<longrightarrow> completeFlag s \<or> srcEOF s)"
      using e by (auto simp: readerBody_dec Let_def)
    ultimately show ?thesis using ChReader
      by (simp add: readerStep_def split: readerPc.split)
  qed (auto simp: writerTake_def writerStep_def Let_def split: writerPc.split readerPc.split option.split)
  then show ?case using move.IH by auto
qed

lemma blocks_of_stream:
  assumes "blocksRead B content bs s" and "stream s = []" and "32 < B"
  shows "blocks B (payload content) = bs @ lastBlock (waitBuffer s)"
proof -
  have "payload content = concat bs @ waitBuffer s"
    using assms by (auto simp: blocksRead_def payload_def split: if_splits)
  then show ?thesis using assms(1) blocks_split [of bs B "waitBuffer s"]
    by (simp add: blocksRead_def)
qed

lemmas dl_run = dlRun_def dlInit_def readerStep_def readerHead_def readerBody_def readerEnd_def
  writerTake_def writerStep_def isCDone_def dcFileHead_def afterWrite_def Let_def

text \<open>C7: downloadFile. Whatever the sizes the reads of the network return, however the two
  goroutines interleave and whenever the context is cancelled: if the caller gets
  \<open>nil\<close> and the writer saw the end of the pipe, then the stream ended with
  \<open>io.EOF\<close>, every block but the last decrypted, and what was written is the whole
  payload, header removed, each block decrypted (the last one missing exactly when it did
  not decrypt).
\<close>

theorem download_complete:
  assumes "reach B key content eof s" and "32 < B"
    and "mainRet s = Some True" and "cPc s = CDone True"
  shows "eof \<and> (\<forall>b \<in> set (butlast (blocks B (payload content))). dec key b \<noteq> None) \<and>
    written s = clear key (blocks B (payload content))"
proof -
  have inv: "dlInv B key content s" using assms(1,2) by (rule reach_inv)
  then have fin: "pPc s = PDone" "completeFlag s" using assms(3,4) by (auto simp: dlInv_def)
  obtain bs where bs: "blocksRead B content bs s" "stream s = []" "readable key bs"
      "written s = clear key (bs @ lastBlock (waitBuffer s))"
    using inv fin assms(4) by (auto simp: dlInv_def)
  have "set (butlast (bs @ lastBlock w)) \<subseteq> set bs" for w
    by (auto simp: lastBlock_def dest: in_set_butlastD)
  then show ?thesis
    using reach_eof [OF assms(1)] fin(2) bs blocks_of_stream [OF bs(1,2) assms(2)]
    by (auto simp: readable_def)
qed

theorem download_complete_witness:
  "written (dlRun 33 None [ChCreate True, ChReader 7, ChReader 40, ChReader 2, ChReader 9,
      ChReader 9, ChWriter 0, ChTake 1 None, ChWriter 0, ChTake 5 None, ChReader 0, ChWriter 0, ChWriter 0,
      ChMain]
    (dlInit (''$$dcfile$$'' @ replicate 22 CHR ''u'' @ ''hello'') True)) = ''hello''"
  (is "written ?s = _")
proof -
  have B: "32 < (33::nat)" by simp
  have r: "reach 33 None (''$$dcfile$$'' @ replicate 22 CHR ''u'' @ ''hello'') True ?s"
    by (intro reach_run reach.start)
  have m: "mainRet ?s = Some True" "cPc ?s = CDone True" by (simp_all add: dl_run)
  have "clear None (blocks 33 (payload (''$$dcfile$$'' @ replicate 22 CHR ''u'' @ ''hello''))) = ''hello''"
    by (simp add: payload_def dcFileHead_def blocks.simps)
  then show ?thesis using download_complete [OF r B m] by (simp only:)
qed

text \<open>When no choice of the schedule makes a step, the caller is past its set-up; and while
  the copy loop runs, a reader that is not done makes a step.\<close>

lemma stuck_loop:
  assumes stuck: "\<And>c. c \<noteq> ChCancel \<Longrightarrow> dlStep B key c s = s" and m: "mainRet s = None"
  shows "cPc s = CRead"
proof -
  have "\<not> isCDone (cPc s)"
  proof
    assume "isCDone (cPc s)"
    then have "s\<lparr>mainRet := Some (completeFlag s)\<rparr> = s" using m stuck [of ChMain] by simp
    then show False using m by (metis dl.select_convs(14) dl.update_convs(14) dl.surjective option.distinct(1))
  qed
  moreover have "cPc s \<noteq> CCreate"
  proof
    assume c: "cPc s = CCreate"
    then have "cPc (dlStep B key (ChCreate True) s) = CLoop" by simp
    then show False using c arg_cong [OF stuck [of "ChCreate True"], of cPc] by simp
  qed
  moreover have "cPc s \<noteq> CLoop"
  proof
    assume c: "cPc s = CLoop"
    then have "cPc (dlStep B key (ChWriter 0) s) \<noteq> CLoop" by (simp add: writerStep_def)
    then show False using c arg_cong [OF stuck [of "ChWriter 0"], of cPc] by simp
  qed
  ultimately show ?thesis by (cases "cPc s") (auto simp: isCDone_def)
qed

lemma reader_not_stuck:
  assumes "blocksRead B content bs s" and B: "32 < B" and "pPc s = PLoop" and "\<not> cancelled s"
  shows "readerStep 1 B key s \<noteq> s"
proof (cases "stream s")
  case Nil
  have "pPc (readerEnd key s) \<noteq> PLoop" by (auto simp: readerEnd_dec split: option.split)
  moreover have "readerStep 1 B key s = readerEnd key s"
    using assms Nil by (simp add: readerStep_def readerHead_def readerBody_def)
  ultimately show ?thesis using assms(3) by metis
next
  case (Cons a as)
  have "length (stream (readerStep 1 B key s)) < length (stream s)"
    using Cons assms
    by (auto simp: readerStep_def readerHead_def readerBody_dec Let_def blocksRead_def split: if_splits)
  then show ?thesis by auto
qed

lemma stuck_done:
  assumes inv: "dlInv B key content s" and B: "32 < B"
    and stuck: "\<And>c. c \<noteq> ChCancel \<Longrightarrow> dlStep B key c s = s"
  shows "mainRet s \<noteq> None"
proof
  assume m: "mainRet s = None"
  have reading: "cPc s = CRead" using stuck_loop [OF stuck m] .
  show False
  proof (cases "pPc s")
    case PLoop
    obtain bs where bs: "blocksRead B content bs s" using inv reading by (auto simp: dlInv_def)
    have "pPc (readerStep 1 B key s) = PDone" if "cancelled s" using PLoop that by (simp add: readerStep_def)
    then show False
      using reader_not_stuck [OF bs B PLoop] stuck [of "ChReader 1"] PLoop by fastforce
  next
    case (PWrite c final)
    moreover have "drop (Suc 0) c = c \<Longrightarrow> c = []" by (cases c) (auto dest: arg_cong [of _ _ length])
    ultimately have "pPc (writerTake 1 None s) \<noteq> pPc s"
      using reading by (auto simp: writerTake_def Let_def afterWrite_def)
    then show False using stuck [of "ChTake 1 None"] by simp
  next
    case PDone
    then have "cPc (writerStep 0 s) = CDone True" using reading by (simp add: writerStep_def)
    then show False using stuck [of "ChWriter 0"] reading by simp
  qed
qed

text \<open>C17: downloadFile terminates and never deadlocks. No schedule makes infinitely many
  moves that change anything, however it mixes the goroutines, the sizes of the reads, the
  failures and the cancellation; and a reachable state in which no move but a cancellation
  is left is one where the caller has its result: neither goroutine waits for the other
  for ever, and no cancellation is needed to finish.\<close>

theorem download_terminates:
  assumes "32 < B"
  shows "wf {(t, s). \<exists>c. t = dlStep B key c s \<and> t \<noteq> s} \<and>
    (\<forall>s. reach B key content eof s \<longrightarrow> (\<forall>c. c \<noteq> ChCancel \<longrightarrow> dlStep B key c s = s) \<longrightarrow>
      mainRet s \<noteq> None)"
proof (intro conjI allI impI)
  show "wf {(t, s). \<exists>c. t = dlStep B key c s \<and> t \<noteq> s}"
    by (rule wf_subset [OF wf_measures [of movesLeft]]) (auto intro: step_moves)
next
  fix s
  assume "reach B key content eof s" "\<forall>c. c \<noteq> ChCancel \<longrightarrow> dlStep B key c s = s"
  then show "mainRet s \<noteq> None" using stuck_done [of B key content s] reach_inv assms by blast
qed

theorem download_terminates_witness:
  "wf {(t, s). \<exists>c. t = dlStep 33 None c s \<and> t \<noteq> s} \<and>
   mainRet (dlRun 33 None [ChReader 3, ChReader 1, ChCreate False, ChMain, ChClose, ChReader 1]
     (dlInit ''abc'' True)) \<noteq> None"
  (is "_ \<and> mainRet ?s \<noteq> None")
proof -
  have r: "reach 33 None ''abc'' True ?s" by (intro reach_run reach.start)
  have "dlStep 33 None c ?s = ?s" if "c \<noteq> ChCancel" for c
    using that by (cases c) (simp_all add: dl_run)
  then show ?thesis using download_terminates [of 33 None "''abc''" True] r by simp
qed

text \<open>C39: the success flag is set before the last block is decrypted and written, so
  \<open>nil\<close> does not mean a whole file. For every key that does not decrypt a stream
  shorter than the header there is a schedule in which \<open>downloadFile\<close> returns
  \<open>nil\<close>, reports success and leaves an empty file; and for every such stream without
  a key there is one, cancelled after the flag is set, that also returns \<open>nil\<close> over an
  empty file.\<close>

theorem download_nil_truncated:
  assumes "content \<noteq> []" and "length content < 32"
  shows "(decrypt content = None \<longrightarrow> (\<exists>cs. let s = dlRun B (Some decrypt) cs (dlInit content True)
      in mainRet s = Some True \<and> lastReport s = Some FileDealStatusSuccess \<and> onDisk s = [])) \<and>
    (\<exists>cs. let s = dlRun B None cs (dlInit content True) in mainRet s = Some True \<and> onDisk s = [])"
proof (intro conjI impI)
  assume d: "decrypt content = None"
  let ?cs = "[ChCreate True, ChReader (length content), ChReader 0, ChWriter 0, ChWriter 0, ChMain]"
  show "\<exists>cs. let s = dlRun B (Some decrypt) cs (dlInit content True)
      in mainRet s = Some True \<and> lastReport s = Some FileDealStatusSuccess \<and> onDisk s = []"
    using assms d by (intro exI [of _ ?cs]) (simp add: dl_run onDisk_def)
next
  let ?cs = "[ChCreate True, ChReader (length content), ChReader 0, ChCancel, ChWriter 0, ChMain]"
  show "\<exists>cs. let s = dlRun B None cs (dlInit content True) in mainRet s = Some True \<and> onDisk s = []"
    using assms by (intro exI [of _ ?cs]) (simp add: dl_run onDisk_def)
qed

theorem download_nil_truncated_witness:
  "(\<exists>cs. let s = dlRun 33 (Some (\<lambda>_. None)) cs (dlInit ''abc'' True)
     in mainRet s = Some True \<and> lastReport s = Some FileDealStatusSuccess \<and> onDisk s = [])"
  using download_nil_truncated [of "''abc''" "\<lambda>_. None" 33] by simp

end
