(* ===== verification/GoStd.thy ===== *)
theory GoStd
  imports Prelude
begin

text \<open>
  The functions of Go's standard library the repository computes with: \<open>strings\<close>
  and \<open>strconv\<close>. Go strings are byte strings, as \<open>string\<close> is here.
  \<open>strings.ToLower\<close> is modelled on ASCII, \<open>strings.Split\<close> for a separator of
  one byte, which is all the sources use. Of the errors of \<open>strconv\<close> the inner
  one is kept (\<open>ErrSyntax\<close>, \<open>ErrRange\<close>).
\<close>

section \<open>strings\<close>

fun contains :: "string \<Rightarrow> string \<Rightarrow> bool" where
  "contains [] sub = (sub = [])"
| "contains (c # cs) sub = (take (length sub) (c # cs) = sub \<or> contains cs sub)"

fun split :: "char \<Rightarrow> string \<Rightarrow> string list" where
  "split sep [] = [[]]"
| "split sep (c # cs) =
     (if c = sep then [] # split sep cs
      else (case split sep cs of [] \<Rightarrow> [[c]] | w # ws \<Rightarrow> (c # w) # ws))"

fun join :: "string \<Rightarrow> string list \<Rightarrow> string" where
  "join sep [] = []"
| "join sep [w] = w"
| "join sep (w # v # ws) = w @ sep @ join sep (v # ws)"

definition toLowerChar :: "char \<Rightarrow> char" where
  "toLowerChar c = (if 65 \<le> (of_char c :: nat) \<and> (of_char c :: nat) \<le> 90
     then char_of ((of_char c :: nat) + 32) else c)"

definition toLower :: "string \<Rightarrow> string" where
  "toLower s = map toLowerChar s"

lemma contains_iff: "contains s sub \<longleftrightarrow> (\<exists>a b. s = a @ sub @ b)"
proof (induction s)
  case Nil
  then show ?case by auto
next
  case (Cons c cs)
  have "take (length sub) (c # cs) = sub \<longleftrightarrow> (\<exists>b. c # cs = sub @ b)"
    by (metis append_eq_conv_conj append_take_drop_id)
  moreover have "(\<exists>a b. c # cs = a @ sub @ b) \<longleftrightarrow>
      (\<exists>b. c # cs = sub @ b) \<or> (\<exists>a b. cs = a @ sub @ b)"
    by (metis append_Cons append_Nil list.exhaust list.inject)
  ultimately show ?case using Cons by simp
qed

lemma contains_append: "contains (a @ sub @ b) sub"
  unfolding contains_iff by blast

lemma split_nonempty [simp]: "split sep s \<noteq> []"
  by (induction s) (auto split: list.splits)

lemma split_pieces: "w \<in> set (split sep s) \<Longrightarrow> sep \<notin> set w"
  by (induction s arbitrary: w) (auto split: if_splits list.splits)

lemma join_Cons: "ws \<noteq> [] \<Longrightarrow> join sep (w # ws) = w @ sep @ join sep ws"
  by (cases ws) auto

lemma join_split: "join [sep] (split sep s) = s"
proof (induction s)
  case Nil
  then show ?case by simp
next
  case (Cons c cs)
  obtain w ws where w: "split sep cs = w # ws"
    by (meson split_nonempty list.exhaust)
  show ?case
  proof (cases "c = sep")
    case True
    then show ?thesis using Cons by (simp add: join_Cons)
  next
    case False
    then show ?thesis using Cons w by (cases ws) auto
  qed
qed

lemma length_split: "length (split sep s) = Suc (length (filter (\<lambda>c. c = sep) s))"
  by (induction s) (auto split: list.splits)

lemma split_no_sep: "sep \<notin> set w \<Longrightarrow> split sep w = [w]"
  by (induction w) auto

lemma split_append_sep: "sep \<notin> set w \<Longrightarrow> split sep (w @ sep # s) = w # split sep s"
  by (induction w) auto

lemma split_join:
  assumes "ws \<noteq> []" and "\<forall>w \<in> set ws. sep \<notin> set w"
  shows "split sep (join [sep] ws) = ws"
  using assms
proof (induction ws)
  case Nil
  then show ?case by simp
next
  case (Cons w ws)
  show ?case
  proof (cases "ws = []")
    case True
    then show ?thesis using Cons.prems by (simp add: split_no_sep)
  next
    case False
    then show ?thesis using Cons by (simp add: join_Cons split_append_sep)
  qed
qed

section \<open>strconv: printing and reading decimal integers\<close>

definition digitChar :: "nat \<Rightarrow> char" where
  "digitChar d = char_of (48 + d)"

fun natDigits :: "nat \<Rightarrow> string" where
  "natDigits n = (if n < 10 then [digitChar n]
     else natDigits (n div 10) @ [digitChar (n mod 10)])"

declare natDigits.simps [simp del]

definition itoa :: "int \<Rightarrow> string" where
  "itoa i = (if i < 0 then CHR ''-'' # natDigits (nat (- i)) else natDigits (nat i))"

definition digitVal :: "char \<Rightarrow> nat option" where
  "digitVal c = (if 48 \<le> (of_char c :: nat) \<and> (of_char c :: nat) \<le> 57
     then Some ((of_char c :: nat) - 48) else None)"

datatype numErr = ErrSyntax | ErrRange

text \<open>\<open>parseUintLoop\<close> is the digit loop of \<open>ParseUint\<close>: the first bad
  character is a syntax error, the first digit that leaves the range a range error.\<close>

fun parseUintLoop :: "nat \<Rightarrow> nat \<Rightarrow> string \<Rightarrow> numErr + nat" where
  "parseUintLoop maxVal n [] = Inr n"
| "parseUintLoop maxVal n (c # cs) = (case digitVal c of
      None \<Rightarrow> Inl ErrSyntax
    | Some d \<Rightarrow> if n * 10 + d > maxVal then Inl ErrRange
                 else parseUintLoop maxVal (n * 10 + d) cs)"

definition parseUint :: "nat \<Rightarrow> string \<Rightarrow> numErr + nat" where
  "parseUint bits s = (if s = [] then Inl ErrSyntax else parseUintLoop (2 ^ bits - 1) 0 s)"

text \<open>\<open>parseInt bits s\<close> is \<open>strconv.ParseInt(s, 10, bits)\<close>, and \<open>Atoi\<close>
  is its case of 64 bits: the value returned along with a range error is the nearest
  bound, along with a syntax error it is 0.\<close>

definition parseInt :: "nat \<Rightarrow> string \<Rightarrow> int \<times> numErr option" where
  "parseInt bits s =
    (if s = [] then (0, Some ErrSyntax)
     else
       let neg = (hd s = CHR ''-'');
           body = (if hd s = CHR ''-'' \<or> hd s = CHR ''+'' then tl s else s);
           cutoff = (2::int) ^ (bits - 1)
       in case parseUint bits body of
            Inl ErrSyntax \<Rightarrow> (0, Some ErrSyntax)
          | Inl ErrRange \<Rightarrow> (if neg then - cutoff else cutoff - 1, Some ErrRange)
          | Inr un \<Rightarrow>
              if \<not> neg \<and> int un \<ge> cutoff then (cutoff - 1, Some ErrRange)
              else if neg \<and> int un > cutoff then (- cutoff, Some ErrRange)
              else (if neg then - int un else int un, None))"

definition atoi :: "string \<Rightarrow> int \<times> numErr option" where
  "atoi s = parseInt 64 s"

lemma digitVal_digitChar [simp]: "d < 10 \<Longrightarrow> digitVal (digitChar d) = Some d"
  by (simp add: digitVal_def digitChar_def)

lemma natDigits_nonempty [simp]: "natDigits n \<noteq> []"
  by (subst natDigits.simps) simp

lemma natDigits_digits: "c \<in> set (natDigits n) \<Longrightarrow> \<exists>d < 10. c = digitChar d"
proof (induction n rule: natDigits.induct)
  case (1 n)
  show ?case
  proof (cases "n < 10")
    case True
    then show ?thesis using "1.prems" by (subst (asm) natDigits.simps) auto
  next
    case False
    then show ?thesis using 1 by (subst (asm) natDigits.simps) (auto intro: exI [of _ "n mod 10"])
  qed
qed

lemma digitChar_not_sign:
  assumes "d < 10" shows "digitChar d \<noteq> CHR ''-''" and "digitChar d \<noteq> CHR ''+''"
proof -
  from assms have "(of_char (digitChar d) :: nat) = 48 + d" by (simp add: digitChar_def)
  then show "digitChar d \<noteq> CHR ''-''" and "digitChar d \<noteq> CHR ''+''" by auto
qed

lemma parseUintLoop_append:
  "parseUintLoop m n (xs @ ys) = (case parseUintLoop m n xs of
     Inl e \<Rightarrow> Inl e | Inr k \<Rightarrow> parseUintLoop m k ys)"
  by (induction xs arbitrary: n) (auto split: option.split)

lemma parseUintLoop_natDigits: "n \<le> m \<Longrightarrow> parseUintLoop m 0 (natDigits n) = Inr n"
proof (induction n rule: natDigits.induct)
  case (1 n)
  show ?case
  proof (cases "n < 10")
    case True
    then show ?thesis using "1.prems" by (subst natDigits.simps) simp
  next
    case False
    then show ?thesis using 1 by (subst natDigits.simps) (simp add: parseUintLoop_append)
  qed
qed

lemma natDigits_hd: "hd (natDigits n) \<noteq> CHR ''-''" "hd (natDigits n) \<noteq> CHR ''+''"
proof -
  obtain d where "d < 10" and "hd (natDigits n) = digitChar d"
    using natDigits_digits [of "hd (natDigits n)" n] by auto
  then show "hd (natDigits n) \<noteq> CHR ''-''" "hd (natDigits n) \<noteq> CHR ''+''"
    using digitChar_not_sign by simp_all
qed

lemma atoi_itoa:
  assumes "- (2 ^ 63) \<le> i" and "i < 2 ^ 63"
  shows "atoi (itoa i) = (i, None)"
proof (cases "i < 0")
  case True
  then have "parseUint 64 (natDigits (nat (- i))) = Inr (nat (- i))"
    using assms by (simp add: parseUint_def parseUintLoop_natDigits)
  then show ?thesis using True assms by (simp add: atoi_def parseInt_def itoa_def)
next
  case False
  then have "parseUint 64 (natDigits (nat i)) = Inr (nat i)"
    using assms by (simp add: parseUint_def parseUintLoop_natDigits)
  then show ?thesis using False assms
    by (simp add: atoi_def parseInt_def itoa_def natDigits_hd)
qed

lemma parseUintLoop_bad_last:
  assumes "digitVal c = None"
  shows "\<exists>e. parseUintLoop m n (xs @ [c]) = Inl e"
  using assms by (cases "parseUintLoop m n xs") (auto simp: parseUintLoop_append)

text \<open>Text that ends in a byte that is no digit, such as a newline, is never a number.\<close>

lemma parseInt_bad_last:
  assumes "digitVal c = None"
  shows "snd (parseInt bits (xs @ [c])) \<noteq> None"
proof -
  have loop: "\<exists>e. parseUint bits (ys @ [c]) = Inl e" for ys
    using parseUintLoop_bad_last [OF assms] by (simp add: parseUint_def)
  show ?thesis
  proof (cases xs)
    case Nil
    have "\<exists>e. parseUint bits [] = Inl e" by (simp add: parseUint_def)
    then show ?thesis using Nil loop [of "[]"]
      by (auto simp: parseInt_def Let_def split: numErr.split)
  next
    case (Cons x ys)
    then show ?thesis using loop [of ys] loop [of xs]
      by (auto simp: parseInt_def Let_def split: numErr.split)
  qed
qed

end
