(* ===== verification/ConfigData.thy ===== *)
theory ConfigData
  imports GoStd
begin

text \<open>
  The configuration of the manager (config/config.go): the record of a released program,
  the record read from and written to \<open>manage_config.yaml\<close>, and its default value. Go's \<open>int\<close> is \<open>int\<close> here; the
  port is only printed.

  YAML is a third-party library; what the repository gives it is the names of the keys (the
  struct tags) and the types of the fields. A document is the tree the library writes and
  reads, and the conversions between the records and such trees are the tags and the types:
  members are found by key, unknown keys are skipped, an absent key leaves the zero value of
  a fresh struct, and a value that does not fit its field is an error.
\<close>

record DcProgram =
  OriginUrl :: string
  MirrorUrl :: string
  EnclaveId :: string
  Version :: string
  MirrCids :: "string list"

record DcManageConfig =
  ChainNodeName :: string
  ValidatorFlag :: string
  ChainSyncMode :: string
  ChainWsUrl :: string
  ChainRpcListenPort :: int
  PccsKey :: string
  ChainImage :: string
  NodeImage :: string
  UpgradeImage :: string
  TeeReportServerImage :: string
  PccsImage :: string
  Registry :: string
  ChainBootNode :: string
  ChainExposeFlag :: string
  NewVersion :: DcProgram

definition emptyProgram :: DcProgram where
  "emptyProgram = \<lparr>OriginUrl = [], MirrorUrl = [], EnclaveId = [], Version = [], MirrCids = []\<rparr>"

definition defaultConfig :: DcManageConfig where
  "defaultConfig = \<lparr>
     ChainNodeName = [],
     ValidatorFlag = [],
     ChainSyncMode = ''full'',
     ChainWsUrl = ''ws://127.0.0.1:9944'',
     ChainRpcListenPort = 9944,
     PccsKey = [],
     ChainImage = ''ghcr.io/dcnetio/dcchain:latest'',
     NodeImage = ''ghcr.io/dcnetio/dcstorage:latest'',
     UpgradeImage = ''ghcr.io/dcnetio/dcupgrade:latest'',
     TeeReportServerImage = ''ghcr.io/dcnetio/dcteereportserver:0.1.2'',
     PccsImage = ''ghcr.io/dcnetio/pccs:latest'',
     Registry = ''ghcr.io/dcnetio'',
     ChainBootNode = [],
     ChainExposeFlag = [],
     NewVersion = emptyProgram\<rparr>"

section \<open>The keys of the file\<close>

datatype yaml = YStr string | YInt int | YSeq "yaml list" | YMap "(string \<times> yaml) list"
  | YOther string  \<comment> \<open>any other scalar, by its text\<close>

definition programYaml :: "DcProgram \<Rightarrow> yaml" where
  "programYaml p = YMap [
     (''originUrl'', YStr (OriginUrl p)),
     (''mirrorUrl'', YStr (MirrorUrl p)),
     (''enclaveId'', YStr (EnclaveId p)),
     (''version'', YStr (Version p)),
     (''mirrCids'', YSeq (map YStr (MirrCids p)))]"

definition configYaml :: "DcManageConfig \<Rightarrow> yaml" where
  "configYaml c = YMap [
     (''chainNodeName'', YStr (ChainNodeName c)),
     (''validatorFlag'', YStr (ValidatorFlag c)),
     (''chainSyncMode'', YStr (ChainSyncMode c)),
     (''chainWsUrl'', YStr (ChainWsUrl c)),
     (''chainRpcListenPort'', YInt (ChainRpcListenPort c)),
     (''pccsKey'', YStr (PccsKey c)),
     (''chainImage'', YStr (ChainImage c)),
     (''nodeImage'', YStr (NodeImage c)),
     (''upgradeImage'', YStr (UpgradeImage c)),
     (''teeReportServerImage'', YStr (TeeReportServerImage c)),
     (''pccsImage'', YStr (PccsImage c)),
     (''registry'', YStr (Registry c)),
     (''chainBootNode'', YStr (ChainBootNode c)),
     (''chainExposeFlag'', YStr (ChainExposeFlag c)),
     (''newVersion'', programYaml (NewVersion c))]"

text \<open>Decoding. What the library makes of a value that is not of the type of its field (a
  number for a string, a null) is \<open>conv\<close>, a parameter: a value of the field's type, or
  none.\<close>

record yamlConv =
  toStr :: "yaml \<Rightarrow> string option"
  toInt :: "yaml \<Rightarrow> int option"
  toSeq :: "yaml \<Rightarrow> yaml list option"
  toMap :: "yaml \<Rightarrow> (string \<times> yaml) list option"

definition strOf :: "yamlConv \<Rightarrow> yaml \<Rightarrow> string option" where
  "strOf conv v = (case v of YStr x \<Rightarrow> Some x | _ \<Rightarrow> toStr conv v)"

definition intOf :: "yamlConv \<Rightarrow> yaml \<Rightarrow> int option" where
  "intOf conv v = (case v of YInt i \<Rightarrow> Some i | _ \<Rightarrow> toInt conv v)"

definition seqOf :: "yamlConv \<Rightarrow> yaml \<Rightarrow> yaml list option" where
  "seqOf conv v = (case v of YSeq vs \<Rightarrow> Some vs | _ \<Rightarrow> toSeq conv v)"

definition mapOf :: "yamlConv \<Rightarrow> yaml \<Rightarrow> (string \<times> yaml) list option" where
  "mapOf conv v = (case v of YMap kvs \<Rightarrow> Some kvs | _ \<Rightarrow> toMap conv v)"

fun strsOf :: "yamlConv \<Rightarrow> yaml list \<Rightarrow> string list option" where
  "strsOf conv [] = Some []"
| "strsOf conv (v # vs) = (case strOf conv v of None \<Rightarrow> None
     | Some x \<Rightarrow> map_option ((#) x) (strsOf conv vs))"

text \<open>The member of a key, which YAML allows once; of a repeated key the last is read.\<close>

definition yamlField :: "(string \<times> yaml) list \<Rightarrow> string \<Rightarrow> (yaml \<Rightarrow> 'a option) \<Rightarrow> 'a \<Rightarrow> 'a option" where
  "yamlField kvs key dec zero = (case map_of (rev kvs) key of None \<Rightarrow> Some zero | Some v \<Rightarrow> dec v)"

definition programOf :: "yamlConv \<Rightarrow> yaml \<Rightarrow> DcProgram option" where
  "programOf conv d = (case mapOf conv d of None \<Rightarrow> None | Some kvs \<Rightarrow>
     let str = (\<lambda>key. yamlField kvs key (strOf conv) []) in
     Option.bind (str ''originUrl'') (\<lambda>origin.
     Option.bind (str ''mirrorUrl'') (\<lambda>mirror.
     Option.bind (str ''enclaveId'') (\<lambda>enclave.
     Option.bind (str ''version'') (\<lambda>version.
     Option.bind (yamlField kvs ''mirrCids'' (\<lambda>v. Option.bind (seqOf conv v) (strsOf conv)) []) (\<lambda>cids.
       Some \<lparr>OriginUrl = origin, MirrorUrl = mirror, EnclaveId = enclave, Version = version,
         MirrCids = cids\<rparr>))))))"

definition configOf :: "yamlConv \<Rightarrow> yaml \<Rightarrow> DcManageConfig option" where
  "configOf conv d = (case mapOf conv d of None \<Rightarrow> None | Some kvs \<Rightarrow>
     let str = (\<lambda>key. yamlField kvs key (strOf conv) []) in
     Option.bind (str ''chainNodeName'') (\<lambda>nodeName.
     Option.bind (str ''validatorFlag'') (\<lambda>validator.
     Option.bind (str ''chainSyncMode'') (\<lambda>syncMode.
     Option.bind (str ''chainWsUrl'') (\<lambda>wsUrl.
     Option.bind (yamlField kvs ''chainRpcListenPort'' (intOf conv) 0) (\<lambda>port.
     Option.bind (str ''pccsKey'') (\<lambda>pccs.
     Option.bind (str ''chainImage'') (\<lambda>chainImg.
     Option.bind (str ''nodeImage'') (\<lambda>nodeImg.
     Option.bind (str ''upgradeImage'') (\<lambda>upgradeImg.
     Option.bind (str ''teeReportServerImage'') (\<lambda>teeImg.
     Option.bind (str ''pccsImage'') (\<lambda>pccsImg.
     Option.bind (str ''registry'') (\<lambda>registry.
     Option.bind (str ''chainBootNode'') (\<lambda>bootNode.
     Option.bind (str ''chainExposeFlag'') (\<lambda>expose.
     Option.bind (yamlField kvs ''newVersion'' (programOf conv) emptyProgram) (\<lambda>newVersion.
       Some \<lparr>ChainNodeName = nodeName, ValidatorFlag = validator, ChainSyncMode = syncMode,
         ChainWsUrl = wsUrl, ChainRpcListenPort = port, PccsKey = pccs, ChainImage = chainImg,
         NodeImage = nodeImg, UpgradeImage = upgradeImg, TeeReportServerImage = teeImg,
         PccsImage = pccsImg, Registry = registry, ChainBootNode = bootNode,
         ChainExposeFlag = expose, NewVersion = newVersion\<rparr>))))))))))))))))"

text \<open>What was encoded is decoded to the same record, whatever the conversions: every key is
  there once, with a value of the type of its field.\<close>

lemma strsOf_map: "strsOf conv (map YStr xs) = Some xs"
  by (induction xs) (simp_all add: strOf_def)

lemma programOf_programYaml: "programOf conv (programYaml p) = Some p"
  by (simp add: programOf_def programYaml_def mapOf_def yamlField_def strOf_def seqOf_def strsOf_map Let_def)

lemma configOf_configYaml [simp]: "configOf conv (configYaml c) = Some c"
  by (simp add: configOf_def configYaml_def mapOf_def yamlField_def strOf_def intOf_def
      programOf_programYaml Let_def)

definition Config_file_path :: string where
  "Config_file_path = ''/opt/dcnetio/etc/manage_config.yaml''"

definition CommitBasePubkey :: string where
  "CommitBasePubkey = ''bl3kr5jjklu2iijnmyhz7cy5lz3h5xhrlp7sim54bjhc4v3ztzfdq''"

end
