(* ===== verification/World.thy ===== *)
theory World
  imports ConfigData FileStream
begin

text \<open>
  What lies outside the sources and how the process is run against it.

  Everything the repository does not implement itself is a parameter: the record
  \<open>env\<close> holds one function per external operation (the Docker daemon, the
  operating system, HTTP peers, the chain node, and the pure third-party functions for
  versions, keys, addresses and the text of YAML documents). An operation with an effect is given the whole
  history of the run, newest event first, so that any environment, with whatever state
  of its own, is such a record; no theorem assumes more about it than it says. Each
  effect appends to the history an event with its arguments and its reply: safety
  properties are statements about these histories.

  The state of the process (\<open>st\<close>) is the history, \<open>config.RunningConfig\<close>
  and the package variables of blockchain.go and command.go. Messages to the logger and
  the progress lines printed by package util are not events; what the commands print on
  standard output is.
\<close>

section \<open>Docker data\<close>

record containerInfo =
  c_ID :: string
  c_Names :: "string list"
  c_Image :: string

record containerState =
  Running :: bool
  StartedAt :: string

datatype mountType = TypeBind | TypeVolume

record mountSpec =
  m_Type :: mountType
  m_Source :: string
  m_Target :: string
  ConsistencyDefault :: bool  \<comment> \<open>Consistency set to the default explicitly\<close>
  PropagationShared :: bool  \<comment> \<open>BindOptions with shared propagation\<close>

record deviceMapping =
  PathOnHost :: string
  PathInContainer :: string
  CgroupPermissions :: string

record logConfigSpec =
  l_Type :: string
  l_Config :: "(string \<times> string) list"

record hostConfigSpec =
  RestartPolicy :: string
  Mounts :: "mountSpec list"
  NetworkMode :: string
  Devices :: "deviceMapping list"
  LogConfig :: "logConfigSpec option"

record containerConfig =
  Image :: string
  Entrypoint :: "string list"
  Env :: "string list"

section \<open>Chain data\<close>

record Loginfo =
  Logid :: string
  LogSize :: "64 word"

record BlockStoreunitInfo =
  Peers :: "string list"
  Users :: "string list"
  FileSize :: "64 word"
  Utype :: "32 word"
  Logs :: "Loginfo list"

record BlockPeerInfo =
  Req_account :: string
  Stash :: string
  Total_space :: "64 word"
  Free_space :: "64 word"
  Status :: "32 word"
  Report_number :: "32 word"
  Staked_number :: "32 word"
  Reward_number :: "32 word"
  Ip_address :: string

record EnclaveIdInfo =
  Blockheight :: "32 word"
  InfoEnclaveId :: string
  Signature :: string

record addrInfo =
  PeerID :: string
  Addrs :: "string list"

definition noAddr :: addrInfo where
  "noAddr = \<lparr>PeerID = [], Addrs = []\<rparr>"

datatype storageVal = SvProgram DcProgram | SvFile BlockStoreunitInfo | SvPeer BlockPeerInfo
  | SvTrusted "string list" | SvEnclaves "EnclaveIdInfo list" | SvCount "32 word"

datatype gover = GoVer string

section \<open>Data of the storage network\<close>

text \<open>What an identifier names: a stream of bytes and how it ends (with \<open>io.EOF\<close> or
  not), or a folder. The entries of a folder are as \<open>ForEachEntry\<close> lists them, up to
  the error that ends the listing; a sub-folder may fail to open.\<close>

datatype ipfsNode = FileNode string bool | FolderNode

datatype ipfsDir = Dir "ipfsEntry list" err
  and ipfsEntry = FileEntry string string | DirEntry string err ipfsDir

section \<open>Replies and events\<close>

datatype httpMethod = GET | GET_insecure | POST string

text \<open>\<open>HttpResp\<close>: the status, the bytes of the body that could be read and the
  error that ended the reading, if any.\<close>

datatype httpReply = HttpFail goerr | HttpResp int string err

datatype statReply = StatOk | StatNotExist goerr | StatErr goerr

datatype event =
    EvClient err
  | EvList bool "goerr + containerInfo list"
  | EvCreate containerConfig hostConfigSpec string "goerr + string"
  | EvInspect string "goerr + containerState"
  | EvStart string err
  | EvStop string "int option" err
  | EvRemove string err
  | EvVolList "goerr + string list"
  | EvVolCreate string err
  | EvVolRemove string err
  | EvPull string err
  | EvPullRead err
  | EvLoad string err
  | EvLogs string string err
  | EvLogCopy err
  | EvHttp httpMethod string httpReply
  | EvStat string statReply
  | EvReadFile string "goerr + string"
  | EvWriteFile string string err
  | EvCreateFile string err
  | EvMkdirAll string err
  | EvRemoveAll string err
  | EvChmod string err
  | EvSetupLog string bool
  | EvRemoveFile string
  | EvRename string string err
  | EvOpen string err
  | EvFindProcess int "goerr + bool"
  | EvOutput string "goerr + string option"
  | EvSpawn "string list"
  | EvSelect bool
  | EvSignal
  | EvSleep nat
  | EvRand nat nat
  | EvNow "64 word"
  | EvScan string
  | EvPrint string
  | EvDial string "goerr + string"
  | EvMetadata string "goerr + string"
  | EvHealth string "goerr + bool"
  | EvStorage string string "goerr + storageVal option"
  | EvNet string err
  | EvGetFile string "goerr + ipfsNode"
  | EvFolder string "goerr + ipfsDir"
  | EvFetch string "choice list" dl
  | EvCtxDone err
  | EvContext "64 word option"  \<comment> \<open>a context with a time limit in nanoseconds, or none\<close>
  | EvBootstrap "addrInfo list" err

type_synonym history = "event list"

section \<open>The environment\<close>

record env =
  \<comment> \<open>Docker client\<close>
  eClient :: "history \<Rightarrow> err"
  eList :: "history \<Rightarrow> bool \<Rightarrow> goerr + containerInfo list"
  eCreate :: "history \<Rightarrow> containerConfig \<Rightarrow> hostConfigSpec \<Rightarrow> string \<Rightarrow> goerr + string"
  eInspect :: "history \<Rightarrow> string \<Rightarrow> goerr + containerState"
  eStart :: "history \<Rightarrow> string \<Rightarrow> err"
  eStop :: "history \<Rightarrow> string \<Rightarrow> int option \<Rightarrow> err"
  eRemove :: "history \<Rightarrow> string \<Rightarrow> err"
  eVolList :: "history \<Rightarrow> goerr + string list"
  eVolCreate :: "history \<Rightarrow> string \<Rightarrow> err"
  eVolRemove :: "history \<Rightarrow> string \<Rightarrow> err"
  ePull :: "history \<Rightarrow> string \<Rightarrow> err"
  ePullRead :: "history \<Rightarrow> err"
  eLoad :: "history \<Rightarrow> string \<Rightarrow> err"
  eLogs :: "history \<Rightarrow> string \<Rightarrow> string \<Rightarrow> err"
  eLogCopy :: "history \<Rightarrow> err"
  \<comment> \<open>HTTP\<close>
  eNewRequest :: "string \<Rightarrow> err"
  eHttp :: "history \<Rightarrow> httpMethod \<Rightarrow> string \<Rightarrow> httpReply"
  \<comment> \<open>operating system\<close>
  eStat :: "history \<Rightarrow> string \<Rightarrow> statReply"
  eReadFile :: "history \<Rightarrow> string \<Rightarrow> goerr + string"
  eWriteFile :: "history \<Rightarrow> string \<Rightarrow> string \<Rightarrow> err"
  eMkdirAll :: "history \<Rightarrow> string \<Rightarrow> err"
  eRemoveAll :: "history \<Rightarrow> string \<Rightarrow> err"
  eChmod :: "history \<Rightarrow> string \<Rightarrow> err"
  eSetupLog :: "history \<Rightarrow> string \<Rightarrow> bool"
  eCreateFile :: "history \<Rightarrow> string \<Rightarrow> err"
  eRename :: "history \<Rightarrow> string \<Rightarrow> string \<Rightarrow> err"
  eOpen :: "history \<Rightarrow> string \<Rightarrow> err"
  eFindProcess :: "history \<Rightarrow> int \<Rightarrow> goerr + bool"
  eOutput :: "history \<Rightarrow> string \<Rightarrow> goerr + string option"
  eArgs :: "string list"
  eGetpid :: int
  eGetppid :: int
  eSelect :: "history \<Rightarrow> bool"
  eRand :: "history \<Rightarrow> nat \<Rightarrow> nat"
  eNow :: "history \<Rightarrow> 64 word"
  eScan :: "history \<Rightarrow> string"
  \<comment> \<open>chain node\<close>
  eDial :: "history \<Rightarrow> string \<Rightarrow> goerr + string"
  eMetadata :: "history \<Rightarrow> string \<Rightarrow> goerr + string"
  eHealth :: "history \<Rightarrow> string \<Rightarrow> goerr + bool"
  eStorageKey :: "string \<Rightarrow> string \<Rightarrow> string \<Rightarrow> string list \<Rightarrow> goerr + string"
  eEncode :: "string \<Rightarrow> string"
  eProgram :: "history \<Rightarrow> string \<Rightarrow> string \<Rightarrow> goerr + DcProgram option"
  eFile :: "history \<Rightarrow> string \<Rightarrow> string \<Rightarrow> goerr + BlockStoreunitInfo option"
  ePeer :: "history \<Rightarrow> string \<Rightarrow> string \<Rightarrow> goerr + BlockPeerInfo option"
  eTrusted :: "history \<Rightarrow> string \<Rightarrow> string \<Rightarrow> goerr + string list option"
  eEnclaves :: "history \<Rightarrow> string \<Rightarrow> string \<Rightarrow> goerr + EnclaveIdInfo list option"
  eCount :: "history \<Rightarrow> string \<Rightarrow> string \<Rightarrow> goerr + 32 word option"
  \<comment> \<open>storage network: the named steps of the set-up, files, folders, schedules\<close>
  eNet :: "history \<Rightarrow> string \<Rightarrow> err"
  eGetFile :: "history \<Rightarrow> string \<Rightarrow> goerr + ipfsNode"
  eBootstrap :: "history \<Rightarrow> addrInfo list \<Rightarrow> err"
  eFolder :: "history \<Rightarrow> string \<Rightarrow> goerr + ipfsDir"
  eSchedule :: "history \<Rightarrow> choice list"
  eCtxDone :: "history \<Rightarrow> err"
  \<comment> \<open>pure third-party functions and the processor\<close>
  eSymKey :: "string \<Rightarrow> goerr + (string \<Rightarrow> string option)"
  eHex :: "string \<Rightarrow> string"
  eJsonErr :: "string \<Rightarrow> goerr"
  eAddrInfo :: "string \<Rightarrow> goerr + addrInfo"
  eMbase :: "string \<Rightarrow> goerr + string"
  ePubKey :: "string \<Rightarrow> goerr + string"
  eVerify :: "string \<Rightarrow> string \<Rightarrow> string \<Rightarrow> goerr + bool"
  eNewVersion :: "string \<Rightarrow> goerr + gover"
  eLessThan :: "gover \<Rightarrow> gover \<Rightarrow> bool"
  eYamlEmit :: "yaml \<Rightarrow> goerr + string"
  eYamlParse :: "string \<Rightarrow> goerr + yaml"
  eYamlConv :: yamlConv
  eSGX1 :: bool
  eSGX2 :: bool
  eEPCSections :: "64 word list"

section \<open>The state of the process\<close>

record st =
  trace :: history
  RunningConfig :: DcManageConfig
  gChainApi :: "string option"
  gMeta :: "string option"
  verionLogFlag :: bool
  waitEnclaveIdFlag :: bool
  versionGetErrCount :: int

definition initSt :: st where
  "initSt = \<lparr>trace = [], RunningConfig = defaultConfig, gChainApi = None, gMeta = None,
     verionLogFlag = True, waitEnclaveIdFlag = True, versionGetErrCount = 0\<rparr>"

type_synonym 'a go = "(st, 'a) prog"

section \<open>External operations\<close>

definition ext :: "(history \<Rightarrow> 'r) \<Rightarrow> ('r \<Rightarrow> event) \<Rightarrow> 'r go" where
  "ext f mk = (\<lambda>s. (Ret (f (trace s)), s\<lparr>trace := mk (f (trace s)) # trace s\<rparr>))"

definition emit :: "event \<Rightarrow> unit go" where
  "emit e = ext (\<lambda>h. ()) (\<lambda>_. e)"

definition println :: "string \<Rightarrow> unit go" where
  "println x = emit (EvPrint x)"

definition NewClientWithOpts :: "env \<Rightarrow> err go" where
  "NewClientWithOpts E = ext (eClient E) EvClient"

definition ContainerList :: "env \<Rightarrow> bool \<Rightarrow> (goerr + containerInfo list) go" where
  "ContainerList E all = ext (\<lambda>h. eList E h all) (EvList all)"

definition ContainerCreate ::
    "env \<Rightarrow> containerConfig \<Rightarrow> hostConfigSpec \<Rightarrow> string \<Rightarrow> (goerr + string) go" where
  "ContainerCreate E c hc n = ext (\<lambda>h. eCreate E h c hc n) (EvCreate c hc n)"

definition ContainerInspect :: "env \<Rightarrow> string \<Rightarrow> (goerr + containerState) go" where
  "ContainerInspect E i = ext (\<lambda>h. eInspect E h i) (EvInspect i)"

definition ContainerStart :: "env \<Rightarrow> string \<Rightarrow> err go" where
  "ContainerStart E i = ext (\<lambda>h. eStart E h i) (EvStart i)"

definition ContainerStop :: "env \<Rightarrow> string \<Rightarrow> int option \<Rightarrow> err go" where
  "ContainerStop E i t = ext (\<lambda>h. eStop E h i t) (EvStop i t)"

definition ContainerRemove :: "env \<Rightarrow> string \<Rightarrow> err go" where
  "ContainerRemove E i = ext (\<lambda>h. eRemove E h i) (EvRemove i)"

definition VolumeList :: "env \<Rightarrow> (goerr + string list) go" where
  "VolumeList E = ext (eVolList E) EvVolList"

definition VolumeCreate :: "env \<Rightarrow> string \<Rightarrow> err go" where
  "VolumeCreate E n = ext (\<lambda>h. eVolCreate E h n) (EvVolCreate n)"

definition VolumeRemove :: "env \<Rightarrow> string \<Rightarrow> err go" where
  "VolumeRemove E n = ext (\<lambda>h. eVolRemove E h n) (EvVolRemove n)"

definition httpDo :: "env \<Rightarrow> httpMethod \<Rightarrow> string \<Rightarrow> httpReply go" where
  "httpDo E m u = ext (\<lambda>h. eHttp E h m u) (EvHttp m u)"

definition osStat :: "env \<Rightarrow> string \<Rightarrow> statReply go" where
  "osStat E p = ext (\<lambda>h. eStat E h p) (EvStat p)"

definition osReadFile :: "env \<Rightarrow> string \<Rightarrow> (goerr + string) go" where
  "osReadFile E p = ext (\<lambda>h. eReadFile E h p) (EvReadFile p)"

definition osWriteFile :: "env \<Rightarrow> string \<Rightarrow> string \<Rightarrow> err go" where
  "osWriteFile E p c = ext (\<lambda>h. eWriteFile E h p c) (EvWriteFile p c)"

definition osMkdirAll :: "env \<Rightarrow> string \<Rightarrow> err go" where
  "osMkdirAll E p = ext (\<lambda>h. eMkdirAll E h p) (EvMkdirAll p)"

definition osRemoveAll :: "env \<Rightarrow> string \<Rightarrow> err go" where
  "osRemoveAll E p = ext (\<lambda>h. eRemoveAll E h p) (EvRemoveAll p)"

definition osChmod :: "env \<Rightarrow> string \<Rightarrow> err go" where
  "osChmod E p = ext (\<lambda>h. eChmod E h p) (EvChmod p)"

text \<open>\<open>SetupLogging\<close> of the logging library: whether it returned; it panics when it
  cannot open its output.\<close>

definition setupLogging :: "env \<Rightarrow> string \<Rightarrow> bool go" where
  "setupLogging E p = ext (\<lambda>h. eSetupLog E h p) (EvSetupLog p)"

definition osCreate :: "env \<Rightarrow> string \<Rightarrow> err go" where
  "osCreate E p = ext (\<lambda>h. eCreateFile E h p) (EvCreateFile p)"

definition osRename :: "env \<Rightarrow> string \<Rightarrow> string \<Rightarrow> err go" where
  "osRename E p q = ext (\<lambda>h. eRename E h p q) (EvRename p q)"

definition osOpen :: "env \<Rightarrow> string \<Rightarrow> err go" where
  "osOpen E p = ext (\<lambda>h. eOpen E h p) (EvOpen p)"

definition ImagePull :: "env \<Rightarrow> string \<Rightarrow> err go" where
  "ImagePull E img = ext (\<lambda>h. ePull E h img) (EvPull img)"

definition copyPull :: "env \<Rightarrow> err go" where
  "copyPull E = ext (ePullRead E) EvPullRead"

definition ImageLoad :: "env \<Rightarrow> string \<Rightarrow> err go" where
  "ImageLoad E p = ext (\<lambda>h. eLoad E h p) (EvLoad p)"

definition net :: "env \<Rightarrow> string \<Rightarrow> err go" where
  "net E what = ext (\<lambda>h. eNet E h what) (EvNet what)"

definition bootstrap :: "env \<Rightarrow> addrInfo list \<Rightarrow> err go" where
  "bootstrap E peers = ext (\<lambda>h. eBootstrap E h peers) (EvBootstrap peers)"

definition getFile :: "env \<Rightarrow> string \<Rightarrow> (goerr + ipfsNode) go" where
  "getFile E cid = ext (\<lambda>h. eGetFile E h cid) (EvGetFile cid)"

definition openFolder :: "env \<Rightarrow> string \<Rightarrow> (goerr + ipfsDir) go" where
  "openFolder E cid = ext (\<lambda>h. eFolder E h cid) (EvFolder cid)"

definition ctxDone :: "env \<Rightarrow> err go" where
  "ctxDone E = ext (eCtxDone E) EvCtxDone"

definition findProcess :: "env \<Rightarrow> int \<Rightarrow> (goerr + bool) go" where
  "findProcess E pid = ext (\<lambda>h. eFindProcess E h pid) (EvFindProcess pid)"

definition sleep :: "nat \<Rightarrow> unit go" where
  "sleep n = emit (EvSleep n)"

definition scanln :: "env \<Rightarrow> string go" where
  "scanln E = ext (eScan E) EvScan"

text \<open>\<open>GetStorageLatest(key, &v)\<close> decodes into a variable of the caller's type:
  one operation per type, all recorded as the same kind of event.\<close>

definition getStorage ::
    "(history \<Rightarrow> string \<Rightarrow> string \<Rightarrow> goerr + 'v option) \<Rightarrow> ('v \<Rightarrow> storageVal) \<Rightarrow>
     string \<Rightarrow> string \<Rightarrow> (goerr + 'v option) go" where
  "getStorage f wrap api key = ext (\<lambda>h. f h api key)
     (\<lambda>r. EvStorage api key (case r of Inl e \<Rightarrow> Inl e | Inr v \<Rightarrow> Inr (map_option wrap v)))"

lemmas effects = emit_def println_def NewClientWithOpts_def ContainerList_def
  ContainerCreate_def ContainerInspect_def ContainerStart_def ContainerStop_def
  ContainerRemove_def VolumeList_def VolumeCreate_def VolumeRemove_def httpDo_def
  osStat_def osReadFile_def osWriteFile_def osMkdirAll_def osRemoveAll_def osChmod_def setupLogging_def
  findProcess_def sleep_def scanln_def getStorage_def osCreate_def osRename_def osOpen_def
  ImagePull_def copyPull_def ImageLoad_def net_def getFile_def openFolder_def ctxDone_def
  bootstrap_def

lemma run_ext [run]:
  "ext f mk s = (Ret (f (trace s)), s\<lparr>trace := mk (f (trace s)) # trace s\<rparr>)"
  by (simp add: ext_def)

end
