(* ===== verification/Logic.thy ===== *)
theory Logic
  imports World
begin

text \<open>
  How properties of programs are proved: bounds on the events a program may add
  (\<open>emits\<close>), parts of the state it leaves alone (\<open>keeps\<close>), total-outcome triples
  (\<open>valid\<close>), and the ordering of events (\<open>onlyAfter\<close>: an event of one kind
  happens only once the earlier events of the same run give the evidence for it).
\<close>

section \<open>Events of a run\<close>

definition newEvents :: "'a go \<Rightarrow> st \<Rightarrow> history" where
  "newEvents m s = take (length (trace (snd (m s))) - length (trace s)) (trace (snd (m s)))"

definition emits :: "(event \<Rightarrow> bool) \<Rightarrow> 'a go \<Rightarrow> bool" where
  "emits A m \<longleftrightarrow> (\<forall>s. \<exists>new. trace (snd (m s)) = new @ trace s \<and> (\<forall>e \<in> set new. A e))"

lemma emitsD:
  assumes "emits A m"
  obtains new where "trace (snd (m s)) = new @ trace s" and "\<forall>e \<in> set new. A e"
  using assms unfolding emits_def by blast

lemma newEvents_eq: "trace (snd (m s)) = new @ trace s \<Longrightarrow> newEvents m s = new"
  by (simp add: newEvents_def)

lemma emits_newEvents: "emits A m \<Longrightarrow> e \<in> set (newEvents m s) \<Longrightarrow> A e"
  by (metis emits_def newEvents_eq)

lemma emits_trace: "emits A m \<Longrightarrow> trace (snd (m s)) = newEvents m s @ trace s"
  by (metis emits_def newEvents_eq)

lemma emits_mono: "emits A m \<Longrightarrow> (\<And>e. A e \<Longrightarrow> B e) \<Longrightarrow> emits B m"
  unfolding emits_def by blast

lemma emits_ret [emits_intro]: "emits A (ret x)"
  and emits_exitWith [emits_intro]: "emits A (exitWith c)"
  and emits_panic [emits_intro]: "emits A panic"
  and emits_noFuel [emits_intro]: "emits A noFuel"
  and emits_reads [emits_intro]: "emits A (reads f)"
  by (simp_all add: emits_def run)

lemma emits_modify [emits_intro]: "(\<And>s. trace (g s) = trace s) \<Longrightarrow> emits A (modify g)"
  by (simp add: emits_def run)

lemma emits_ext [emits_intro]: "(\<And>r. A (mk r)) \<Longrightarrow> emits A (ext f mk)"
  by (simp add: emits_def run)

lemma emits_emit [emits_intro]: "A e \<Longrightarrow> emits A (emit e)"
  unfolding emit_def by (rule emits_ext)

lemma emits_bnd [emits_intro]:
  assumes m: "emits A m" and f: "\<And>x. emits A (f x)"
  shows "emits A (bnd m f)"
  unfolding emits_def
proof
  fix s
  obtain o1 u where mu: "m s = (o1, u)" by fastforce
  obtain n1 where n1: "trace u = n1 @ trace s" "\<forall>e \<in> set n1. A e"
    using emitsD [OF m, of s] mu by auto
  show "\<exists>new. trace (snd (bnd m f s)) = new @ trace s \<and> (\<forall>e \<in> set new. A e)"
  proof (cases o1)
    case (Ret x)
    obtain n2 where "trace (snd (f x u)) = n2 @ trace u" "\<forall>e \<in> set n2. A e"
      using emitsD [OF f, of x u] by auto
    then show ?thesis using Ret mu n1
      by (intro exI [of _ "n2 @ n1"]) (auto simp: run)
  qed (use mu n1 in \<open>auto simp: run\<close>)
qed

lemma emits_andThen [emits_intro]: "emits A m \<Longrightarrow> emits A k \<Longrightarrow> emits A (andThen m k)"
  unfolding andThen_def by (intro emits_intro)

lemma emits_case_sum [emits_intro]:
  "(\<And>e. emits A (f e)) \<Longrightarrow> (\<And>x. emits A (g x)) \<Longrightarrow> emits A (case r of Inl e \<Rightarrow> f e | Inr x \<Rightarrow> g x)"
  by (cases r) auto

lemma emits_case_option [emits_intro]:
  "emits A n \<Longrightarrow> (\<And>x. emits A (g x)) \<Longrightarrow> emits A (case r of None \<Rightarrow> n | Some x \<Rightarrow> g x)"
  by (cases r) auto

lemma emits_case_prod [emits_intro]:
  "(\<And>a b. emits A (f a b)) \<Longrightarrow> emits A (case p of (a, b) \<Rightarrow> f a b)"
  by (cases p) auto

lemma emits_case_stat [emits_intro]:
  "emits A x \<Longrightarrow> (\<And>e. emits A (f e)) \<Longrightarrow> (\<And>e. emits A (g e)) \<Longrightarrow>
   emits A (case r of StatOk \<Rightarrow> x | StatNotExist e \<Rightarrow> f e | StatErr e \<Rightarrow> g e)"
  by (cases r) auto

lemma emits_case_http [emits_intro]:
  "(\<And>e. emits A (f e)) \<Longrightarrow> (\<And>a b c. emits A (g a b c)) \<Longrightarrow>
   emits A (case r of HttpFail e \<Rightarrow> f e | HttpResp a b c \<Rightarrow> g a b c)"
  by (cases r) auto

lemma emits_if [emits_intro]:
  "(b \<Longrightarrow> emits A m) \<Longrightarrow> (\<not> b \<Longrightarrow> emits A k) \<Longrightarrow> emits A (if b then m else k)"
  by auto

lemma emits_Let [emits_intro]: "(\<And>x. emits A (f x)) \<Longrightarrow> emits A (Let x f)"
  by (simp add: Let_def)

lemma emits_tryE [emits_intro]: "emits A m \<Longrightarrow> (\<And>x. emits A (f x)) \<Longrightarrow> emits A (tryE m f)"
  unfolding tryE_def by (intro emits_intro)

lemma emits_checkE [emits_intro]: "emits A m \<Longrightarrow> emits A k \<Longrightarrow> emits A (checkE m k)"
  unfolding checkE_def by (intro emits_intro)

section \<open>Parts of the state a program keeps\<close>

definition keeps :: "(st \<Rightarrow> 'b) \<Rightarrow> 'a go \<Rightarrow> bool" where
  "keeps g m \<longleftrightarrow> (\<forall>s. g (snd (m s)) = g s)"

lemma keepsD: "keeps g m \<Longrightarrow> g (snd (m s)) = g s"
  by (simp add: keeps_def)

lemma keeps_ret [emits_intro]: "keeps g (ret x)"
  and keeps_exitWith [emits_intro]: "keeps g (exitWith c)"
  and keeps_panic [emits_intro]: "keeps g panic"
  and keeps_noFuel [emits_intro]: "keeps g noFuel"
  and keeps_reads [emits_intro]: "keeps g (reads f)"
  by (simp_all add: keeps_def run)

lemma keeps_modify [emits_intro]: "(\<And>s. g (f s) = g s) \<Longrightarrow> keeps g (modify f)"
  by (simp add: keeps_def run)

lemma keeps_ext [emits_intro]: "(\<And>s h. g (s\<lparr>trace := h\<rparr>) = g s) \<Longrightarrow> keeps g (ext f mk)"
  by (simp add: keeps_def run)

lemma keeps_emit [emits_intro]: "(\<And>s h. g (s\<lparr>trace := h\<rparr>) = g s) \<Longrightarrow> keeps g (emit e)"
  unfolding emit_def by (rule keeps_ext)

lemma keeps_bnd [emits_intro]: "keeps g m \<Longrightarrow> (\<And>x. keeps g (f x)) \<Longrightarrow> keeps g (bnd m f)"
  unfolding keeps_def by (auto simp: run split: outcome.split)

lemma keeps_andThen [emits_intro]: "keeps g m \<Longrightarrow> keeps g k \<Longrightarrow> keeps g (andThen m k)"
  unfolding andThen_def by (intro emits_intro)

lemma keeps_case_sum [emits_intro]:
  "(\<And>e. keeps p (f e)) \<Longrightarrow> (\<And>x. keeps p (g x)) \<Longrightarrow> keeps p (case r of Inl e \<Rightarrow> f e | Inr x \<Rightarrow> g x)"
  by (cases r) auto

lemma keeps_case_option [emits_intro]:
  "keeps p n \<Longrightarrow> (\<And>x. keeps p (g x)) \<Longrightarrow> keeps p (case r of None \<Rightarrow> n | Some x \<Rightarrow> g x)"
  by (cases r) auto

lemma keeps_case_prod [emits_intro]:
  "(\<And>a b. keeps p (f a b)) \<Longrightarrow> keeps p (case q of (a, b) \<Rightarrow> f a b)"
  by (cases q) auto

lemma keeps_case_stat [emits_intro]:
  "keeps p x \<Longrightarrow> (\<And>e. keeps p (f e)) \<Longrightarrow> (\<And>e. keeps p (g e)) \<Longrightarrow>
   keeps p (case r of StatOk \<Rightarrow> x | StatNotExist e \<Rightarrow> f e | StatErr e \<Rightarrow> g e)"
  by (cases r) auto

lemma keeps_case_http [emits_intro]:
  "(\<And>e. keeps p (f e)) \<Longrightarrow> (\<And>a b c. keeps p (g a b c)) \<Longrightarrow>
   keeps p (case r of HttpFail e \<Rightarrow> f e | HttpResp a b c \<Rightarrow> g a b c)"
  by (cases r) auto

lemma keeps_if [emits_intro]:
  "keeps p m \<Longrightarrow> keeps p k \<Longrightarrow> keeps p (if b then m else k)"
  by auto

lemma keeps_Let [emits_intro]: "(\<And>x. keeps p (f x)) \<Longrightarrow> keeps p (Let x f)"
  by (simp add: Let_def)

lemma keeps_tryE [emits_intro]: "keeps p m \<Longrightarrow> (\<And>x. keeps p (f x)) \<Longrightarrow> keeps p (tryE m f)"
  unfolding tryE_def by (intro emits_intro)

lemma keeps_checkE [emits_intro]: "keeps p m \<Longrightarrow> keeps p k \<Longrightarrow> keeps p (checkE m k)"
  unfolding checkE_def by (intro emits_intro)

section \<open>Triples\<close>

text \<open>\<open>valid P m Q I\<close>: from a state with \<open>P\<close>, a run of \<open>m\<close> either returns a
  value for which \<open>Q\<close> holds, or stops the process (or runs out of fuel) in a state
  with \<open>I\<close>.\<close>

fun post :: "('a \<Rightarrow> st \<Rightarrow> bool) \<Rightarrow> (st \<Rightarrow> bool) \<Rightarrow> 'a outcome \<times> st \<Rightarrow> bool" where
  "post Q I (Ret x, s) = Q x s"
| "post Q I (Exit c, s) = I s"
| "post Q I (Panic, s) = I s"
| "post Q I (NoFuel, s) = I s"

definition valid :: "(st \<Rightarrow> bool) \<Rightarrow> 'a go \<Rightarrow> ('a \<Rightarrow> st \<Rightarrow> bool) \<Rightarrow> (st \<Rightarrow> bool) \<Rightarrow> bool" where
  "valid P m Q I \<longleftrightarrow> (\<forall>s. P s \<longrightarrow> post Q I (m s))"

lemma post_mono:
  "post Q' I' r \<Longrightarrow> (\<And>x s. Q' x s \<Longrightarrow> Q x s) \<Longrightarrow> (\<And>s. I' s \<Longrightarrow> I s) \<Longrightarrow> post Q I r"
  by (cases r; cases "fst r") auto

lemma post_same: "post (\<lambda>_. I) I r \<longleftrightarrow> I (snd r)"
  by (cases r; cases "fst r") auto

lemma post_bnd: "post Q I (bnd m f s) = post (\<lambda>x t. post Q I (f x t)) I (m s)"
  by (simp add: bnd_def split: prod.split outcome.split)

lemma validD: "valid P m Q I \<Longrightarrow> P s \<Longrightarrow> post Q I (m s)"
  by (simp add: valid_def)

lemma validD_Ret: "valid P m Q I \<Longrightarrow> P s \<Longrightarrow> m s = (Ret x, t) \<Longrightarrow> Q x t"
  by (drule (1) validD) simp

lemma valid_all: "valid P m (\<lambda>_. I) I \<Longrightarrow> P s \<Longrightarrow> I (snd (m s))"
  by (drule (1) validD) (simp add: post_same)

lemma valid_pre: "valid P' m Q I \<Longrightarrow> (\<And>s. P s \<Longrightarrow> P' s) \<Longrightarrow> valid P m Q I"
  unfolding valid_def by blast

lemma valid_post:
  "valid P m Q' I' \<Longrightarrow> (\<And>x s. Q' x s \<Longrightarrow> Q x s) \<Longrightarrow> (\<And>s. I' s \<Longrightarrow> I s) \<Longrightarrow> valid P m Q I"
  unfolding valid_def by (blast intro: post_mono)

lemma valid_ret: "(\<And>s. P s \<Longrightarrow> Q x s) \<Longrightarrow> valid P (ret x) Q I"
  by (simp add: valid_def run)

lemma valid_exitWith: "(\<And>s. P s \<Longrightarrow> I s) \<Longrightarrow> valid P (exitWith c) Q I"
  and valid_panic: "(\<And>s. P s \<Longrightarrow> I s) \<Longrightarrow> valid P panic Q I"
  and valid_noFuel: "(\<And>s. P s \<Longrightarrow> I s) \<Longrightarrow> valid P noFuel Q I"
  by (simp_all add: valid_def run)

lemma valid_reads: "(\<And>s. P s \<Longrightarrow> Q (f s) s) \<Longrightarrow> valid P (reads f) Q I"
  by (simp add: valid_def run)

lemma valid_modify: "(\<And>s. P s \<Longrightarrow> Q () (f s)) \<Longrightarrow> valid P (modify f) Q I"
  by (simp add: valid_def run)

lemma valid_ext:
  "(\<And>s. P s \<Longrightarrow> Q (f (trace s)) (s\<lparr>trace := mk (f (trace s)) # trace s\<rparr>)) \<Longrightarrow> valid P (ext f mk) Q I"
  by (simp add: valid_def run)

lemma valid_bnd:
  assumes m: "valid P m M I" and f: "\<And>x. valid (M x) (f x) Q I"
  shows "valid P (bnd m f) Q I"
  unfolding valid_def post_bnd
  by (blast intro: post_mono [OF validD [OF m]] validD [OF f])

section \<open>Order of events\<close>

fun onlyAfter :: "(event \<Rightarrow> bool) \<Rightarrow> (history \<Rightarrow> bool) \<Rightarrow> history \<Rightarrow> bool" where
  "onlyAfter D R [] = True"
| "onlyAfter D R (e # h) = ((D e \<longrightarrow> R h) \<and> onlyAfter D R h)"

lemma onlyAfter_iff:
  "onlyAfter D R h \<longleftrightarrow> (\<forall>later e earlier. h = later @ e # earlier \<longrightarrow> D e \<longrightarrow> R earlier)"
proof (induction h)
  case Nil
  then show ?case by simp
next
  case (Cons a h)
  show ?case
  proof
    assume A: "onlyAfter D R (a # h)"
    show "\<forall>later e earlier. a # h = later @ e # earlier \<longrightarrow> D e \<longrightarrow> R earlier"
    proof (intro allI impI)
      fix later e earlier assume "a # h = later @ e # earlier" "D e"
      then show "R earlier" using A Cons by (cases later) auto
    qed
  next
    assume B: "\<forall>later e earlier. a # h = later @ e # earlier \<longrightarrow> D e \<longrightarrow> R earlier"
    then have "\<forall>later e earlier. h = later @ e # earlier \<longrightarrow> D e \<longrightarrow> R earlier"
      by (metis append_Cons)
    moreover have "D a \<longrightarrow> R h" using B by (metis append_Nil)
    ultimately show "onlyAfter D R (a # h)" using Cons by simp
  qed
qed

definition growing :: "(history \<Rightarrow> bool) \<Rightarrow> bool" where
  "growing R \<longleftrightarrow> (\<forall>e h. R h \<longrightarrow> R (e # h))"

lemma growing_append: "growing R \<Longrightarrow> R h \<Longrightarrow> R (new @ h)"
  by (induction new) (auto simp: growing_def)

lemma growing_seen: "growing (\<lambda>h. \<exists>e \<in> set h. A e)"
  by (simp add: growing_def)

lemma onlyAfter_quiet: "onlyAfter D R h \<Longrightarrow> \<forall>e \<in> set new. \<not> D e \<Longrightarrow> onlyAfter D R (new @ h)"
  by (induction new) auto

lemma onlyAfter_allowed: "growing R \<Longrightarrow> R h \<Longrightarrow> onlyAfter D R h \<Longrightarrow> onlyAfter D R (new @ h)"
  by (induction new) (auto intro: growing_append)

text \<open>\<open>since h0 K s\<close>: the events added to \<open>h0\<close> so far satisfy \<open>K\<close>.\<close>

definition since :: "history \<Rightarrow> (history \<Rightarrow> bool) \<Rightarrow> st \<Rightarrow> bool" where
  "since h0 K s \<longleftrightarrow> (\<exists>new. trace s = new @ h0 \<and> K new)"

lemma since_start: "K [] \<Longrightarrow> since (trace s) K s"
  by (simp add: since_def)

lemma since_mono: "since h0 K s \<Longrightarrow> (\<And>new. K new \<Longrightarrow> L new) \<Longrightarrow> since h0 L s"
  unfolding since_def by blast

lemma since_newEvents: "since (trace s) K (snd (m s)) \<Longrightarrow> K (newEvents m s)"
  unfolding since_def by (auto simp: newEvents_eq)

text \<open>What a program with known events does to a property of the events so far, and the
  two ways an ordering survives: the program adds no event of the guarded kind, or the
  evidence is there already.\<close>

lemma valid_emits:
  assumes "emits A m"
    and "\<And>new h. K h \<Longrightarrow> \<forall>e \<in> set new. A e \<Longrightarrow> L (new @ h)"
  shows "valid (since h0 K) m (\<lambda>_. since h0 L) (since h0 L)"
  unfolding valid_def
proof (intro allI impI)
  fix s assume "since h0 K s"
  then obtain h where h: "trace s = h @ h0" "K h" by (auto simp: since_def)
  obtain new where "trace (snd (m s)) = new @ trace s" "\<forall>e \<in> set new. A e"
    using assms(1) by (rule emitsD)
  then have "since h0 L (snd (m s))"
    using assms(2) [OF h(2)] h(1) unfolding since_def by auto
  then show "post (\<lambda>_. since h0 L) (since h0 L) (m s)"
    by (simp add: post_same)
qed

lemma valid_quiet:
  assumes "emits A m" and "\<And>e. A e \<Longrightarrow> \<not> D e" and "growing R'"
  shows "valid (since h0 (\<lambda>h. onlyAfter D R h \<and> R' h)) m
    (\<lambda>_. since h0 (\<lambda>h. onlyAfter D R h \<and> R' h)) (since h0 (\<lambda>h. onlyAfter D R h \<and> R' h))"
  using assms by (intro valid_emits) (auto intro: onlyAfter_quiet growing_append)

lemma valid_allowed:
  assumes "emits A m" and "growing R"
  shows "valid (since h0 (\<lambda>h. onlyAfter D R h \<and> R h)) m
    (\<lambda>_. since h0 (onlyAfter D R)) (since h0 (onlyAfter D R))"
  using assms by (intro valid_emits) (auto intro: onlyAfter_allowed)

end
