(* ===== verification/Docker.thy ===== *)
theory Docker
  imports Logic
begin

text \<open>
  The container and volume helpers of util/util.go: creating a volume, starting a
  container (creating it when no container of the wanted image has the name, replacing a
  container that holds the name when the caller allows it), stopping, removing, and
  removing a volume. Each function follows the source branch by branch. The Docker
  client's calls are operations of the environment; \<open>cli.Close\<close> and the progress
  lines are not modelled.
\<close>

section \<open>Names and listings\<close>

definition named :: "string \<Rightarrow> containerInfo \<Rightarrow> bool" where
  "named n c = (CHR ''/'' # n \<in> set (c_Names c))"

text \<open>The loops over a listing: the ID of the last container that has the name
  (empty when there is none), and of the last one that has the image as well.\<close>

definition idByName :: "string \<Rightarrow> containerInfo list \<Rightarrow> string" where
  "idByName n cs = (case lastMatch (named n) cs of None \<Rightarrow> [] | Some c \<Rightarrow> c_ID c)"

definition findCreated :: "string \<Rightarrow> string \<Rightarrow> containerInfo list \<Rightarrow> string option" where
  "findCreated img n cs =
     map_option c_ID (lastMatch (\<lambda>c. img = c_Image c \<and> named n c) cs)"

definition conflictMsg :: "string \<Rightarrow> string" where
  "conflictMsg n = ''Conflict. The container name \"/'' @ n @ ''\" is already in use by container''"

section \<open>Volumes\<close>

text \<open>\<open>log.Fatalf\<close> leaves the process, so the error result is always \<open>nil\<close>.
  The volume itself is not used by any caller.\<close>

definition CreateVolume :: "env \<Rightarrow> string \<Rightarrow> err go" where
  "CreateVolume E volumeName =
     bnd (NewClientWithOpts E) (\<lambda>e. case e of
       Some _ \<Rightarrow> exitWith 1
     | None \<Rightarrow> bnd (VolumeList E) (\<lambda>r. case r of
         Inl _ \<Rightarrow> exitWith 1
       | Inr vs \<Rightarrow>
           if volumeName \<in> set vs then ret None
           else bnd (VolumeCreate E volumeName) (\<lambda>ce. case ce of
              Some _ \<Rightarrow> exitWith 1
            | None \<Rightarrow> ret None)))"

definition RemoveVolume :: "env \<Rightarrow> string \<Rightarrow> err go" where
  "RemoveVolume E volumeName =
     checkE (NewClientWithOpts E)
    (tryE (VolumeList E) (\<lambda>vs.
       let volumeId = (if volumeName \<in> set vs then volumeName else [])
       in if volumeId \<noteq> []
          then checkE (VolumeRemove E volumeId) (ret None)
          else ret None))"

section \<open>Containers\<close>

text \<open>The part of \<open>StartContainer\<close> that creates the container: the ID of the new
  container, or the error the function returns.\<close>

definition createContainer ::
    "env \<Rightarrow> string \<Rightarrow> bool \<Rightarrow> containerConfig \<Rightarrow> hostConfigSpec \<Rightarrow> (goerr + string) go" where
  "createContainer E containerName removeOldFlag config hostConfig =
     bnd (ContainerCreate E config hostConfig containerName) (\<lambda>resp. case resp of
       Inr i \<Rightarrow> ret (Inr i)
     | Inl cerr \<Rightarrow>
         if contains (errMsg cerr) (conflictMsg containerName) \<and> removeOldFlag
         then bnd (ContainerStop E containerName None) (\<lambda>se. case se of
             Some e \<Rightarrow> ret (Inl e)
           | None \<Rightarrow> bnd (ContainerRemove E containerName) (\<lambda>re. case re of
               Some e \<Rightarrow> ret (Inl e)
             | None \<Rightarrow> ContainerCreate E config hostConfig containerName))
         else ret (Inl cerr))"

text \<open>The end of \<open>StartContainer\<close>: start the container unless it runs.\<close>

definition ensureStarted :: "env \<Rightarrow> string \<Rightarrow> err go" where
  "ensureStarted E containerId =
     tryE (ContainerInspect E containerId) (\<lambda>execResp.
       if \<not> Running execResp
       then checkE (ContainerStart E containerId) (ret None)
       else ret None)"

definition StartContainer ::
    "env \<Rightarrow> string \<Rightarrow> bool \<Rightarrow> containerConfig \<Rightarrow> hostConfigSpec \<Rightarrow> err go" where
  "StartContainer E containerName removeOldFlag config hostConfig =
     checkE (NewClientWithOpts E)
    (tryE (ContainerList E True) (\<lambda>containers.
       case findCreated (Image config) containerName containers of
         Some containerId \<Rightarrow> ensureStarted E containerId
       | None \<Rightarrow>
           tryE (createContainer E containerName removeOldFlag config hostConfig)
                (ensureStarted E)))"

definition StopContainer :: "env \<Rightarrow> string \<Rightarrow> int \<Rightarrow> err go" where
  "StopContainer E containerName waitTimeout =
     checkE (NewClientWithOpts E)
    (tryE (ContainerList E False) (\<lambda>containers.
       let containerId = idByName containerName containers
       in if containerId \<noteq> []
          then checkE (ContainerStop E containerId (Some waitTimeout)) (ret None)
          else ret None))"

definition RemoveContainer :: "env \<Rightarrow> string \<Rightarrow> err go" where
  "RemoveContainer E containerName =
     checkE (NewClientWithOpts E)
    (tryE (ContainerList E True) (\<lambda>containers.
       let containerId = idByName containerName containers
       in if containerId \<noteq> []
          then tryE (ContainerInspect E containerId) (\<lambda>execResp.
                 checkE (if Running execResp then ContainerStop E containerId None
                         else ret None)
                (checkE (ContainerRemove E containerId) (ret None)))
          else ret None))"

section \<open>What the helpers may do to the daemon\<close>

text \<open>
  A component of the manager is used through a contract: which events it may cause, and
  that it leaves the configuration and the connection to the chain alone. The clients
  (the service commands and the upgrade) rest on the facts proved here once.
\<close>

locale component =
  fixes op1 :: "'a go" and A :: "event \<Rightarrow> bool"
  assumes events: "emits A op1"
    and config: "keeps RunningConfig op1"
begin

lemma weaken: "(\<And>e. A e \<Longrightarrow> B e) \<Longrightarrow> emits B op1"
  by (rule emits_mono [OF events])

lemma only: "e \<in> set (newEvents op1 s) \<Longrightarrow> A e"
  by (rule emits_newEvents [OF events])

lemma config_same: "RunningConfig (snd (op1 s)) = RunningConfig s"
  by (rule keepsD [OF config])

lemma never: "(\<And>e. A e \<Longrightarrow> \<not> D e) \<Longrightarrow> \<not> (\<exists>e \<in> set (newEvents op1 s). D e)"
  using only by blast

lemma order_kept:
  assumes "\<And>e. A e \<Longrightarrow> \<not> D e" and "growing R'"
  shows "valid (since h0 (\<lambda>h. onlyAfter D R h \<and> R' h)) op1
    (\<lambda>_. since h0 (\<lambda>h. onlyAfter D R h \<and> R' h)) (since h0 (\<lambda>h. onlyAfter D R h \<and> R' h))"
  by (rule valid_quiet [OF events assms])

end

text \<open>A start may stop and remove only by the name it is given, and only when it may
  replace an old container.\<close>

fun startEvent :: "bool \<Rightarrow> string \<Rightarrow> event \<Rightarrow> bool" where
  "startEvent b n (EvClient _) = True"
| "startEvent b n (EvList all _) = all"
| "startEvent b n (EvCreate _ _ m _) = (m = n)"
| "startEvent b n (EvInspect _ _) = True"
| "startEvent b n (EvStart _ _) = True"
| "startEvent b n (EvStop m t _) = (b \<and> m = n \<and> t = None)"
| "startEvent b n (EvRemove m _) = (b \<and> m = n)"
| "startEvent b n _ = False"

fun stopEvent :: "int \<Rightarrow> event \<Rightarrow> bool" where
  "stopEvent w (EvClient _) = True"
| "stopEvent w (EvList all _) = (\<not> all)"
| "stopEvent w (EvStop _ t _) = (t = Some w)"
| "stopEvent w _ = False"

fun removeEvent :: "event \<Rightarrow> bool" where
  "removeEvent (EvClient _) = True"
| "removeEvent (EvList all _) = all"
| "removeEvent (EvInspect _ _) = True"
| "removeEvent (EvStop _ t _) = (t = None)"
| "removeEvent (EvRemove _ _) = True"
| "removeEvent _ = False"

fun volumeEvent :: "event \<Rightarrow> bool" where
  "volumeEvent (EvClient _) = True"
| "volumeEvent (EvVolList _) = True"
| "volumeEvent (EvVolCreate _ _) = True"
| "volumeEvent (EvVolRemove _ _) = True"
| "volumeEvent _ = False"

lemmas docker_defs = CreateVolume_def RemoveVolume_def createContainer_def ensureStarted_def
  StartContainer_def StopContainer_def RemoveContainer_def effects

interpretation createVolume: component "CreateVolume E v" volumeEvent for E v
  by unfold_locales (unfold docker_defs, (intro emits_intro; simp)+)

interpretation removeVolume: component "RemoveVolume E v" volumeEvent for E v
  by unfold_locales (unfold docker_defs, (intro emits_intro; simp)+)

interpretation startContainer: component "StartContainer E n b c h" "startEvent b n" for E n b c h
  by unfold_locales (unfold docker_defs, (intro emits_intro; simp)+)

interpretation stopContainer: component "StopContainer E n w" "stopEvent w" for E n w
  by unfold_locales (unfold docker_defs, (intro emits_intro; simp)+)

interpretation removeContainer: component "RemoveContainer E n" removeEvent for E n
  by unfold_locales (unfold docker_defs, (intro emits_intro; simp)+)

end
