(* ===== verification/Sample.thy ===== *)
theory Sample
  imports Docker
begin

text \<open>
  Sample environments for the witnesses: \<open>nullEnv\<close>, a machine on which nothing is
  installed and every peer is silent, from which a witness sets the operations it needs.
  These environments model no code of the repository.
\<close>

definition nope :: goerr where
  "nope = GoErr ''unavailable''"

definition nullEnv :: env where
  "nullEnv = \<lparr>
     eClient = (\<lambda>_. None),
     eList = (\<lambda>_ _. Inr []),
     eCreate = (\<lambda>_ _ _ _. Inl nope),
     eInspect = (\<lambda>_ _. Inl nope),
     eStart = (\<lambda>_ _. None),
     eStop = (\<lambda>_ _ _. None),
     eRemove = (\<lambda>_ _. None),
     eVolList = (\<lambda>_. Inr []),
     eVolCreate = (\<lambda>_ _. None),
     eVolRemove = (\<lambda>_ _. None),
     ePull = (\<lambda>_ _. None),
     ePullRead = (\<lambda>_. None),
     eLoad = (\<lambda>_ _. None),
     eLogs = (\<lambda>_ _ _. None),
     eLogCopy = (\<lambda>_. None),
     eNewRequest = (\<lambda>_. None),
     eHttp = (\<lambda>_ _ _. HttpFail nope),
     eStat = (\<lambda>_ _. StatNotExist nope),
     eReadFile = (\<lambda>_ _. Inl nope),
     eWriteFile = (\<lambda>_ _ _. None),
     eMkdirAll = (\<lambda>_ _. None),
     eRemoveAll = (\<lambda>_ _. None),
     eChmod = (\<lambda>_ _. None),
     eSetupLog = (\<lambda>_ _. True),
     eCreateFile = (\<lambda>_ _. None),
     eRename = (\<lambda>_ _ _. None),
     eOpen = (\<lambda>_ _. None),
     eFindProcess = (\<lambda>_ _. Inr False),
     eOutput = (\<lambda>_ _. Inl nope),
     eArgs = [''dc''],
     eGetpid = 4242,
     eGetppid = 1,
     eSelect = (\<lambda>_. True),
     eRand = (\<lambda>_ _. 0),
     eNow = (\<lambda>_. 0),
     eScan = (\<lambda>_. []),
     eDial = (\<lambda>_ _. Inl nope),
     eMetadata = (\<lambda>_ _. Inl nope),
     eHealth = (\<lambda>_ _. Inl nope),
     eStorageKey = (\<lambda>_ _ item args. Inr (item @ concat args)),
     eEncode = (\<lambda>x. x),
     eProgram = (\<lambda>_ _ _. Inl nope),
     eFile = (\<lambda>_ _ _. Inl nope),
     ePeer = (\<lambda>_ _ _. Inl nope),
     eTrusted = (\<lambda>_ _ _. Inl nope),
     eEnclaves = (\<lambda>_ _ _. Inl nope),
     eCount = (\<lambda>_ _ _. Inl nope),
     eNet = (\<lambda>_ _. None),
     eGetFile = (\<lambda>_ _. Inl nope),
     eBootstrap = (\<lambda>_ _. None),
     eFolder = (\<lambda>_ _. Inl nope),
     eSchedule = (\<lambda>_. []),
     eCtxDone = (\<lambda>_. None),
     eSymKey = (\<lambda>_. Inl nope),
     eHex = (\<lambda>x. x),
     eJsonErr = (\<lambda>_. nope),
     eAddrInfo = (\<lambda>_. Inl nope),
     eMbase = (\<lambda>x. Inr x),
     ePubKey = (\<lambda>x. Inr x),
     eVerify = (\<lambda>_ _ _. Inr False),
     eNewVersion = (\<lambda>x. Inr (GoVer x)),
     eLessThan = (\<lambda>_ _. False),
     eYamlEmit = (\<lambda>_. Inl nope),
     eYamlParse = (\<lambda>_. Inl nope),
     eYamlConv = \<lparr>toStr = (\<lambda>_. None), toInt = (\<lambda>_. None), toSeq = (\<lambda>_. None), toMap = (\<lambda>_. None)\<rparr>,
     eSGX1 = False,
     eSGX2 = False,
     eEPCSections = []\<rparr>"

lemmas sample = nullEnv_def nope_def

text \<open>A file format that keeps one member of the document only.\<close>

definition memberText :: "string \<Rightarrow> yaml \<Rightarrow> string" where
  "memberText key d = (case d of YMap kvs \<Rightarrow> (case map_of kvs key of Some (YStr x) \<Rightarrow> x | _ \<Rightarrow> []) | _ \<Rightarrow> [])"

lemma memberText_config [simp]:
  "memberText ''nodeImage'' (configYaml c) = NodeImage c"
  "memberText ''validatorFlag'' (configYaml c) = ValidatorFlag c"
  by (simp_all add: memberText_def configYaml_def)

text \<open>A program run by the witnesses is evaluated by these equations, which run the first
  part of a sequence once.\<close>

lemmas runs = run_ret run_exitWith run_panic run_noFuel run_reads run_modify run_ext run_bnd_once
  checkE_def tryE_def andThen_def effects Let_def

definition someCfg :: containerConfig where
  "someCfg = \<lparr>Image = ''img:2'', Entrypoint = [], Env = []\<rparr>"

definition someHost :: hostConfigSpec where
  "someHost = \<lparr>RestartPolicy = ''always'', Mounts = [], NetworkMode = ''host'', Devices = [],
     LogConfig = None\<rparr>"

end
