(* ===== verification/Util.thy ===== *)
theory Util
  imports Docker Sample
begin

text \<open>
  The rest of package util that the commands use: the three HTTP helpers, the SGX and
  EPC queries, unit conversion, random strings, memory statistics and random keys
  (util/util.go), and the progress reports of a transfer (util/litepeer.go, util/download.go). Sizes keep Go's 64 bits.
\<close>

section \<open>HTTP\<close>

text \<open>What all three helpers make of a response.\<close>

definition httpResult :: "string \<Rightarrow> httpReply \<Rightarrow> goerr + string" where
  "httpResult verb r = (case r of
     HttpFail e \<Rightarrow> Inl e
   | HttpResp status body rerr \<Rightarrow>
       if status \<noteq> 200
       then Inl (GoErr (''http '' @ verb @ '' err status,statuscode: '' @ itoa status
              @ '',errmsg: '' @ body))
       else (case rerr of
           Some e \<Rightarrow> Inl e
         | None \<Rightarrow> if body = [] then Inl (GoErr ''err occur,no data get'') else Inr body))"

definition withArgs :: "string \<Rightarrow> string list \<Rightarrow> string" where
  "withArgs url args = (if args \<noteq> [] then url @ ''?'' @ join ''&'' args else url)"

definition HttpGet :: "env \<Rightarrow> string \<Rightarrow> string list \<Rightarrow> (goerr + string) go" where
  "HttpGet E url args =
     bnd (httpDo E GET (withArgs url args)) (\<lambda>resp. ret (httpResult ''get'' resp))"

definition HttpGetWithoutCheckCert :: "env \<Rightarrow> string \<Rightarrow> string list \<Rightarrow> (goerr + string) go" where
  "HttpGetWithoutCheckCert E url args =
     (case eNewRequest E (withArgs url args) of
        Some e \<Rightarrow> ret (Inl e)
      | None \<Rightarrow> bnd (httpDo E GET_insecure (withArgs url args))
                   (\<lambda>resp. ret (httpResult ''get'' resp)))"

definition HttpPost :: "env \<Rightarrow> string \<Rightarrow> string \<Rightarrow> (goerr + string) go" where
  "HttpPost E url body =
     bnd (httpDo E (POST body) url) (\<lambda>resp. ret (httpResult ''post'' resp))"

fun httpEvent :: "event \<Rightarrow> bool" where
  "httpEvent (EvHttp _ _ _) = True"
| "httpEvent _ = False"

lemmas http_defs = HttpGet_def HttpGetWithoutCheckCert_def HttpPost_def effects

interpretation httpGet: component "HttpGet E u a" httpEvent for E u a
  by unfold_locales (unfold http_defs, (intro emits_intro; simp)+)

interpretation httpGetInsecure: component "HttpGetWithoutCheckCert E u a" httpEvent for E u a
  by unfold_locales (unfold http_defs, (intro emits_intro; simp)+)

interpretation httpPost: component "HttpPost E u b" httpEvent for E u b
  by unfold_locales (unfold http_defs, (intro emits_intro; simp)+)

lemma httpResult_ok:
  "httpResult v r = Inr b \<longleftrightarrow> b \<noteq> [] \<and> r = HttpResp 200 b None"
  by (auto simp: httpResult_def split: httpReply.splits option.splits if_splits)

lemma run_HttpGet [run]:
  "HttpGet E u a s = (Ret (httpResult ''get'' (eHttp E (trace s) GET (withArgs u a))),
     s\<lparr>trace := EvHttp GET (withArgs u a) (eHttp E (trace s) GET (withArgs u a)) # trace s\<rparr>)"
  by (simp add: HttpGet_def httpDo_def run)

lemma run_HttpPost [run]:
  "HttpPost E u b s = (Ret (httpResult ''post'' (eHttp E (trace s) (POST b) u)),
     s\<lparr>trace := EvHttp (POST b) u (eHttp E (trace s) (POST b) u) # trace s\<rparr>)"
  by (simp add: HttpPost_def httpDo_def run)

lemma httpGet_keeps [emits_intro]: "(\<And>s h. g (s\<lparr>trace := h\<rparr>) = g s) \<Longrightarrow> keeps g (HttpGet E u a)"
  unfolding http_defs by (intro emits_intro)

lemma httpGetInsecure_keeps [emits_intro]:
  "(\<And>s h. g (s\<lparr>trace := h\<rparr>) = g s) \<Longrightarrow> keeps g (HttpGetWithoutCheckCert E u a)"
  unfolding http_defs by (intro emits_intro)

lemma emits_httpGet [emits_intro]: "(\<And>r. A (EvHttp GET (withArgs u a) r)) \<Longrightarrow> emits A (HttpGet E u a)"
  unfolding http_defs by (intro emits_intro)

lemma emits_httpGetInsecure [emits_intro]:
  "(\<And>r. A (EvHttp GET_insecure (withArgs u a) r)) \<Longrightarrow> emits A (HttpGetWithoutCheckCert E u a)"
  unfolding http_defs by (intro emits_intro)

section \<open>The processor\<close>

definition IsSgxSupport :: "env \<Rightarrow> bool" where
  "IsSgxSupport E = (eSGX1 E \<or> eSGX2 E)"

definition IsSgx2Support :: "env \<Rightarrow> bool" where
  "IsSgx2Support E = eSGX2 E"

fun largestSection :: "64 word \<Rightarrow> 64 word list \<Rightarrow> 64 word" where
  "largestSection epcSize [] = epcSize"
| "largestSection epcSize (x # xs) = largestSection (if epcSize < x then x else epcSize) xs"

definition GetEpcSize :: "env \<Rightarrow> 64 word" where
  "GetEpcSize E = largestSection 0 (eEPCSections E) div 1024 div 1024 div 1024 + 1"

definition bToMb :: "64 word \<Rightarrow> 64 word" where
  "bToMb b = b div 1024 div 1024"

lemma largestSection_Max: "largestSection m xs = foldl max m xs"
  by (induction xs arbitrary: m) (auto simp: max_def not_less)

lemma largestSection_ge: "x \<in> set xs \<or> x = m \<Longrightarrow> x \<le> largestSection m xs"
proof (induction xs arbitrary: m x)
  case Nil
  then show ?case by simp
next
  case (Cons y ys)
  let ?m = "if m < y then y else m"
  have m: "?m \<le> largestSection ?m ys" using Cons.IH by blast
  show ?case
  proof (cases "x \<in> set ys")
    case True
    then show ?thesis using Cons.IH by simp
  next
    case False
    then have "x \<le> ?m" using Cons.prems by auto
    then show ?thesis using m by (simp only: largestSection.simps order.trans)
  qed
qed

lemma largestSection_mem: "largestSection m xs = m \<or> largestSection m xs \<in> set xs"
  by (induction xs arbitrary: m) force+

section \<open>Random names\<close>

definition letterBytes :: string where
  "letterBytes = ''abcdefghijklmnopqrstuvwxyzABCDEFGHIJKLMNOPQRSTUVWXYZ''"

definition randIntn :: "env \<Rightarrow> nat \<Rightarrow> nat go" where
  "randIntn E n = ext (\<lambda>h. eRand E h n) (EvRand n)"

text \<open>An index outside the letters would panic, as Go's bounds check does.\<close>

fun RandStringBytes :: "env \<Rightarrow> nat \<Rightarrow> string go" where
  "RandStringBytes E 0 = ret []"
| "RandStringBytes E (Suc n) =
     bnd (randIntn E (length letterBytes)) (\<lambda>i.
       if i < length letterBytes
       then bnd (RandStringBytes E n) (\<lambda>b. ret (letterBytes ! i # b))
       else panic)"

lemma RandStringBytes_keeps [emits_intro]:
  "(\<And>s h. g (s\<lparr>trace := h\<rparr>) = g s) \<Longrightarrow> keeps g (RandStringBytes E n)"
  by (induction n) (auto simp: randIntn_def intro!: emits_intro)

section \<open>Progress of a transfer\<close>

record TransmitObj =
  TotalSize :: "64 word"
  LogFlag :: bool
  preLogTime :: "64 word"

text \<open>The lines a report prints: complete, failed, a percentage (with sizes), a size.\<close>

datatype progress = PrComplete | PrFail | PrPercent "64 word" "64 word" | PrSize "64 word"

definition UpdateTransmitSize ::
    "64 word \<Rightarrow> dealStatus \<Rightarrow> 64 word \<Rightarrow> TransmitObj \<Rightarrow> progress option \<times> TransmitObj" where
  "UpdateTransmitSize currTime status amount tObj =
     (if status = FileDealStatusSuccess then (Some PrComplete, tObj)
      else if status = FileDealStatusFail then (Some PrFail, tObj)
      else if currTime - preLogTime tObj < 2 then (None, tObj)
      else (Some (if TotalSize tObj > 0 then PrPercent amount (TotalSize tObj) else PrSize amount),
            tObj\<lparr>preLogTime := currTime\<rparr>))"

fun reports :: "(64 word \<times> 64 word) list \<Rightarrow> TransmitObj \<Rightarrow> (64 word \<times> progress) list" where
  "reports [] tObj = []"
| "reports ((now, amount) # us) tObj =
     (case UpdateTransmitSize now FileDealStatusTransmit amount tObj of (p, tObj') \<Rightarrow>
        (case p of None \<Rightarrow> [] | Some q \<Rightarrow> [(now, q)]) @ reports us tObj')"

text \<open>The counter of a plain download (util/download.go). \<open>humanize.Bytes\<close> is a
  parameter; the text goes to standard output as it is, each part back to the start of the
  line.\<close>

record WriteCounter =
  Total :: "64 word"

definition carriageReturn :: char where
  "carriageReturn = char_of (13 :: nat)"

definition PrintProgress :: "(64 word \<Rightarrow> string) \<Rightarrow> WriteCounter \<Rightarrow> string" where
  "PrintProgress humanize wc =
     carriageReturn # replicate 50 CHR '' '' @
     carriageReturn # ''Downloading... '' @ humanize (Total wc) @ '' complete''"

definition Write ::
    "(64 word \<Rightarrow> string) \<Rightarrow> WriteCounter \<Rightarrow> string \<Rightarrow> WriteCounter \<times> nat \<times> string" where
  "Write humanize wc p = (let wc' = wc\<lparr>Total := Total wc + of_nat (length p)\<rparr>
     in (wc', length p, PrintProgress humanize wc'))"

text \<open>However a body is cut into writes, the last report shows its size (modulo \<open>2^64\<close>).\<close>

lemma Write_Total: "Total (fold (\<lambda>p wc. fst (Write h wc p)) ps wc) = Total wc + of_nat (length (concat ps))"
  by (induction ps arbitrary: wc) (simp_all add: Write_def Let_def algebra_simps)

section \<open>Memory statistics\<close>

text \<open>The lines for the log, of \<open>runtime.MemStats\<close>.\<close>

record MemStats =
  Alloc :: "64 word"
  TotalAlloc :: "64 word"
  Sys :: "64 word"
  NumGC :: "32 word"

definition tab :: char where
  "tab = char_of (9 :: nat)"

definition PrintMemUsage :: "MemStats \<Rightarrow> string list" where
  "PrintMemUsage m =
     [''Alloc = '' @ itoa (uint (bToMb (Alloc m))) @ '' MiB'',
      tab # ''TotalAlloc = '' @ itoa (uint (bToMb (TotalAlloc m))) @ '' MiB'',
      tab # ''Sys = '' @ itoa (uint (bToMb (Sys m))) @ '' MiB'',
      tab # ''NumGC = '' @ itoa (uint (NumGC m)) @ [char_of (10 :: nat)]]"

lemma uint_bToMb: "uint (bToMb b) = uint b div 1048576"
  unfolding bToMb_def by (simp add: uint_div zdiv_zmult2_eq)

section \<open>A random private key\<close>

text \<open>The libraries for mnemonics and keys are parameters: entropy of so many bits, its
  mnemonic, the seed of a mnemonic and a password (64 bytes, of which the first half is
  used), the key pair of a seed and its form for the network.\<close>

definition GetRandomPrivKey ::
    "(nat \<Rightarrow> goerr + string) \<Rightarrow> (string \<Rightarrow> goerr + string) \<Rightarrow> (string \<Rightarrow> string \<Rightarrow> goerr + string) \<Rightarrow>
     (string \<Rightarrow> string) \<Rightarrow> (string \<Rightarrow> goerr + 'k) \<Rightarrow> goerr + 'k" where
  "GetRandomPrivKey newEntropy newMnemonic seedFromMnemonic newKeyFromSeed unmarshalKey =
     (case newEntropy 256 of Inl err \<Rightarrow> Inl err | Inr entropy \<Rightarrow>
     (case newMnemonic entropy of Inl err \<Rightarrow> Inl err | Inr mnemonic \<Rightarrow>
     (case seedFromMnemonic mnemonic [] of Inl err \<Rightarrow> Inl err | Inr seed \<Rightarrow>
     (case unmarshalKey (newKeyFromSeed (take 32 seed)) of Inl err \<Rightarrow> Inl err | Inr priv \<Rightarrow>
        Inr priv))))"

text \<open>A key is returned exactly when every step succeeds, and depends on nothing else than
  the first half of the seed.\<close>

lemma GetRandomPrivKey_ok:
  "GetRandomPrivKey ent mn sd kp um = Inr k \<longleftrightarrow>
     (\<exists>e m x. ent 256 = Inr e \<and> mn e = Inr m \<and> sd m [] = Inr x \<and> um (kp (take 32 x)) = Inr k)"
  unfolding GetRandomPrivKey_def by (auto split: sum.splits)

section \<open>Properties\<close>

text \<open>An HTTP helper hands data on exactly when the peer answered with status 200 and a
  body that is not empty and was read to its end; the data are the bytes of that body. It
  makes one request, to the URL with the arguments joined by \<open>&\<close>.\<close>

lemma HttpGet_data:
  "\<exists>reply. newEvents (HttpGet E url args) s = [EvHttp GET (withArgs url args) reply] \<and>
     (\<forall>body. fst (HttpGet E url args s) = Ret (Inr body) \<longleftrightarrow>
        body \<noteq> [] \<and> reply = HttpResp 200 body None)"
proof (intro exI [of _ "eHttp E (trace s) GET (withArgs url args)"] conjI)
  show "newEvents (HttpGet E url args) s =
      [EvHttp GET (withArgs url args) (eHttp E (trace s) GET (withArgs url args))]"
    by (rule newEvents_eq) (simp add: run)
  show "\<forall>body. fst (HttpGet E url args s) = Ret (Inr body) \<longleftrightarrow>
      body \<noteq> [] \<and> eHttp E (trace s) GET (withArgs url args) = HttpResp 200 body None"
    by (simp add: run httpResult_ok)
qed

text \<open>The EPC size shown to the user, in GiB, is one more than the whole GiB of the
  largest section the processor reports: the addition does not wrap in 64 bits, the
  result lies above every section, and above the largest one by at most one GiB.\<close>

lemma GetEpcSize_bounds:
  "(\<forall>x \<in> set (eEPCSections E). unat x < unat (GetEpcSize E) * 2 ^ 30) \<and>
   (\<exists>x \<in> set (0 # eEPCSections E). (unat (GetEpcSize E) - 1) * 2 ^ 30 \<le> unat x) \<and>
   1 \<le> unat (GetEpcSize E) \<and> unat (GetEpcSize E) \<le> 2 ^ 34"
proof -
  define m where "m = largestSection 0 (eEPCSections E)"
  have m: "unat m < 2 ^ 64" using unsigned_less [of m, where ?'a = nat] by simp
  have q: "unat (m div 1024 div 1024 div 1024) = unat m div 2 ^ 30"
    by (simp add: unat_div div_mult2_eq [symmetric])
  have lt: "unat m div 2 ^ 30 < 2 ^ 34" using m by (simp add: less_mult_imp_div_less)
  have size: "unat (GetEpcSize E) = unat m div 2 ^ 30 + 1"
    unfolding GetEpcSize_def m_def [symmetric]
    using q lt by (simp add: unat_word_ariths)
  have "unat x < unat (GetEpcSize E) * 2 ^ 30" if "x \<in> set (eEPCSections E)" for x
  proof -
    have "unat x \<le> unat m"
      using largestSection_ge [of x "eEPCSections E" 0] that by (simp add: m_def word_le_nat_alt)
    then show ?thesis unfolding size by simp
  qed
  moreover have "\<exists>x \<in> set (0 # eEPCSections E). (unat (GetEpcSize E) - 1) * 2 ^ 30 \<le> unat x"
    using largestSection_mem [of 0 "eEPCSections E"] unfolding size m_def [symmetric]
    by (intro bexI [of _ m]) auto
  ultimately show ?thesis using lt by (simp add: size)
qed

lemma GetEpcSize_bounds_witness:
  "unat (2 ^ 36 :: 64 word) < unat (GetEpcSize (nullEnv\<lparr>eEPCSections := [2 ^ 36, 5]\<rparr>)) * 2 ^ 30"
  using GetEpcSize_bounds [of "nullEnv\<lparr>eEPCSections := [2 ^ 36, 5]\<rparr>"] by simp

text \<open>Times of consecutive reports lie at least \<open>gap\<close> apart.\<close>

fun spaced :: "64 word \<Rightarrow> 64 word \<Rightarrow> (64 word \<times> 'a) list \<Rightarrow> bool" where
  "spaced gap prev [] = True"
| "spaced gap prev ((now, q) # rs) = (gap \<le> now - prev \<and> spaced gap now rs)"

text \<open>However often a transfer reports its size, the lines printed while it is in
  progress are at least two seconds apart (by the wrapping difference of the clock the
  code computes), counted from the time of the last line.\<close>

lemma reports_spaced: "spaced 2 (preLogTime tObj) (reports us tObj)"
proof (induction us tObj rule: reports.induct)
  case (1 tObj)
  then show ?case by simp
next
  case (2 now amount us tObj)
  show ?case
  proof (cases "now - preLogTime tObj < 2")
    case True
    then show ?thesis using 2 by (simp add: UpdateTransmitSize_def)
  next
    case False
    then have "spaced 2 now (reports us (tObj\<lparr>preLogTime := now\<rparr>))"
      using 2 [of "Some (if 0 < TotalSize tObj then PrPercent amount (TotalSize tObj) else PrSize amount)"
        "tObj\<lparr>preLogTime := now\<rparr>"] by (simp add: UpdateTransmitSize_def)
    moreover have "2 \<le> now - preLogTime tObj" using False by (simp only: not_less)
    ultimately show ?thesis using False by (simp add: UpdateTransmitSize_def)
  qed
qed

end
