(* ===== verification/Blockchain.thy ===== *)
theory Blockchain
  imports Util
begin

text \<open>
  blockchain/blockchain.go: the cached connection to the chain node, waiting for the node
  to be in sync, and the queries the manager makes (the recommended program, the peers
  that hold a file, the trusted peers, the authorised enclave identifiers, the number of
  peers). Storage keys, SCALE decoding, addresses and signatures are third-party code and
  parameters; \<open>waitForChainSyncCompleted\<close> may wait for ever and is given fuel, the
  number of further health queries it may make.
\<close>

section \<open>The connection\<close>

definition GetChainApi :: "env \<Rightarrow> (goerr + string \<times> string) go" where
  "GetChainApi E =
     bnd (reads gChainApi) (\<lambda>ga. bnd (reads gMeta) (\<lambda>gm.
       case (ga, gm) of
         (Some chainApi, Some meta) \<Rightarrow> ret (Inr (chainApi, meta))
       | _ \<Rightarrow>
           bnd (reads (\<lambda>s. ChainWsUrl (RunningConfig s))) (\<lambda>url.
           bnd (ext (\<lambda>h. eDial E h url) (EvDial url)) (\<lambda>r. case r of
             Inl e \<Rightarrow> ret (Inl e)
           | Inr chainApi \<Rightarrow>
               bnd (ext (\<lambda>h. eMetadata E h chainApi) (EvMetadata chainApi)) (\<lambda>r2. case r2 of
                 Inl e \<Rightarrow> ret (Inl e)
               | Inr meta \<Rightarrow>
                   andThen (modify (\<lambda>s. s\<lparr>gChainApi := Some chainApi, gMeta := Some meta\<rparr>))
                           (ret (Inr (chainApi, meta))))))))"

definition ResetChainApi :: "unit go" where
  "ResetChainApi = modify (\<lambda>s. s\<lparr>gChainApi := None, gMeta := None\<rparr>)"

definition health :: "env \<Rightarrow> string \<Rightarrow> (goerr + bool) go" where
  "health E api = ext (\<lambda>h. eHealth E h api) (EvHealth api)"

text \<open>The loop: done once a query succeeded and reports no syncing, else another query
  after a second. The context is the background one, which is never done.\<close>

fun syncLoop :: "env \<Rightarrow> nat \<Rightarrow> string \<Rightarrow> goerr + bool \<Rightarrow> unit go" where
  "syncLoop E fuel api (Inr False) = ret ()"
| "syncLoop E 0 api r = noFuel"
| "syncLoop E (Suc fuel) api r =
     andThen (sleep 1) (bnd (health E api) (syncLoop E fuel api))"

definition waitForChainSyncCompleted :: "env \<Rightarrow> nat \<Rightarrow> string \<Rightarrow> unit go" where
  "waitForChainSyncCompleted E fuel api = bnd (health E api) (syncLoop E fuel api)"

section \<open>Queries\<close>

definition getRecommendProgram :: "env \<Rightarrow> string \<Rightarrow> string \<Rightarrow> (goerr + DcProgram) go" where
  "getRecommendProgram E chainApi meta =
     (case eStorageKey E meta ''DcNode'' ''DcProgram'' [] of
        Inl e \<Rightarrow> ret (Inl e)
      | Inr key \<Rightarrow> bnd (getStorage (eProgram E) SvProgram chainApi key) (\<lambda>r. case r of
            Inl e \<Rightarrow> ret (Inl e)
          | Inr None \<Rightarrow> ret (Inl (GoErr ''get Program fail''))
          | Inr (Some programInfo) \<Rightarrow> ret (Inr programInfo)))"

definition GetConfigedDcStorageInfo :: "env \<Rightarrow> nat \<Rightarrow> (goerr + DcProgram) go" where
  "GetConfigedDcStorageInfo E fuel =
     bnd (GetChainApi E) (\<lambda>r. case r of
       Inl e \<Rightarrow> ret (Inl e)
     | Inr (chainApi, meta) \<Rightarrow>
         andThen (waitForChainSyncCompleted E fuel chainApi)
                 (getRecommendProgram E chainApi meta))"

fun firstAddr :: "env \<Rightarrow> string list \<Rightarrow> addrInfo" where
  "firstAddr E [] = noAddr"
| "firstAddr E (ipAddr # rest) = (case eAddrInfo E ipAddr of
     Inl _ \<Rightarrow> firstAddr E rest
   | Inr pAddrInfo \<Rightarrow> pAddrInfo)"

definition GetPeerAddrInfo :: "env \<Rightarrow> string \<Rightarrow> string \<Rightarrow> string \<Rightarrow> (goerr + addrInfo) go" where
  "GetPeerAddrInfo E peerid chainApi meta =
     (case eStorageKey E meta ''DcNode'' ''Peers'' [eEncode E peerid] of
        Inl e \<Rightarrow> ret (Inl e)
      | Inr key \<Rightarrow> bnd (getStorage (ePeer E) SvPeer chainApi key) (\<lambda>r. case r of
            Inl e \<Rightarrow> ret (Inl e)
          | Inr None \<Rightarrow> ret (Inr noAddr)
          | Inr (Some info) \<Rightarrow>
              if Ip_address info = [] then ret (Inr noAddr)
              else ret (Inr (firstAddr E (split (CHR '','') (Ip_address info))))))"

fun collectAddrs :: "env \<Rightarrow> string \<Rightarrow> string \<Rightarrow> addrInfo list \<Rightarrow> string list \<Rightarrow> addrInfo list go" where
  "collectAddrs E chainApi meta acc [] = ret acc"
| "collectAddrs E chainApi meta acc (pid # pids) =
     bnd (GetPeerAddrInfo E pid chainApi meta) (\<lambda>r. case r of
       Inl _ \<Rightarrow> collectAddrs E chainApi meta acc pids
     | Inr a \<Rightarrow> collectAddrs E chainApi meta (acc @ [a]) pids)"

definition getPeerAddrsForCid ::
    "env \<Rightarrow> string \<Rightarrow> string option \<Rightarrow> string \<Rightarrow> (goerr + 64 word \<times> addrInfo list) go" where
  "getPeerAddrsForCid E sCid chainApi meta = (case chainApi of
     None \<Rightarrow> ret (Inl (GoErr ''chain proxy not init''))
   | Some api \<Rightarrow>
       if sCid = [] then ret (Inl (GoErr ''invalid key''))
       else (case eStorageKey E meta ''DcNode'' ''Files'' [eEncode E sCid] of
          Inl e \<Rightarrow> ret (Inl e)
        | Inr key \<Rightarrow> bnd (getStorage (eFile E) SvFile api key) (\<lambda>r. case r of
              Inl e \<Rightarrow> ret (Inl e)
            | Inr None \<Rightarrow> ret (Inl (GoErr ''get object fail''))
            | Inr (Some info) \<Rightarrow>
                bnd (collectAddrs E api meta [] (Peers info)) (\<lambda>addrs.
                  ret (Inr (FileSize info, addrs))))))"

definition GetPeerAddrsForCid :: "env \<Rightarrow> nat \<Rightarrow> string \<Rightarrow> (goerr + 64 word \<times> addrInfo list) go" where
  "GetPeerAddrsForCid E fuel sCid =
     bnd (GetChainApi E) (\<lambda>r. case r of
       Inl e \<Rightarrow> ret (Inl e)
     | Inr (chainApi, meta) \<Rightarrow>
         andThen (println ''Wait for blockchain syncing complete'')
        (andThen (waitForChainSyncCompleted E fuel chainApi)
        (andThen (println ''Blockchain syncing completed'')
        (andThen (println ''Start to get storage location information'')
                 (getPeerAddrsForCid E sCid (Some chainApi) meta)))))"

text \<open>The loop over the trusted peers. Both results are returned together: the addresses so
  far and \<open>err\<close>, which a lookup sets (to \<open>nil\<close> when it succeeds) and an entry with
  an address leaves as it is.\<close>

fun trustLoop :: "env \<Rightarrow> string \<Rightarrow> string \<Rightarrow> addrInfo list \<Rightarrow> err \<Rightarrow> string list \<Rightarrow>
    (addrInfo list \<times> err) go" where
  "trustLoop E chainApi meta acc e [] = ret (acc, e)"
| "trustLoop E chainApi meta acc e (pidInfo # pids) =
     (if contains pidInfo ''/ip''
      then (case eAddrInfo E pidInfo of
          Inl err1 \<Rightarrow> ret (acc, Some err1)
        | Inr a \<Rightarrow> trustLoop E chainApi meta (acc @ [a]) e pids)
      else bnd (GetPeerAddrInfo E pidInfo chainApi meta) (\<lambda>r. case r of
          Inl x \<Rightarrow> trustLoop E chainApi meta acc (Some x) pids
        | Inr a \<Rightarrow> trustLoop E chainApi meta (acc @ [a]) None pids))"

definition GetTrustStoragePeers :: "env \<Rightarrow> (addrInfo list \<times> err) go" where
  "GetTrustStoragePeers E =
     bnd (GetChainApi E) (\<lambda>r. case r of
       Inl e \<Rightarrow> ret ([], Some e)
     | Inr (chainApi, meta) \<Rightarrow> (case eStorageKey E meta ''DcNode'' ''TrustedStorageNodes'' [] of
           Inl e \<Rightarrow> ret ([], Some e)
         | Inr key \<Rightarrow> bnd (getStorage (eTrusted E) SvTrusted chainApi key) (\<lambda>r2. case r2 of
               Inl e \<Rightarrow> ret ([], Some e)
             | Inr None \<Rightarrow> ret ([], None)
             | Inr (Some trustPeers) \<Rightarrow> trustLoop E chainApi meta [] None trustPeers)))"

text \<open>One entry authorises an enclave when it carries its identifier and a signature of
  it that verifies under the key of the technical committee.\<close>

definition authorises :: "env \<Rightarrow> string \<Rightarrow> string \<Rightarrow> EnclaveIdInfo \<Rightarrow> bool" where
  "authorises E pubkey enclaveId info =
     (enclaveId = InfoEnclaveId info \<and>
      (case eMbase E (Signature info) of
         Inl _ \<Rightarrow> False
       | Inr signature \<Rightarrow> (case eVerify E pubkey (InfoEnclaveId info) signature of
            Inl _ \<Rightarrow> False
          | Inr ok \<Rightarrow> ok)))"

definition committeeKey :: "env \<Rightarrow> string option" where
  "committeeKey E = (case eMbase E CommitBasePubkey of
     Inl _ \<Rightarrow> None
   | Inr bytes \<Rightarrow> (case ePubKey E bytes of Inl _ \<Rightarrow> None | Inr k \<Rightarrow> Some k))"

fun anyAuthorises :: "env \<Rightarrow> string \<Rightarrow> string \<Rightarrow> EnclaveIdInfo list \<Rightarrow> bool" where
  "anyAuthorises E pubkey enclaveId [] = False"
| "anyAuthorises E pubkey enclaveId (info # infos) =
     (if authorises E pubkey enclaveId info then True
      else anyAuthorises E pubkey enclaveId infos)"

definition IfEnclaveIdValid :: "env \<Rightarrow> string \<Rightarrow> bool go" where
  "IfEnclaveIdValid E enclaveId =
     bnd (GetChainApi E) (\<lambda>r. case r of
       Inl _ \<Rightarrow> ret False
     | Inr (chainApi, meta) \<Rightarrow> (case eStorageKey E meta ''DcNode'' ''EnclaveIds'' [] of
           Inl _ \<Rightarrow> ret False
         | Inr key \<Rightarrow> bnd (getStorage (eEnclaves E) SvEnclaves chainApi key) (\<lambda>r2. case r2 of
               Inl _ \<Rightarrow> ret False
             | Inr None \<Rightarrow> ret False
             | Inr (Some infos) \<Rightarrow> (case committeeKey E of
                   None \<Rightarrow> ret False
                 | Some pubkey \<Rightarrow> ret (anyAuthorises E pubkey enclaveId infos)))))"

definition GetOnchainPeerNumber :: "env \<Rightarrow> (goerr + 32 word) go" where
  "GetOnchainPeerNumber E =
     bnd (GetChainApi E) (\<lambda>r. case r of
       Inl e \<Rightarrow> ret (Inl e)
     | Inr (chainApi, meta) \<Rightarrow> (case eStorageKey E meta ''DcNode'' ''OnchainPeerNumber'' [] of
           Inl e \<Rightarrow> ret (Inl e)
         | Inr key \<Rightarrow> bnd (getStorage (eCount E) SvCount chainApi key) (\<lambda>r2. case r2 of
               Inl e \<Rightarrow> ret (Inl e)
             | Inr None \<Rightarrow> ret (Inr 0)
             | Inr (Some n) \<Rightarrow> ret (Inr n))))"

section \<open>The contract of the chain queries\<close>

fun chainEvent :: "event \<Rightarrow> bool" where
  "chainEvent (EvDial _ _) = True"
| "chainEvent (EvMetadata _ _) = True"
| "chainEvent (EvHealth _ _) = True"
| "chainEvent (EvStorage _ _ _) = True"
| "chainEvent (EvSleep _) = True"
| "chainEvent (EvPrint _) = True"
| "chainEvent _ = False"

lemma emits_case_unit_option [emits_intro]:
  "(\<And>e. emits A (f e)) \<Longrightarrow> emits A n \<Longrightarrow> (\<And>x. emits A (g x)) \<Longrightarrow>
   emits A (case r of Inl e \<Rightarrow> f e | Inr None \<Rightarrow> n | Inr (Some x) \<Rightarrow> g x)"
  by (auto split: sum.split option.split)

lemma emits_GetChainApi: "emits chainEvent (GetChainApi E)"
  unfolding GetChainApi_def by (intro emits_intro; simp)

lemma keeps_GetChainApi:
  "(\<And>s h a m. g (s\<lparr>trace := h\<rparr>) = g s \<and> g (s\<lparr>gChainApi := a, gMeta := m\<rparr>) = g s) \<Longrightarrow>
   keeps g (GetChainApi E)"
  unfolding GetChainApi_def by (intro emits_intro; simp)

lemma emits_syncLoop: "emits chainEvent (syncLoop E fuel api r)"
  by (induction E fuel api r rule: syncLoop.induct)
    (auto simp: health_def sleep_def intro!: emits_intro)

lemma keeps_syncLoop: "(\<And>s h. g (s\<lparr>trace := h\<rparr>) = g s) \<Longrightarrow> keeps g (syncLoop E fuel api r)"
  by (induction E fuel api r rule: syncLoop.induct)
    (auto simp: health_def sleep_def intro!: emits_intro)

lemma emits_waitForChainSync: "emits chainEvent (waitForChainSyncCompleted E fuel api)"
  unfolding waitForChainSyncCompleted_def health_def
  by (intro emits_intro emits_syncLoop; simp)

lemma keeps_waitForChainSync:
  "(\<And>s h. g (s\<lparr>trace := h\<rparr>) = g s) \<Longrightarrow> keeps g (waitForChainSyncCompleted E fuel api)"
  unfolding waitForChainSyncCompleted_def health_def
  by (intro emits_intro keeps_syncLoop; simp)

lemmas query_defs = getRecommendProgram_def GetPeerAddrInfo_def getStorage_def
  GetConfigedDcStorageInfo_def IfEnclaveIdValid_def GetOnchainPeerNumber_def
  GetTrustStoragePeers_def getPeerAddrsForCid_def GetPeerAddrsForCid_def println_def

lemmas chain_intro = emits_GetChainApi keeps_GetChainApi emits_waitForChainSync
  keeps_waitForChainSync

lemma emits_GetPeerAddrInfo: "emits chainEvent (GetPeerAddrInfo E p a m)"
  unfolding query_defs by (intro emits_intro; simp)

lemma keeps_GetPeerAddrInfo:
  "(\<And>s h. g (s\<lparr>trace := h\<rparr>) = g s) \<Longrightarrow> keeps g (GetPeerAddrInfo E p a m)"
  unfolding query_defs by (intro emits_intro; simp)

lemma emits_collectAddrs: "emits chainEvent (collectAddrs E a m acc ps)"
  by (induction ps arbitrary: acc) (auto intro!: emits_intro emits_GetPeerAddrInfo)

lemma keeps_collectAddrs:
  "(\<And>s h. g (s\<lparr>trace := h\<rparr>) = g s) \<Longrightarrow> keeps g (collectAddrs E a m acc ps)"
  by (induction ps arbitrary: acc) (auto intro!: emits_intro keeps_GetPeerAddrInfo)

lemma emits_trustLoop: "emits chainEvent (trustLoop E a m acc e ps)"
  by (induction ps arbitrary: acc e) (auto intro!: emits_intro emits_GetPeerAddrInfo)

lemma keeps_trustLoop:
  "(\<And>s h. g (s\<lparr>trace := h\<rparr>) = g s) \<Longrightarrow> keeps g (trustLoop E a m acc e ps)"
  by (induction ps arbitrary: acc e) (auto intro!: emits_intro keeps_GetPeerAddrInfo)

interpretation configedInfo: component "GetConfigedDcStorageInfo E fuel" chainEvent for E fuel
  by unfold_locales (unfold query_defs, (intro emits_intro chain_intro; simp)+)

interpretation enclaveValid: component "IfEnclaveIdValid E i" chainEvent for E i
  by unfold_locales (unfold query_defs, (intro emits_intro chain_intro; simp)+)

interpretation trustedPeers: component "GetTrustStoragePeers E" chainEvent for E
  by unfold_locales
    (unfold query_defs, (intro emits_intro chain_intro emits_trustLoop keeps_trustLoop; simp)+)

interpretation peersForCid: component "GetPeerAddrsForCid E fuel c" chainEvent for E fuel c
  by unfold_locales
    (unfold query_defs emit_def,
     (intro emits_intro chain_intro emits_collectAddrs keeps_collectAddrs; simp)+)

section \<open>Properties\<close>

text \<open>Evidence in the history that the technical committee authorised an enclave: a reply of
  the chain to the query of the authorised enclaves with an entry for it whose signature
  verifies under the committee's key.\<close>

definition signedBy :: "env \<Rightarrow> string \<Rightarrow> string \<Rightarrow> EnclaveIdInfo \<Rightarrow> bool" where
  "signedBy E pubkey enclaveId info \<longleftrightarrow> InfoEnclaveId info = enclaveId \<and>
     (\<exists>sig. eMbase E (Signature info) = Inr sig \<and> eVerify E pubkey enclaveId sig = Inr True)"

fun enclaveEvidence :: "env \<Rightarrow> string \<Rightarrow> event \<Rightarrow> bool" where
  "enclaveEvidence E i (EvStorage api key (Inr (Some (SvEnclaves infos)))) =
     (case committeeKey E of None \<Rightarrow> False | Some k \<Rightarrow> \<exists>info \<in> set infos. signedBy E k i info)"
| "enclaveEvidence E i _ = False"

lemma authorises_iff: "authorises E k i info \<longleftrightarrow> signedBy E k i info"
  by (auto simp: authorises_def signedBy_def split: sum.split)

lemma anyAuthorises_iff: "anyAuthorises E k i infos \<longleftrightarrow> (\<exists>info \<in> set infos. signedBy E k i info)"
  by (induction infos) (auto simp: authorises_iff)

lemma GetChainApi_dials:
  assumes "gChainApi s = None \<or> gMeta s = None"
    and "url = ChainWsUrl (RunningConfig s)" and "h = EvDial url (eDial E (trace s) url) # trace s"
  shows "GetChainApi E s = (case eDial E (trace s) url of
      Inl e \<Rightarrow> (Ret (Inl e), s\<lparr>trace := h\<rparr>)
    | Inr a \<Rightarrow> (let k = EvMetadata a (eMetadata E h a) # h in case eMetadata E h a of
          Inl e \<Rightarrow> (Ret (Inl e), s\<lparr>trace := k\<rparr>)
        | Inr m \<Rightarrow> (Ret (Inr (a, m)), s\<lparr>trace := k, gChainApi := Some a, gMeta := Some m\<rparr>)))"
  using assms by (auto simp: GetChainApi_def run andThen_def Let_def split: option.split sum.split)

lemma GetChainApi_cases:
  obtains (connected) a m t new where "GetChainApi E s = (Ret (Inr (a, m)), t)"
      and "trace t = new @ trace s" and "\<forall>e \<in> set new. \<exists>u r. e = EvDial u r \<or> e = EvMetadata u r"
      and "gChainApi t = Some a" and "gMeta t = Some m"
    | (failed) e t new where "GetChainApi E s = (Ret (Inl e), t)"
      and "trace t = new @ trace s" and "\<forall>e \<in> set new. \<exists>u r. e = EvDial u r \<or> e = EvMetadata u r"
      and "gChainApi t = gChainApi s" and "gMeta t = gMeta s"
proof -
  let ?url = "ChainWsUrl (RunningConfig s)"
  let ?d = "eDial E (trace s) ?url"
  let ?h = "EvDial ?url ?d # trace s"
  show thesis
  proof (cases "gChainApi s \<noteq> None \<and> gMeta s \<noteq> None")
    case True
    then show thesis by (intro connected [of "the (gChainApi s)" "the (gMeta s)" s "[]"])
        (auto simp: GetChainApi_def run)
  next
    case False
    then have dials: "gChainApi s = None \<or> gMeta s = None" by simp
    note go = GetChainApi_dials [OF dials refl refl, of E]
    consider (unreachable) e where "?d = Inl e"
      | (no_metadata) a e where "?d = Inr a" "eMetadata E ?h a = Inl e"
      | (opened) a m where "?d = Inr a" "eMetadata E ?h a = Inr m"
      by (metis sum.exhaust)
    then show thesis
    proof cases
      case (unreachable e)
      then show thesis using go
        by (intro failed [of e "s\<lparr>trace := ?h\<rparr>" "[EvDial ?url ?d]"]) auto
    next
      case (no_metadata a e)
      then show thesis using go
        by (intro failed [of e "s\<lparr>trace := EvMetadata a (Inl e) # ?h\<rparr>" "[EvMetadata a (Inl e), EvDial ?url ?d]"]) auto
    next
      case (opened a m)
      then show thesis using go
        by (intro connected [of a m "s\<lparr>trace := EvMetadata a (Inr m) # ?h, gChainApi := Some a, gMeta := Some m\<rparr>"
              "[EvMetadata a (Inr m), EvDial ?url ?d]"]) auto
    qed
  qed
qed

text \<open>C33: the connection is opened once: after a call that succeeded, a further call gives
  the same connection and metadata, makes no call to the node and changes nothing.\<close>

theorem GetChainApi_cached:
  assumes "GetChainApi E s = (Ret (Inr am), t)"
  shows "GetChainApi E t = (Ret (Inr am), t) \<and> newEvents (GetChainApi E) t = []"
proof -
  have "gChainApi t = Some (fst am) \<and> gMeta t = Some (snd am)"
  proof (cases rule: GetChainApi_cases [of E s])
    case (connected a m u new)
    then have "u = t" and "am = (a, m)" using assms by simp_all
    then show ?thesis using connected(4,5) by simp
  next
    case (failed e u new)
    then show ?thesis using assms by simp
  qed
  then have "GetChainApi E t = (Ret (Inr am), t)" by (simp add: GetChainApi_def run)
  then show ?thesis by (simp add: newEvents_def)
qed

definition chainEnv :: env where
  "chainEnv = nullEnv\<lparr>eDial := (\<lambda>_ u. Inr ''api''), eMetadata := (\<lambda>_ _. Inr ''meta''),
     eHealth := (\<lambda>h _. Inr (length (filter (\<lambda>e. \<exists>a r. e = EvHealth a r) h) < 2)),
     eEnclaves := (\<lambda>_ _ _. Inr (Some [\<lparr>Blockheight = 7, InfoEnclaveId = ''enc'', Signature = ''sig''\<rparr>])),
     eVerify := (\<lambda>k i x. Inr (k = CommitBasePubkey \<and> x = ''sig''))\<rparr>"

lemma GetChainApi_cached_witness:
  "newEvents (GetChainApi chainEnv) (snd (GetChainApi chainEnv initSt)) = []"
proof -
  have "fst (GetChainApi chainEnv initSt) = Ret (Inr (''api'', ''meta''))"
    by (simp add: GetChainApi_def runs chainEnv_def sample initSt_def)
  then show ?thesis using GetChainApi_cached by (metis prod.collapse)
qed

lemma enclaveValid_iff:
  "fst (IfEnclaveIdValid E i s) = Ret True \<longleftrightarrow>
   (\<exists>e \<in> set (newEvents (IfEnclaveIdValid E i) s). enclaveEvidence E i e)"
proof (cases rule: GetChainApi_cases [of E s])
  case (failed e t new)
  then have "newEvents (IfEnclaveIdValid E i) s = new"
    by (intro newEvents_eq) (simp add: IfEnclaveIdValid_def run)
  then show ?thesis using failed by (fastforce simp: IfEnclaveIdValid_def run)
next
  case (connected a m t new)
  have quiet: "\<not> (\<exists>e \<in> set new. enclaveEvidence E i e)" using connected(3) by fastforce
  show ?thesis
  proof (cases "eStorageKey E m ''DcNode'' ''EnclaveIds'' []")
    case (Inl e)
    then have "newEvents (IfEnclaveIdValid E i) s = new" using connected
      by (intro newEvents_eq) (simp add: IfEnclaveIdValid_def run)
    then show ?thesis using connected Inl quiet by (simp add: IfEnclaveIdValid_def run)
  next
    case (Inr key)
    let ?r = "eEnclaves E (trace t) a key"
    let ?e = "EvStorage a key (case ?r of Inl e \<Rightarrow> Inl e | Inr v \<Rightarrow> Inr (map_option SvEnclaves v))"
    have "trace (snd (IfEnclaveIdValid E i s)) = (?e # new) @ trace s"
      using connected Inr by (simp add: IfEnclaveIdValid_def getStorage_def run
          split: sum.split option.split)
    then have new: "newEvents (IfEnclaveIdValid E i) s = ?e # new" by (rule newEvents_eq)
    show ?thesis unfolding new using connected Inr quiet
      by (cases ?r) (auto simp: IfEnclaveIdValid_def getStorage_def run anyAuthorises_iff
          split: option.split)
  qed
qed

text \<open>C16: an enclave is taken as valid exactly when the call itself saw the evidence: the
  chain answered the query of the authorised enclaves with an entry for this identifier
  whose signature verifies under the built-in committee key. A failed connection, an
  absent list, an undecodable key or signature, and an entry of another enclave never
  make it valid.\<close>

theorem IfEnclaveIdValid_iff_signed:
  "fst (IfEnclaveIdValid E i s) = Ret True \<longleftrightarrow>
   (\<exists>e \<in> set (newEvents (IfEnclaveIdValid E i) s). enclaveEvidence E i e)"
  by (rule enclaveValid_iff)

lemma IfEnclaveIdValid_iff_signed_witness:
  "fst (IfEnclaveIdValid chainEnv ''enc'' initSt) = Ret True \<and>
   fst (IfEnclaveIdValid chainEnv ''other'' initSt) = Ret False \<and>
   (\<exists>e \<in> set (newEvents (IfEnclaveIdValid chainEnv ''enc'') initSt). enclaveEvidence chainEnv ''enc'' e)"
proof -
  have "fst (IfEnclaveIdValid chainEnv ''enc'' initSt) = Ret True"
    "fst (IfEnclaveIdValid chainEnv ''other'' initSt) = Ret False"
    by (simp_all add: IfEnclaveIdValid_def GetChainApi_def runs chainEnv_def sample initSt_def
        committeeKey_def authorises_def)
  then show ?thesis using IfEnclaveIdValid_iff_signed by blast
qed

definition healthQueries :: "history \<Rightarrow> nat" where
  "healthQueries h = length (filter (\<lambda>e. \<exists>a r. e = EvHealth a r) h)"

lemma healthQueries_simps [simp]:
  "healthQueries [] = 0"
  "healthQueries (EvHealth a r # h) = Suc (healthQueries h)"
  "healthQueries (EvSleep n # h) = healthQueries h"
  by (simp_all add: healthQueries_def)

lemma syncLoop_returns:
  assumes synced: "\<And>h. k \<le> healthQueries h \<Longrightarrow> eHealth E h api = Inr False"
    and "r = Inr False \<or> 0 < fuel \<and> k < healthQueries (trace s) + fuel"
  shows "fst (syncLoop E fuel api r s) = Ret ()"
  using assms(2)
proof (induction fuel arbitrary: r s)
  case 0
  then show ?case by (simp add: run)
next
  case (Suc fuel)
  show ?case
  proof (cases "r = Inr False")
    case True
    then show ?thesis by (simp add: run)
  next
    case False
    let ?h = "EvSleep 1 # trace s"
    let ?r = "eHealth E ?h api"
    let ?t = "s\<lparr>trace := EvHealth api ?r # ?h\<rparr>"
    have step: "syncLoop E (Suc fuel) api r s = syncLoop E fuel api ?r ?t"
      using False by (cases r) (auto simp: run andThen_def sleep_def emit_def health_def)
    have "?r = Inr False \<or> 0 < fuel \<and> k < healthQueries (trace ?t) + fuel"
    proof (cases "k \<le> healthQueries (trace s)")
      case True
      then show ?thesis using synced [of ?h] by simp
    next
      case unsynced: False
      then show ?thesis using Suc.prems False by auto
    qed
    then show ?thesis using Suc.IH step by simp
  qed
qed

lemma syncLoop_last:
  assumes "syncLoop E fuel api r s = (Ret (), t)" and "trace s = EvHealth api r # h"
  shows "\<exists>h'. trace t = EvHealth api (Inr False) # h'"
  using assms
proof (induction E fuel api r arbitrary: s h rule: syncLoop.induct)
  case (1 E fuel api)
  then show ?case by (auto simp: run)
qed (auto simp: run andThen_def sleep_def emit_def health_def)

text \<open>C25: a node that gets in sync after some number \<open>k\<close> of health queries ends the wait
  within that much fuel, and whenever the wait ends, the last thing it saw is a health
  reply without an error that reports no syncing.\<close>

theorem waitForChainSyncCompleted_returns:
  assumes synced: "\<And>h. k \<le> healthQueries h \<Longrightarrow> eHealth E h api = Inr False"
    and fuel: "k \<le> healthQueries (trace s) + fuel"
  shows "\<exists>t h. waitForChainSyncCompleted E fuel api s = (Ret (), t) \<and>
    trace t = EvHealth api (Inr False) # h"
proof -
  let ?r = "eHealth E (trace s) api"
  let ?u = "s\<lparr>trace := EvHealth api ?r # trace s\<rparr>"
  have step: "waitForChainSyncCompleted E fuel api s = syncLoop E fuel api ?r ?u"
    by (simp add: waitForChainSyncCompleted_def health_def run)
  have "?r = Inr False \<or> 0 < fuel \<and> k < healthQueries (trace ?u) + fuel"
    using synced [of "trace s"] fuel by auto
  then have "fst (syncLoop E fuel api ?r ?u) = Ret ()"
    using syncLoop_returns [OF synced] by blast
  then obtain t where t: "syncLoop E fuel api ?r ?u = (Ret (), t)" by (metis prod.collapse)
  then show ?thesis using syncLoop_last [OF t] step by auto
qed

lemma waitForChainSyncCompleted_returns_witness:
  "\<exists>t h. waitForChainSyncCompleted chainEnv 2 ''api'' initSt = (Ret (), t) \<and>
    trace t = EvHealth ''api'' (Inr False) # h"
proof -
  have "eHealth chainEnv h ''api'' = Inr False" if "2 \<le> healthQueries h" for h
    using that by (simp add: chainEnv_def sample healthQueries_def)
  then show ?thesis
    using waitForChainSyncCompleted_returns [of 2 chainEnv "''api''" initSt 2] by simp
qed

text \<open>The fuel is only a bound on the model: more of it never changes a wait that ended.\<close>

lemma syncLoop_more_fuel:
  "syncLoop E fuel api r s = (Ret (), t) \<Longrightarrow> syncLoop E (fuel + n) api r s = (Ret (), t)"
proof (induction E fuel api r arbitrary: s rule: syncLoop.induct)
  case (1 E fuel api)
  then show ?case by simp
qed (auto simp: run andThen_def sleep_def emit_def health_def)

lemma GetPeerAddrInfo_run:
  assumes "eStorageKey E meta ''DcNode'' ''Peers'' [eEncode E pid] = Inr key"
  shows "fst (GetPeerAddrInfo E pid api meta s) = Ret (case ePeer E (trace s) api key of
      Inl e \<Rightarrow> Inl e
    | Inr None \<Rightarrow> Inr noAddr
    | Inr (Some info) \<Rightarrow> Inr (if Ip_address info = [] then noAddr
        else firstAddr E (split (CHR '','') (Ip_address info))))"
  using assms by (simp add: GetPeerAddrInfo_def getStorage_def run split: sum.split option.split)

lemma firstAddr_noAddr: "(\<forall>a \<in> set ips. \<exists>e. eAddrInfo E a = Inl e) \<Longrightarrow> firstAddr E ips = noAddr"
  by (induction ips) auto

lemma firstAddr_split:
  "(\<forall>a \<in> set as. \<exists>e. eAddrInfo E a = Inl e) \<Longrightarrow> eAddrInfo E b = Inr i \<Longrightarrow>
   firstAddr E (as @ b # cs) = i"
  by (induction as) auto

text \<open>The address of a peer is the first of its comma-separated addresses that parses. A
  peer the chain does not know, or none of whose addresses parses, is no error: the lookup
  then returns the empty address, which its callers add to their list of peers.\<close>

lemma GetPeerAddrInfo_first:
  assumes key: "eStorageKey E meta ''DcNode'' ''Peers'' [eEncode E pid] = Inr key"
    and found: "ePeer E (trace s) api key = Inr (Some info)"
    and ips: "Ip_address info = join '','' (as @ b # cs)"
    and plain: "\<forall>w \<in> set (as @ b # cs). CHR '','' \<notin> set w"
    and bad: "\<forall>w \<in> set as. \<exists>e. eAddrInfo E w = Inl e"
    and nonempty: "Ip_address info \<noteq> []"
  shows "fst (GetPeerAddrInfo E pid api meta s) = Ret (Inr (case eAddrInfo E b of
      Inr i \<Rightarrow> i | Inl _ \<Rightarrow> firstAddr E cs))"
proof -
  have "split (CHR '','') (Ip_address info) = as @ b # cs"
    unfolding ips using plain by (intro split_join) auto
  moreover have "firstAddr E (as @ b # cs) = (case eAddrInfo E b of Inr i \<Rightarrow> i | Inl _ \<Rightarrow> firstAddr E cs)"
    using bad by (induction as) (auto split: sum.split)
  ultimately show ?thesis using GetPeerAddrInfo_run [OF key] found nonempty by simp
qed

definition peerEnv :: env where
  "peerEnv = nullEnv\<lparr>
     ePeer := (\<lambda>_ _ k. if k = ''Peersp1'' then Inr (Some \<lparr>Req_account = [], Stash = [],
         Total_space = 0, Free_space = 0, Status = 0, Report_number = 0, Staked_number = 0,
         Reward_number = 0, Ip_address = ''x,/ip4/1''\<rparr>)
       else if k = ''Peersp2'' then Inl nope else Inr None),
     eAddrInfo := (\<lambda>a. if a = ''/ip4/1'' then Inr \<lparr>PeerID = ''p1'', Addrs = [a]\<rparr> else Inl nope)\<rparr>"

lemma GetPeerAddrInfo_first_witness:
  "fst (GetPeerAddrInfo peerEnv ''p1'' ''api'' ''meta'' initSt) =
     Ret (Inr \<lparr>PeerID = ''p1'', Addrs = [''/ip4/1'']\<rparr>)"
  using GetPeerAddrInfo_first [of peerEnv "''meta''" "''p1''" "''Peersp1''" initSt "''api''" _
      "[''x'']" "''/ip4/1''" "[]"]
  by (simp add: peerEnv_def sample initSt_def)

section \<open>The peers that hold a file\<close>

text \<open>What a lookup of a peer amounts to on a chain that answers \<open>look\<close>, without the
  steps of a run.\<close>

definition peerAddr :: "env \<Rightarrow> (string \<Rightarrow> goerr + BlockPeerInfo option) \<Rightarrow> string \<Rightarrow> string \<Rightarrow> goerr + addrInfo" where
  "peerAddr E look meta pid = (case eStorageKey E meta ''DcNode'' ''Peers'' [eEncode E pid] of
     Inl e \<Rightarrow> Inl e
   | Inr key \<Rightarrow> (case look key of
       Inl e \<Rightarrow> Inl e
     | Inr None \<Rightarrow> Inr noAddr
     | Inr (Some info) \<Rightarrow> Inr (if Ip_address info = [] then noAddr
         else firstAddr E (split (CHR '','') (Ip_address info)))))"

definition foundAddrs :: "env \<Rightarrow> (string \<Rightarrow> goerr + BlockPeerInfo option) \<Rightarrow> string \<Rightarrow> string list \<Rightarrow> addrInfo list" where
  "foundAddrs E look meta pids =
     concat (map (\<lambda>pid. case peerAddr E look meta pid of Inl _ \<Rightarrow> [] | Inr a \<Rightarrow> [a]) pids)"

lemma GetPeerAddrInfo_peerAddr:
  assumes "\<And>h a k. ePeer E h a k = look k"
  shows "\<exists>h. GetPeerAddrInfo E pid api meta s = (Ret (peerAddr E look meta pid), s\<lparr>trace := h\<rparr>)"
  using assms
  by (auto simp: GetPeerAddrInfo_def peerAddr_def getStorage_def run split: sum.split option.split)
    (intro exI [of _ "trace s"]; simp)+

lemma collectAddrs_foundAddrs:
  assumes "\<And>h a k. ePeer E h a k = look k"
  shows "fst (collectAddrs E api meta acc pids s) = Ret (acc @ foundAddrs E look meta pids)"
proof (induction pids arbitrary: acc s)
  case Nil
  then show ?case by (simp add: run foundAddrs_def)
next
  case (Cons pid pids)
  obtain h where "GetPeerAddrInfo E pid api meta s = (Ret (peerAddr E look meta pid), s\<lparr>trace := h\<rparr>)"
    using GetPeerAddrInfo_peerAddr [OF assms] by blast
  then show ?case using Cons by (auto simp: run foundAddrs_def split: sum.split)
qed

text \<open>C34: The peers of a file are those of its entry on the chain whose lookup succeeds, in
  the order of the entry, each with the first of its addresses that parses (an empty address
  when there is none): the loop equals the list comprehension it stands for.\<close>

theorem getPeerAddrsForCid_reference:
  assumes "\<And>h a k. ePeer E h a k = look k" and "cid \<noteq> []"
    and "eStorageKey E meta ''DcNode'' ''Files'' [eEncode E cid] = Inr key"
    and "eFile E (trace s) api key = Inr (Some info)"
  shows "fst (getPeerAddrsForCid E cid (Some api) meta s) =
    Ret (Inr (FileSize info, foundAddrs E look meta (Peers info)))"
proof -
  let ?u = "s\<lparr>trace := EvStorage api key (Inr (Some (SvFile info))) # trace s\<rparr>"
  obtain v where "collectAddrs E api meta [] (Peers info) ?u = (Ret (foundAddrs E look meta (Peers info)), v)"
    using collectAddrs_foundAddrs [OF assms(1), of api meta "[]" "Peers info" ?u]
    by (metis append_Nil prod.collapse)
  then show ?thesis using assms(2-4) by (simp add: getPeerAddrsForCid_def getStorage_def run)
qed

definition fileEnv :: env where
  "fileEnv = peerEnv\<lparr>eFile := (\<lambda>_ _ _. Inr (Some \<lparr>Peers = [''p2'', ''p1'', ''p3''], Users = [],
     FileSize = 7, Utype = 1, Logs = []\<rparr>))\<rparr>"

lemma fileEnv_simps [simp]:
  "eStorageKey fileEnv = eStorageKey peerEnv" "eEncode fileEnv = eEncode peerEnv"
  "eAddrInfo fileEnv = eAddrInfo peerEnv" "ePeer fileEnv = ePeer peerEnv"
  by (simp_all add: fileEnv_def)

theorem getPeerAddrsForCid_reference_witness:
  "fst (getPeerAddrsForCid fileEnv ''c'' (Some ''api'') ''m'' initSt) =
     Ret (Inr (7, [\<lparr>PeerID = ''p1'', Addrs = [''/ip4/1'']\<rparr>, noAddr]))"
proof -
  let ?info = "\<lparr>Peers = [''p2'', ''p1'', ''p3''], Users = [], FileSize = 7, Utype = 1, Logs = []\<rparr>"
  have "fst (getPeerAddrsForCid fileEnv ''c'' (Some ''api'') ''m'' initSt) =
      Ret (Inr (FileSize ?info, foundAddrs fileEnv (ePeer peerEnv [] []) ''m'' (Peers ?info)))"
    by (rule getPeerAddrsForCid_reference [where key = "''Filesc''"])
      (simp_all add: peerEnv_def fileEnv_def sample)
  then show ?thesis by (simp add: foundAddrs_def peerAddr_def peerEnv_def sample)
qed

section \<open>The trusted peers\<close>

text \<open>What the list of trusted peers amounts to on a chain that answers \<open>look\<close>: it is
  read up to the first entry that carries an address that does not parse.\<close>

definition badAddress :: "env \<Rightarrow> string \<Rightarrow> bool" where
  "badAddress E p \<longleftrightarrow> contains p ''/ip'' \<and> isl (eAddrInfo E p)"

definition trustedAddrs :: "env \<Rightarrow> (string \<Rightarrow> goerr + BlockPeerInfo option) \<Rightarrow> string \<Rightarrow> string list \<Rightarrow> addrInfo list" where
  "trustedAddrs E look meta ps =
     concat (map (\<lambda>p. case (if contains p ''/ip'' then eAddrInfo E p else peerAddr E look meta p) of
         Inl _ \<Rightarrow> [] | Inr a \<Rightarrow> [a])
       (takeWhile (\<lambda>p. \<not> badAddress E p) ps))"

text \<open>Its error: of that entry; else of the last entry that is looked up, if there is one
  (\<open>e\<close> is the error before the list).\<close>

definition trustedErr :: "env \<Rightarrow> (string \<Rightarrow> goerr + BlockPeerInfo option) \<Rightarrow> string \<Rightarrow> err \<Rightarrow> string list \<Rightarrow> err" where
  "trustedErr E look meta e ps =
     (case find (badAddress E) ps of
        Some p \<Rightarrow> Some (projl (eAddrInfo E p))
      | None \<Rightarrow> (case filter (\<lambda>p. \<not> contains p ''/ip'') ps of
            [] \<Rightarrow> e
          | qs \<Rightarrow> (case peerAddr E look meta (last qs) of Inl x \<Rightarrow> Some x | Inr _ \<Rightarrow> None)))"

lemma trustedErr_address:
  "contains p ''/ip'' \<Longrightarrow> trustedErr E look meta e (p # ps) =
     (case eAddrInfo E p of Inl x \<Rightarrow> Some x | Inr _ \<Rightarrow> trustedErr E look meta e ps)"
  by (cases "eAddrInfo E p") (simp_all add: trustedErr_def badAddress_def split: option.split)

lemma trustedErr_lookup:
  "\<not> contains p ''/ip'' \<Longrightarrow> trustedErr E look meta e (p # ps) =
     trustedErr E look meta (case peerAddr E look meta p of Inl x \<Rightarrow> Some x | Inr _ \<Rightarrow> None) ps"
  by (simp add: trustedErr_def badAddress_def split: option.split list.split)

lemma trustedAddrs_Cons:
  "trustedAddrs E look meta (p # ps) = (if badAddress E p then [] else
     (case (if contains p ''/ip'' then eAddrInfo E p else peerAddr E look meta p) of
        Inl _ \<Rightarrow> [] | Inr a \<Rightarrow> [a]) @ trustedAddrs E look meta ps)"
  by (simp add: trustedAddrs_def)

lemma trustLoop_reference:
  assumes look: "\<And>h a k. ePeer E h a k = look k"
  shows "fst (trustLoop E api meta acc e ps s) =
    Ret (acc @ trustedAddrs E look meta ps, trustedErr E look meta e ps)"
proof (induction ps arbitrary: acc e s)
  case Nil
  then show ?case by (simp add: run trustedAddrs_def trustedErr_def)
next
  case (Cons p ps)
  show ?case
  proof (cases "contains p ''/ip''")
    case True
    then show ?thesis using Cons
      by (cases "eAddrInfo E p") (simp_all add: run trustedAddrs_Cons trustedErr_address badAddress_def)
  next
    case False
    obtain h where "GetPeerAddrInfo E p api meta s = (Ret (peerAddr E look meta p), s\<lparr>trace := h\<rparr>)"
      using GetPeerAddrInfo_peerAddr [OF look] by blast
    then show ?thesis using Cons False
      by (cases "peerAddr E look meta p") (simp_all add: run trustedAddrs_Cons trustedErr_lookup badAddress_def)
  qed
qed

text \<open>C38: for every list of trusted peers on the chain, \<open>GetTrustStoragePeers\<close> returns
  the addresses of the entries that parse or whose lookup succeeds, in their order, up to
  the first entry whose own address does not parse; and an error, which is that of this
  entry or else that of the last entry that was looked up, and of no earlier one: a list
  of which only the last lookup failed is an error, however many peers were found, and a
  list of which every lookup but the last failed is none.\<close>

theorem GetTrustStoragePeers_reference:
  assumes "\<And>h a k. ePeer E h a k = look k"
    and "GetChainApi E s = (Ret (Inr (api, meta)), t)"
    and "eStorageKey E meta ''DcNode'' ''TrustedStorageNodes'' [] = Inr key"
    and "eTrusted E (trace t) api key = Inr (Some ps)"
  shows "fst (GetTrustStoragePeers E s) = Ret (trustedAddrs E look meta ps, trustedErr E look meta None ps)"
proof -
  let ?u = "t\<lparr>trace := EvStorage api key (Inr (Some (SvTrusted ps))) # trace t\<rparr>"
  obtain v where "trustLoop E api meta [] None ps ?u =
      (Ret (trustedAddrs E look meta ps, trustedErr E look meta None ps), v)"
    using trustLoop_reference [OF assms(1), of api meta "[]" None ps ?u] by (metis append_Nil prod.collapse)
  then show ?thesis using assms(2-4) by (simp add: GetTrustStoragePeers_def getStorage_def run)
qed

definition trustEnv :: env where
  "trustEnv = peerEnv\<lparr>eDial := \<lambda>_ _. Inr ''api'', eMetadata := \<lambda>_ _. Inr ''meta'',
     eTrusted := \<lambda>_ _ _. Inr (Some [''p2'', ''/ip4/1'', ''p1''])\<rparr>"

text \<open>The first lookup fails, an address parses, the last lookup succeeds: no error.\<close>

theorem GetTrustStoragePeers_reference_witness:
  "\<exists>a. fst (GetTrustStoragePeers trustEnv initSt) = Ret ([a, a], None)"
proof -
  obtain t where t: "GetChainApi trustEnv initSt = (Ret (Inr (''api'', ''meta'')), t)"
    by (simp add: GetChainApi_def andThen_def run trustEnv_def peerEnv_def nullEnv_def initSt_def)
  have "fst (GetTrustStoragePeers trustEnv initSt) =
      Ret (trustedAddrs trustEnv (ePeer trustEnv [] []) ''meta'' [''p2'', ''/ip4/1'', ''p1''],
        trustedErr trustEnv (ePeer trustEnv [] []) ''meta'' None [''p2'', ''/ip4/1'', ''p1''])"
    by (rule GetTrustStoragePeers_reference [OF _ t, where key = "''TrustedStorageNodes''"])
      (simp_all add: trustEnv_def peerEnv_def sample)
  moreover have "contains ''/ip4/1'' ''/ip''" "\<not> contains ''p1'' ''/ip''" "\<not> contains ''p2'' ''/ip''"
    by (simp_all add: contains_def)
  ultimately show ?thesis
    by (simp add: trustedAddrs_def trustedErr_def badAddress_def peerAddr_def trustEnv_def peerEnv_def sample)
qed

end
