(* ===== verification/Services.thy ===== *)
theory Services
  imports Blockchain
begin

text \<open>
  The services of command/command.go: the status of the containers and of the daemon, the
  saved command state, starting and stopping each service with its container settings, and
  the queries to the local dcstorage and dcupgrade programs. The container calls go through
  package util (theory Docker). A nil Docker client, which \<open>findContainerIdByName\<close> does
  not check for, panics when it is used.
\<close>

section \<open>Names\<close>

definition dcStorageListenPort :: int where "dcStorageListenPort = 6667"
definition dcUpgradeListenPort :: int where "dcUpgradeListenPort = 6666"
definition nodeContainerName :: string where "nodeContainerName = ''dcstorage''"
definition chainContainerName :: string where "chainContainerName = ''dcchain''"
definition upgradeContainerName :: string where "upgradeContainerName = ''dcupgrade''"
definition teeReportServerContainerName :: string where
  "teeReportServerContainerName = ''teereportserver''"
definition pccsContainerName :: string where "pccsContainerName = ''dcpccs''"
definition nodeVolume :: string where "nodeVolume = ''dcstorage''"
definition pccsVolume :: string where "pccsVolume = ''dcpccs''"
definition teeReportServerVolume :: string where "teeReportServerVolume = ''teereportserver''"
definition daemonFilepath :: string where
  "daemonFilepath = ''/opt/dcnetio/data/.dcupgradedaemon''"
definition runCmdStateFilepath :: string where
  "runCmdStateFilepath = ''/opt/dcnetio/data/.cmdstate''"
definition serverhost :: string where "serverhost = ''127.0.0.1''"
definition chainDataDir :: string where "chainDataDir = ''/opt/dcnetio/chaindata''"

lemmas container_names = nodeContainerName_def chainContainerName_def upgradeContainerName_def
  teeReportServerContainerName_def pccsContainerName_def

definition localUrl :: "int \<Rightarrow> string \<Rightarrow> string" where
  "localUrl port path = ''http://'' @ serverhost @ '':'' @ itoa port @ path"

definition pccsUrl :: string where
  "pccsUrl = ''https://localhost:8081/sgx/certification/v4/rootcacrl''"

definition numError :: "numErr \<Rightarrow> goerr" where
  "numError e = GoErr (case e of ErrSyntax \<Rightarrow> ''invalid syntax'' | ErrRange \<Rightarrow> ''value out of range'')"

section \<open>Status\<close>

definition statusToString :: "bool \<Rightarrow> string" where
  "statusToString status = (if status then ''running'' else ''stopped'')"

definition findContainerIdByName :: "env \<Rightarrow> string \<Rightarrow> (goerr + string) go" where
  "findContainerIdByName E containerName =
     bnd (NewClientWithOpts E) (\<lambda>ce. case ce of
       Some _ \<Rightarrow> panic
     | None \<Rightarrow> bnd (ContainerList E True) (\<lambda>r. case r of
           Inl e \<Rightarrow> ret (Inl e)
         | Inr containers \<Rightarrow> ret (Inr (idByName containerName containers))))"

text \<open>The common body of \<open>checkDcnodeStatus\<close> and \<open>checkDcchainStatus\<close>.\<close>

definition containerStatus :: "env \<Rightarrow> string \<Rightarrow> (bool \<times> err) go" where
  "containerStatus E containerName =
     bnd (NewClientWithOpts E) (\<lambda>ce. case ce of
       Some e \<Rightarrow> ret (False, Some e)
     | None \<Rightarrow> bnd (findContainerIdByName E containerName) (\<lambda>r. case r of
           Inl e \<Rightarrow> ret (False, Some e)
         | Inr containerId \<Rightarrow> bnd (ContainerInspect E containerId) (\<lambda>r2. case r2 of
               Inl e \<Rightarrow> ret (False, Some e)
             | Inr resp \<Rightarrow> ret (Running resp, None))))"

definition checkDcnodeStatus :: "env \<Rightarrow> (bool \<times> err) go" where
  "checkDcnodeStatus E = containerStatus E nodeContainerName"

definition checkDcchainStatus :: "env \<Rightarrow> (bool \<times> err) go" where
  "checkDcchainStatus E = containerStatus E chainContainerName"

definition checkPccsStatus :: "env \<Rightarrow> (bool \<times> err) go" where
  "checkPccsStatus E =
     bnd (containerStatus E pccsContainerName) (\<lambda>(running, e).
       if running
       then bnd (HttpGetWithoutCheckCert E pccsUrl []) (\<lambda>r. case r of
           Inl x \<Rightarrow> ret (False, Some x)
         | Inr _ \<Rightarrow> ret (True, None))
       else ret (False, e))"

definition checkDcDeamonStatusDc :: "env \<Rightarrow> (bool \<times> err) go" where
  "checkDcDeamonStatusDc E =
     bnd (osReadFile E daemonFilepath) (\<lambda>r. case r of
       Inl e \<Rightarrow> ret (False, Some e)
     | Inr content \<Rightarrow> (case atoi content of
           (_, Some e) \<Rightarrow> ret (False, Some (numError e))
         | (pid, None) \<Rightarrow> bnd (findProcess E pid) (\<lambda>p. case p of
               Inl e \<Rightarrow> ret (False, Some e)
             | Inr found \<Rightarrow> ret (found, None))))"

definition checkDcnodeCmdState :: "env \<Rightarrow> bool go" where
  "checkDcnodeCmdState E =
     bnd (osReadFile E runCmdStateFilepath) (\<lambda>r. case r of
       Inl _ \<Rightarrow> ret False
     | Inr cmdstate \<Rightarrow> ret (cmdstate = ''start''))"

definition setDcnodeCmdState :: "env \<Rightarrow> string \<Rightarrow> err go" where
  "setDcnodeCmdState E state = osWriteFile E runCmdStateFilepath state"

section \<open>Container settings\<close>

definition jsonLog :: "string \<Rightarrow> logConfigSpec" where
  "jsonLog maxSize = \<lparr>l_Type = ''json-file'',
     l_Config = [(''max-size'', maxSize), (''max-file'', ''3'')]\<rparr>"

definition volumeMount :: "string \<Rightarrow> string \<Rightarrow> mountSpec" where
  "volumeMount src tgt = \<lparr>m_Type = TypeVolume, m_Source = src, m_Target = tgt,
     ConsistencyDefault = False, PropagationShared = False\<rparr>"

definition bindMount :: "string \<Rightarrow> bool \<Rightarrow> mountSpec" where
  "bindMount path shared = \<lparr>m_Type = TypeBind, m_Source = path, m_Target = path,
     ConsistencyDefault = shared, PropagationShared = shared\<rparr>"

definition sgxDevices :: "deviceMapping list" where
  "sgxDevices =
    [\<lparr>PathOnHost = ''/dev/sgx/enclave'', PathInContainer = ''/dev/sgx/enclave'',
      CgroupPermissions = ''rwm''\<rparr>,
     \<lparr>PathOnHost = ''/dev/sgx/provision'', PathInContainer = ''/dev/sgx/provision'',
      CgroupPermissions = ''rwm''\<rparr>]"

definition hostSettings :: "mountSpec list \<Rightarrow> deviceMapping list \<Rightarrow> logConfigSpec option \<Rightarrow> hostConfigSpec" where
  "hostSettings ms ds l = \<lparr>RestartPolicy = ''always'', Mounts = ms, NetworkMode = ''host'',
     Devices = ds, LogConfig = l\<rparr>"

definition nodeHostConfig :: "env \<Rightarrow> hostConfigSpec" where
  "nodeHostConfig E = hostSettings
     [volumeMount nodeVolume ''/opt/dcnetio/data'', bindMount ''/opt/dcnetio/disks'' True,
      bindMount ''/opt/dcnetio/etc'' False]
     (if IsSgxSupport E then sgxDevices else []) (Some (jsonLog ''100m''))"

definition nodeContainerConfig :: "env \<Rightarrow> DcManageConfig \<Rightarrow> containerConfig" where
  "nodeContainerConfig E cfg = \<lparr>Image = NodeImage cfg,
     Entrypoint = [if IsSgx2Support E then ''dcstorage'' else ''dcstorage_native''], Env = []\<rparr>"

definition chainEntrypoint :: "DcManageConfig \<Rightarrow> string list" where
  "chainEntrypoint cfg =
     [''dcchain'', ''--chain=mainnet'', ''--port'', ''60666'']
     @ (if length (ChainBootNode cfg) > 20 then [''--bootnodes'', ChainBootNode cfg] else [])
     @ (if ValidatorFlag cfg = ''enable''
        then [''--state-pruning'', ''archive'', ''--blocks-pruning'', ''archive'', ''--validator'']
        else [])
     @ (if ChainExposeFlag cfg = ''enable''
        then [''--unsafe-rpc-external'', ''--rpc-cors'', ''all''] else [])
     @ [''-d'', chainDataDir, ''--sync'',
        if ChainSyncMode cfg \<noteq> [] then ChainSyncMode cfg else ''full'']
     @ [''--pool-limit'', ''819200'', ''--pool-kbytes'', ''2048000'',
        ''--rpc-max-subscriptions-per-connection'', ''1024000'', ''--name'', ChainNodeName cfg]"

section \<open>Starting the services\<close>

text \<open>\<open>exec.Command\<close> runs a program, not a shell: the whole pipeline is the program's
  name. \<open>eOutput\<close> gives its output (\<open>None\<close> for an empty one) or its error.\<close>

definition lsofCommand :: "int \<Rightarrow> string" where
  "lsofCommand listenPort = ''lsof -i:'' @ itoa listenPort @ ''| awk '' @ [CHR 0x27]
     @ ''/LISTEN/ && !/awk/ {print $2}'' @ [CHR 0x27]"

definition GetPidWithListenPort :: "env \<Rightarrow> int \<Rightarrow> (int \<times> err) go" where
  "GetPidWithListenPort E listenPort =
     bnd (ext (\<lambda>h. eOutput E h (lsofCommand listenPort)) (EvOutput (lsofCommand listenPort)))
      (\<lambda>r. case r of
        Inl e \<Rightarrow> ret (0, Some e)
      | Inr None \<Rightarrow> ret (0, Some (GoErr ''no process on running''))
      | Inr (Some out) \<Rightarrow> (case parseInt 32 out of
            (pid, None) \<Rightarrow> ret (pid, None)
          | (pid, Some e) \<Rightarrow> ret (pid, Some (numError e))))"

text \<open>The loop \<open>for i := 0; i < 10; i++\<close> that waits for pccs to answer.\<close>

function pccsWait :: "env \<Rightarrow> nat \<Rightarrow> bool go" where
  "pccsWait E i =
     (if i < 10
      then bnd (HttpGetWithoutCheckCert E pccsUrl []) (\<lambda>r. case r of
          Inr _ \<Rightarrow> ret True
        | Inl _ \<Rightarrow> andThen (sleep 2) (pccsWait E (Suc i)))
      else ret False)"
  by pat_completeness auto
termination
  by (relation "measure (\<lambda>(E, i). 10 - i)") auto

declare pccsWait.simps [simp del]

definition pccsKeyError :: string where
  "pccsKeyError = ''pccs api key is invalid.goto https://api.portal.trustedservices.intel.com/provisioning-certification and click on '' @ [CHR 0x27] @ ''Subscribe'' @ [CHR 0x27] @ '' to get pccs apikey,and then run '' @ [CHR 0x27] @ '' dc pccs_api_key \"apikey\"'' @ [CHR 0x27] @ '' to config''"

definition pccsContainerConfig :: "DcManageConfig \<Rightarrow> containerConfig" where
  "pccsContainerConfig cfg = \<lparr>Image = PccsImage cfg, Entrypoint = [],
     Env = [''PCSURL=https://api.trustedservices.intel.com/sgx/certification/v4/'',
            ''APIKEY='' @ PccsKey cfg, ''USERPASS=$Dcnetio_user0$'',
            ''ADMINPASS=$Dcnetio_admin0$'']\<rparr>"

definition runPccsInDocker :: "env \<Rightarrow> err go" where
  "runPccsInDocker E =
     bnd (GetPidWithListenPort E 8081) (\<lambda>(pid, e).
       if e = None \<and> pid > 0
       then bnd (HttpGetWithoutCheckCert E pccsUrl []) (\<lambda>r. ret (case r of
              Inl x \<Rightarrow> Some x | Inr _ \<Rightarrow> None))
       else bnd (reads RunningConfig) (\<lambda>cfg.
         if length (PccsKey cfg) < 32
         then andThen (println (''start pccs fail,err:  '' @ pccsKeyError))
                      (ret (Some (GoErr pccsKeyError)))
         else checkE (StartContainer E pccsContainerName True (pccsContainerConfig cfg)
                (hostSettings [volumeMount pccsVolume ''/opt/intel/pccs''] [] None))
             (andThen (println ''wait for the successful startup of pccs.'')
             (bnd (pccsWait E 0) (\<lambda>startFlag.
                ret (if startFlag then None else Some (GoErr ''pccs start fail'')))))))"

definition startTeeReportServerDocker :: "env \<Rightarrow> err go" where
  "startTeeReportServerDocker E =
     checkE (CreateVolume E teeReportServerVolume)
    (bnd (reads RunningConfig) (\<lambda>cfg.
       StartContainer E teeReportServerContainerName True
         \<lparr>Image = TeeReportServerImage cfg, Entrypoint = [''dcteereportserver''], Env = []\<rparr>
         (hostSettings [volumeMount teeReportServerVolume ''/opt/dcnetio/dcteereportserver'']
            sgxDevices (Some (jsonLog ''10m'')))))"

definition startDcnodeInDocker :: "env \<Rightarrow> err go" where
  "startDcnodeInDocker E =
     checkE (CreateVolume E nodeVolume)
    (bnd (reads RunningConfig) (\<lambda>cfg.
     bnd (StartContainer E nodeContainerName False (nodeContainerConfig E cfg) (nodeHostConfig E))
      (\<lambda>e. case e of
         None \<Rightarrow> ret None
       | Some x \<Rightarrow>
           if contains (errMsg x) (conflictMsg nodeContainerName)
           then ret (Some (GoErr (''container '' @ nodeContainerName
                  @ '' already exist,please manual remove it first'')))
           else ret (Some x))))"

definition startDcStorageNode :: "env \<Rightarrow> err go" where
  "startDcStorageNode E =
     checkE (runPccsInDocker E)
    (andThen (if \<not> IsSgx2Support E then startTeeReportServerDocker E else ret None)
    (bnd (startDcnodeInDocker E) (\<lambda>e. case e of
       Some x \<Rightarrow> andThen (println (''start dcstorage fail,error:  '' @ errMsg x)) (ret (Some x))
     | None \<Rightarrow> ret None)))"

definition startDcchainInDocker :: "env \<Rightarrow> err go" where
  "startDcchainInDocker E =
     checkE (bnd (osStat E chainDataDir) (\<lambda>r. case r of
         StatOk \<Rightarrow> ret None
       | StatNotExist _ \<Rightarrow> osMkdirAll E chainDataDir
       | StatErr e \<Rightarrow> ret (Some e)))
    (bnd (reads RunningConfig) (\<lambda>cfg.
     andThen (if ValidatorFlag cfg = ''enable''
              then println ''start dcchain with validator mode'' else ret ())
    (StartContainer E chainContainerName True
       \<lparr>Image = ChainImage cfg, Entrypoint = chainEntrypoint cfg, Env = []\<rparr>
       (hostSettings [bindMount chainDataDir True] [] (Some (jsonLog ''100m''))))))"

definition startDcChain :: "env \<Rightarrow> err go" where
  "startDcChain E = startDcchainInDocker E"

text \<open>The error of \<open>util.StartContainer\<close> is dropped by the code.\<close>

definition startDcupgradeInDocker :: "env \<Rightarrow> err go" where
  "startDcupgradeInDocker E =
     bnd (reads RunningConfig) (\<lambda>cfg.
     andThen (StartContainer E upgradeContainerName True
        \<lparr>Image = UpgradeImage cfg, Entrypoint = [], Env = []\<rparr>
        (hostSettings [] sgxDevices (Some (jsonLog ''10m''))))
     (ret None))"

section \<open>Stopping the services\<close>

definition stopDcnodeInDocker :: "env \<Rightarrow> err go" where
  "stopDcnodeInDocker E = StopContainer E nodeContainerName 60"

definition stopUpgradeInDocker :: "env \<Rightarrow> unit go" where
  "stopUpgradeInDocker E = andThen (StopContainer E upgradeContainerName 10) (ret ())"

definition stopDcchainInDocker :: "env \<Rightarrow> unit go" where
  "stopDcchainInDocker E = andThen (StopContainer E chainContainerName 60) (ret ())"

definition stopPccsInDocker :: "env \<Rightarrow> unit go" where
  "stopPccsInDocker E = andThen (StopContainer E pccsContainerName 10) (ret ())"

definition removeDockerContainer :: "env \<Rightarrow> string \<Rightarrow> err go" where
  "removeDockerContainer E containerName = RemoveContainer E containerName"

section \<open>Queries to the local programs\<close>

text \<open>Result: version, enclave identifier, error. The reply is
  \<open>enclaveid@version\<close>.\<close>

definition parseVersion :: "string \<Rightarrow> string \<times> string \<times> err" where
  "parseVersion versionInfo = (case split (CHR ''@'') versionInfo of
     v0 # v1 # _ \<Rightarrow> (v1, v0, None)
   | _ \<Rightarrow> ([], [], Some (GoErr ''get invalid version info'')))"

definition getVersionByHttpGet :: "env \<Rightarrow> int \<Rightarrow> (string \<times> string \<times> err) go" where
  "getVersionByHttpGet E localport =
     bnd (HttpGet E (localUrl localport ''/version'') []) (\<lambda>r. case r of
       Inl e \<Rightarrow> ret ([], [], Some e)
     | Inr respBody \<Rightarrow> ret (parseVersion respBody))"

definition getPeerInfoByHttpGet :: "env \<Rightarrow> (string \<times> string \<times> string \<times> err) go" where
  "getPeerInfoByHttpGet E =
     bnd (HttpGet E (localUrl dcStorageListenPort ''/peerinfo'') []) (\<lambda>r. case r of
       Inl e \<Rightarrow> ret ([], [], [], Some e)
     | Inr respBody \<Rightarrow> (case split (CHR ''@'') respBody of
           v0 # v1 # v2 # _ \<Rightarrow> ret (v0, v1, v2, None)
         | _ \<Rightarrow> ret ([], [], [], None)))"

definition getMemoryUsageByHttpGet :: "env \<Rightarrow> (goerr + string) go" where
  "getMemoryUsageByHttpGet E = HttpGet E (localUrl dcStorageListenPort ''/mem'') []"

definition sendBlockGcCommand :: "env \<Rightarrow> err go" where
  "sendBlockGcCommand E =
     bnd (HttpGet E (localUrl dcStorageListenPort ''/blockgc'') []) (\<lambda>r. ret (case r of
       Inl e \<Rightarrow> Some e | Inr _ \<Rightarrow> None))"

section \<open>Bounded polling\<close>

text \<open>
  The shape shared by the waits of the code: probe, stop when the probe succeeded, else
  pause, count, and give up once the count passes the limit. The laws: the loop unfolds so,
  a probe returns and makes \<open>w\<close> requests, a pause returns and makes none. From them
  every wait of this shape returns, has a known number of requests, and succeeds only by a
  probe that did, whose evidence (\<open>saw\<close>) is then the newest part of the history.
\<close>

fun isRequest :: "event \<Rightarrow> bool" where
  "isRequest (EvHttp _ _ _) = True"
| "isRequest _ = False"

definition requests :: "history \<Rightarrow> nat" where
  "requests h = length (filter isRequest h)"

lemma requests_append [simp]: "requests (a @ b) = requests a + requests b"
  by (simp add: requests_def)

locale polling =
  fixes loop :: "nat \<Rightarrow> 'a go" and probe :: "'b go" and pause :: "unit go"
    and good :: "'b \<Rightarrow> 'a option" and giveUp :: "'b \<Rightarrow> 'a" and limit :: nat
    and w :: nat and saw :: "'a \<Rightarrow> history \<Rightarrow> bool"
  assumes unfold: "count \<le> limit \<Longrightarrow> loop count = bnd probe (\<lambda>r. case good r of
      Some x \<Rightarrow> ret x
    | None \<Rightarrow> andThen pause (if Suc count > limit then ret (giveUp r) else loop (Suc count)))"
    and probes: "\<exists>r. fst (probe s) = Ret r"
    and one_request: "\<exists>new. trace (snd (probe s)) = new @ trace s \<and> requests new = w"
    and evidence: "probe s = (Ret r, u) \<Longrightarrow> good r = Some x \<Longrightarrow> saw x (trace u)"
    and pauses: "fst (pause s) = Ret ()"
    and no_request: "\<exists>new. trace (snd (pause s)) = new @ trace s \<and> requests new = 0"
begin

text \<open>One round: where the probe and the pause lead, and the requests they make.\<close>

lemma one_round:
  assumes "count \<le> limit"
  obtains r u n1 v n2 where "trace u = n1 @ trace s" and "requests n1 = w"
    and "trace v = n2 @ trace u" and "requests n2 = 0"
    and "\<And>x. good r = Some x \<Longrightarrow> saw x (trace u)"
    and "loop count s = (case good r of Some x \<Rightarrow> (Ret x, u)
      | None \<Rightarrow> if Suc count > limit then (Ret (giveUp r), v) else loop (Suc count) v)"
proof -
  obtain r u where r: "probe s = (Ret r, u)" using probes by (metis prod.collapse)
  obtain n1 where n1: "trace u = n1 @ trace s" "requests n1 = w" using one_request [of s] r by auto
  obtain n2 v where v: "pause u = (Ret (), v)" "trace v = n2 @ trace u" "requests n2 = 0"
    using no_request [of u] pauses [of u] by (metis prod.collapse)
  have "loop count s = (case good r of Some x \<Rightarrow> (Ret x, u)
      | None \<Rightarrow> if Suc count > limit then (Ret (giveUp r), v) else loop (Suc count) v)"
    using r v(1) by (auto simp: unfold [OF assms] run andThen_def split: option.split)
  then show thesis using that n1 v(2,3) evidence [OF r] by blast
qed

lemma outcome:
  assumes "count \<le> limit"
  shows "\<exists>x t new. loop count s = (Ret x, t) \<and> trace t = new @ trace s \<and> w \<le> requests new \<and>
    requests new \<le> w * (limit + 1 - count) \<and>
    ((\<exists>r. good r = Some x) \<and> saw x (trace t) \<or>
     requests new = w * (limit + 1 - count) \<and> (\<exists>r. good r = None \<and> x = giveUp r))"
  using assms
proof (induction "limit - count" arbitrary: count s)
  case 0
  then have full: "limit + 1 - count = 1" "Suc count > limit" by simp_all
  from 0 obtain r u n1 v n2 where R: "trace u = n1 @ trace s" "requests n1 = w" "trace v = n2 @ trace u"
      "requests n2 = 0" "\<And>x. good r = Some x \<Longrightarrow> saw x (trace u)"
      "loop count s = (case good r of Some x \<Rightarrow> (Ret x, u)
        | None \<Rightarrow> if Suc count > limit then (Ret (giveUp r), v) else loop (Suc count) v)"
    using one_round [of count s] by metis
  show ?case
    by (cases "good r"; intro exI [of _ "case good r of Some x \<Rightarrow> x | None \<Rightarrow> giveUp r"]
        exI [of _ "if good r = None then v else u"] exI [of _ "if good r = None then n2 @ n1 else n1"])
      (use R full in auto)
next
  case (Suc k)
  then have less: "Suc count \<le> limit" "k = limit - Suc count"
      and total: "limit + 1 - count = Suc (limit + 1 - Suc count)" by auto
  obtain r u n1 v n2 where R: "trace u = n1 @ trace s" "requests n1 = w" "trace v = n2 @ trace u"
      "requests n2 = 0" "\<And>x. good r = Some x \<Longrightarrow> saw x (trace u)"
      "loop count s = (case good r of Some x \<Rightarrow> (Ret x, u)
        | None \<Rightarrow> if Suc count > limit then (Ret (giveUp r), v) else loop (Suc count) v)"
    using one_round [OF Suc.prems, of s] by metis
  obtain x t new where IH: "loop (Suc count) v = (Ret x, t)" "trace t = new @ trace v"
      "requests new \<le> w * (limit + 1 - Suc count)"
      "(\<exists>r. good r = Some x) \<and> saw x (trace t) \<or>
       requests new = w * (limit + 1 - Suc count) \<and> (\<exists>r. good r = None \<and> x = giveUp r)"
    using Suc.hyps(1) [OF less(2) less(1), of v] by blast
  show ?case
  proof (cases "good r")
    case None
    then show ?thesis
      by (intro exI [of _ x] exI [of _ t] exI [of _ "new @ n2 @ n1"])
        (use R IH less total in \<open>auto simp del: Suc_diff_le\<close>)
  next
    case (Some y)
    then show ?thesis
      by (intro exI [of _ y] exI [of _ u] exI [of _ n1]) (use R total in auto)
  qed
qed

end

section \<open>The waits of the upgrade\<close>

definition secretFlagUrl :: string where
  "secretFlagUrl = localUrl dcUpgradeListenPort ''/secretflag''"

definition upgradeFlagUrl :: string where
  "upgradeFlagUrl = localUrl dcUpgradeListenPort ''/upgradeflag''"

text \<open>Both results of \<open>waitDcUpdateGetPeerSecret\<close>; the ticker fires after a second.\<close>

function waitDcUpdateLoop :: "env \<Rightarrow> nat \<Rightarrow> (bool \<times> err) go" where
  "waitDcUpdateLoop E count =
     andThen (sleep 1)
    (bnd (HttpGet E secretFlagUrl []) (\<lambda>r. case r of
       Inl e \<Rightarrow> if Suc count > 60 then ret (False, Some e) else waitDcUpdateLoop E (Suc count)
     | Inr flag \<Rightarrow>
         if flag = ''true'' then ret (True, None)
         else if Suc count > 60
              then ret (False, Some (GoErr ''dcupdate get peer secret timeout''))
              else waitDcUpdateLoop E (Suc count)))"
  by pat_completeness auto
termination
  by (relation "measure (\<lambda>(E, count). 61 - count)") auto

declare waitDcUpdateLoop.simps [simp del]

definition waitDcUpdateGetPeerSecret :: "env \<Rightarrow> (bool \<times> err) go" where
  "waitDcUpdateGetPeerSecret E = waitDcUpdateLoop E 0"

text \<open>In \<open>waitNewDcGetPeerSecret\<close> a failed request is not counted: the loop may run for
  ever and has fuel.\<close>

fun waitNewDcLoop :: "env \<Rightarrow> nat \<Rightarrow> nat \<Rightarrow> (bool \<times> err) go" where
  "waitNewDcLoop E 0 count = noFuel"
| "waitNewDcLoop E (Suc fuel) count =
     andThen (sleep 1)
    (bnd (HttpGet E upgradeFlagUrl []) (\<lambda>r. case r of
       Inl e \<Rightarrow> waitNewDcLoop E fuel count
     | Inr flag \<Rightarrow>
         if flag = ''true'' then ret (True, None)
         else if Suc count > 600
              then ret (False, Some (GoErr ''new version dcstorage get peer secret timeout''))
              else waitNewDcLoop E fuel (Suc count)))"

definition waitNewDcGetPeerSecret :: "env \<Rightarrow> nat \<Rightarrow> (bool \<times> err) go" where
  "waitNewDcGetPeerSecret E fuel = waitNewDcLoop E fuel 0"

lemma waitDcUpdateLoop_unfold:
  "waitDcUpdateLoop E count = bnd (andThen (sleep 1) (HttpGet E secretFlagUrl [])) (\<lambda>r.
     case (case r of Inr flag \<Rightarrow> if flag = ''true'' then Some (True, None) else None | Inl _ \<Rightarrow> None) of
       Some x \<Rightarrow> ret x
     | None \<Rightarrow> andThen (ret ()) (if Suc count > 60
         then ret (False, Some (case r of Inl e \<Rightarrow> e
                | Inr _ \<Rightarrow> GoErr ''dcupdate get peer secret timeout''))
         else waitDcUpdateLoop E (Suc count)))"
  by (rule ext, subst waitDcUpdateLoop.simps)
    (simp add: run andThen_def sleep_def emit_def split: sum.split)

lemma pccsWait_unfold:
  "i < 10 \<Longrightarrow> pccsWait E i = bnd (HttpGetWithoutCheckCert E pccsUrl []) (\<lambda>r.
     case (case r of Inr _ \<Rightarrow> Some True | Inl _ \<Rightarrow> None) of
       Some x \<Rightarrow> ret x
     | None \<Rightarrow> andThen (sleep 2) (if Suc i > 9 then ret False else pccsWait E (Suc i)))"
proof -
  assume i: "i < 10"
  let ?next = "if Suc i > 9 then ret False else pccsWait E (Suc i)"
  have same: "?next = pccsWait E (Suc i)" by (simp add: pccsWait.simps [of E "Suc i"])
  have "(\<lambda>r. case r of Inr _ \<Rightarrow> ret True | Inl _ \<Rightarrow> andThen (sleep 2) (pccsWait E (Suc i))) =
      (\<lambda>r :: goerr + string. case (case r of Inr _ \<Rightarrow> Some True | Inl _ \<Rightarrow> None) of
       Some x \<Rightarrow> ret x | None \<Rightarrow> andThen (sleep 2) ?next)"
    unfolding same by (intro ext) (simp split: sum.split)
  then show ?thesis using i by (subst pccsWait.simps) simp
qed

lemma httpGetInsecure_one:
  "\<exists>new r. trace (snd (HttpGetWithoutCheckCert E u a s)) = new @ trace s \<and>
     requests new = (if eNewRequest E (withArgs u a) = None then 1 else 0) \<and>
     fst (HttpGetWithoutCheckCert E u a s) = Ret r"
  by (cases "eNewRequest E (withArgs u a)")
    (auto simp: HttpGetWithoutCheckCert_def httpDo_def run requests_def)

interpretation waitDcUpdate: polling "waitDcUpdateLoop E"
    "andThen (sleep 1) (HttpGet E secretFlagUrl [])" "ret ()"
    "\<lambda>r. case r of Inr flag \<Rightarrow> if flag = ''true'' then Some (True, None) else None | Inl _ \<Rightarrow> None"
    "\<lambda>r. (False, Some (case r of Inl e \<Rightarrow> e | Inr _ \<Rightarrow> GoErr ''dcupdate get peer secret timeout''))"
    60 1 "\<lambda>x h. \<exists>old. h = EvHttp GET secretFlagUrl (HttpResp 200 ''true'' None) # old" for E
proof unfold_locales
  fix s u r x
  assume "andThen (sleep 1) (HttpGet E secretFlagUrl []) s = (Ret r, u)"
    "(case r of Inr flag \<Rightarrow> if flag = ''true'' then Some (True, None :: err) else None | Inl _ \<Rightarrow> None) = Some x"
  then show "\<exists>old. trace u = EvHttp GET secretFlagUrl (HttpResp 200 ''true'' None) # old"
    by (auto simp: andThen_def sleep_def emit_def run withArgs_def httpResult_ok split: sum.splits if_splits)
next
  fix s :: st
  show "\<exists>r. fst (andThen (sleep 1) (HttpGet E secretFlagUrl []) s) = Ret r"
    by (simp add: andThen_def sleep_def emit_def run)
  show "\<exists>new. trace (snd (andThen (sleep 1) (HttpGet E secretFlagUrl []) s)) = new @ trace s \<and>
      requests new = 1"
    by (simp add: andThen_def sleep_def emit_def run requests_def)
qed (rule waitDcUpdateLoop_unfold, simp_all add: run requests_def)

interpretation pccsStart: polling "pccsWait E" "HttpGetWithoutCheckCert E pccsUrl []" "sleep 2"
    "\<lambda>r. case r of Inr _ \<Rightarrow> Some True | Inl _ \<Rightarrow> None" "\<lambda>_. False" 9
    "if eNewRequest E (withArgs pccsUrl []) = None then 1 else 0"
    "\<lambda>x h. \<exists>body old. body \<noteq> [] \<and> h = EvHttp GET_insecure pccsUrl (HttpResp 200 body None) # old" for E
proof unfold_locales
  fix s u r and x :: bool
  assume "HttpGetWithoutCheckCert E pccsUrl [] s = (Ret r, u)"
    "(case r of Inr _ \<Rightarrow> Some True | Inl _ \<Rightarrow> None) = Some x"
  then show "\<exists>body old. body \<noteq> [] \<and> trace u = EvHttp GET_insecure pccsUrl (HttpResp 200 body None) # old"
    by (auto simp: HttpGetWithoutCheckCert_def httpDo_def run withArgs_def httpResult_ok
        split: sum.splits option.splits)
next
  fix count s assume "count \<le> (9::nat)"
  then show "pccsWait E count = bnd (HttpGetWithoutCheckCert E pccsUrl []) (\<lambda>r.
     case (case r of Inr _ \<Rightarrow> Some True | Inl _ \<Rightarrow> None) of
       Some x \<Rightarrow> ret x
     | None \<Rightarrow> andThen (sleep 2) (if 9 < Suc count then ret False else pccsWait E (Suc count)))"
    using pccsWait_unfold [of count E] by simp
next
  fix s :: st
  show "\<exists>r. fst (HttpGetWithoutCheckCert E pccsUrl [] s) = Ret r"
    and "\<exists>new. trace (snd (HttpGetWithoutCheckCert E pccsUrl [] s)) = new @ trace s \<and>
      requests new = (if eNewRequest E (withArgs pccsUrl []) = None then 1 else 0)"
    using httpGetInsecure_one [of E pccsUrl "[]" s] by auto
qed (simp_all add: run sleep_def emit_def requests_def)

section \<open>The contracts of the services\<close>

fun plainEvent :: "event \<Rightarrow> bool" where
  "plainEvent (EvClient _) = True"
| "plainEvent (EvList _ _) = True"
| "plainEvent (EvInspect _ _) = True"
| "plainEvent (EvHttp _ _ _) = True"
| "plainEvent (EvOutput _ _) = True"
| "plainEvent (EvPrint _) = True"
| "plainEvent (EvSleep _) = True"
| "plainEvent _ = False"

text \<open>Starting dcstorage may replace the pccs and report-server containers by their names,
  and create and start dcstorage; it never stops or removes anything else.\<close>

definition nodeStartEvent :: "event \<Rightarrow> bool" where
  "nodeStartEvent e \<longleftrightarrow> plainEvent e \<or> volumeEvent e \<or> startEvent True pccsContainerName e \<or>
     startEvent True teeReportServerContainerName e \<or> startEvent False nodeContainerName e"

lemma emits_pccsWait: "emits plainEvent (pccsWait E i)"
proof (induction E i rule: pccsWait.induct)
  case (1 E i)
  then show ?case
    by (subst pccsWait.simps) (auto simp: sleep_def intro!: emits_intro)
qed

lemma keeps_pccsWait: "keeps RunningConfig (pccsWait E i)"
proof (induction E i rule: pccsWait.induct)
  case (1 E i)
  then show ?case
    by (subst pccsWait.simps) (auto simp: sleep_def intro!: emits_intro)
qed

lemma emits_containerStatus [emits_intro]: "(\<And>e. plainEvent e \<Longrightarrow> A e) \<Longrightarrow> emits A (containerStatus E n)"
  unfolding containerStatus_def findContainerIdByName_def effects by (intro emits_intro; simp)

lemma keeps_containerStatus [emits_intro]:
  "(\<And>s h. g (s\<lparr>trace := h\<rparr>) = g s) \<Longrightarrow> keeps g (containerStatus E n)"
  unfolding containerStatus_def findContainerIdByName_def effects by (intro emits_intro; simp)

interpretation nodeStatus: component "checkDcnodeStatus E" plainEvent for E
  by unfold_locales (unfold checkDcnodeStatus_def, (intro emits_intro; simp)+)

interpretation pccsStatus: component "checkPccsStatus E" plainEvent for E
  by unfold_locales (unfold checkPccsStatus_def, (intro emits_intro; simp)+)

interpretation pccsRun: component "runPccsInDocker E"
    "\<lambda>e. plainEvent e \<or> startEvent True pccsContainerName e" for E
proof unfold_locales
  show "emits (\<lambda>e. plainEvent e \<or> startEvent True pccsContainerName e) (runPccsInDocker E)"
    unfolding runPccsInDocker_def GetPidWithListenPort_def println_def
    by (intro emits_intro emits_mono [OF emits_pccsWait] startContainer.weaken; simp)
  show "keeps RunningConfig (runPccsInDocker E)"
    unfolding runPccsInDocker_def GetPidWithListenPort_def println_def
    by (intro emits_intro keeps_pccsWait startContainer.config; simp)
qed

interpretation teeStart: component "startTeeReportServerDocker E"
    "\<lambda>e. volumeEvent e \<or> startEvent True teeReportServerContainerName e" for E
proof unfold_locales
  show "emits (\<lambda>e. volumeEvent e \<or> startEvent True teeReportServerContainerName e)
      (startTeeReportServerDocker E)"
    unfolding startTeeReportServerDocker_def
    by (intro emits_intro startContainer.weaken createVolume.weaken; simp)
  show "keeps RunningConfig (startTeeReportServerDocker E)"
    unfolding startTeeReportServerDocker_def
    by (intro emits_intro startContainer.config createVolume.config)
qed

interpretation nodeStart1: component "startDcnodeInDocker E"
    "\<lambda>e. volumeEvent e \<or> startEvent False nodeContainerName e" for E
proof unfold_locales
  show "emits (\<lambda>e. volumeEvent e \<or> startEvent False nodeContainerName e) (startDcnodeInDocker E)"
    unfolding startDcnodeInDocker_def
    by (intro emits_intro startContainer.weaken createVolume.weaken; simp)
  show "keeps RunningConfig (startDcnodeInDocker E)"
    unfolding startDcnodeInDocker_def
    by (intro emits_intro startContainer.config createVolume.config)
qed

interpretation nodeStart: component "startDcStorageNode E" nodeStartEvent for E
proof unfold_locales
  show "emits nodeStartEvent (startDcStorageNode E)"
    unfolding startDcStorageNode_def println_def
    by (intro emits_intro pccsRun.weaken teeStart.weaken nodeStart1.weaken)
      (auto simp: nodeStartEvent_def)
  show "keeps RunningConfig (startDcStorageNode E)"
    unfolding startDcStorageNode_def println_def
    by (intro emits_intro pccsRun.config teeStart.config nodeStart1.config; simp)
qed

interpretation chainStart: component "startDcChain E"
    "\<lambda>e. plainEvent e \<or> (\<exists>p r. e = EvStat p r) \<or> (\<exists>p r. e = EvMkdirAll p r) \<or>
       startEvent True chainContainerName e" for E
proof unfold_locales
  show "emits (\<lambda>e. plainEvent e \<or> (\<exists>p r. e = EvStat p r) \<or> (\<exists>p r. e = EvMkdirAll p r) \<or>
       startEvent True chainContainerName e) (startDcChain E)"
    unfolding startDcChain_def startDcchainInDocker_def println_def osStat_def osMkdirAll_def
    by (intro emits_intro startContainer.weaken; simp)
  show "keeps RunningConfig (startDcChain E)"
    unfolding startDcChain_def startDcchainInDocker_def println_def osStat_def osMkdirAll_def
    by (intro emits_intro startContainer.config; simp)
qed

interpretation upgradeStart: component "startDcupgradeInDocker E"
    "startEvent True upgradeContainerName" for E
proof unfold_locales
  show "emits (startEvent True upgradeContainerName) (startDcupgradeInDocker E)"
    unfolding startDcupgradeInDocker_def by (intro emits_intro startContainer.weaken; simp)
  show "keeps RunningConfig (startDcupgradeInDocker E)"
    unfolding startDcupgradeInDocker_def by (intro emits_intro startContainer.config)
qed

interpretation upgradeStop: component "stopUpgradeInDocker E" "stopEvent 10" for E
proof unfold_locales
  show "emits (stopEvent 10) (stopUpgradeInDocker E)"
    unfolding stopUpgradeInDocker_def by (intro emits_intro stopContainer.weaken; simp)
  show "keeps RunningConfig (stopUpgradeInDocker E)"
    unfolding stopUpgradeInDocker_def by (intro emits_intro stopContainer.config)
qed

interpretation nodeStop: component "stopDcnodeInDocker E" "stopEvent 60" for E
  unfolding stopDcnodeInDocker_def by (rule stopContainer.component_axioms)

interpretation versionGet: component "getVersionByHttpGet E p" plainEvent for E p
  by unfold_locales (unfold getVersionByHttpGet_def, (intro emits_intro; simp)+)

lemma emits_waitDcUpdate: "emits plainEvent (waitDcUpdateLoop E count)"
proof (induction E count rule: waitDcUpdateLoop.induct)
  case (1 E count)
  then show ?case
    by (subst waitDcUpdateLoop.simps) (auto simp: sleep_def intro!: emits_intro)
qed

lemma keeps_waitDcUpdate: "keeps RunningConfig (waitDcUpdateLoop E count)"
proof (induction E count rule: waitDcUpdateLoop.induct)
  case (1 E count)
  then show ?case
    by (subst waitDcUpdateLoop.simps) (auto simp: sleep_def intro!: emits_intro)
qed

interpretation secretWait: component "waitDcUpdateGetPeerSecret E" plainEvent for E
  unfolding waitDcUpdateGetPeerSecret_def
  by unfold_locales (rule emits_waitDcUpdate keeps_waitDcUpdate)+

lemma emits_waitNewDc: "emits plainEvent (waitNewDcLoop E fuel count)"
  by (induction fuel arbitrary: count) (auto simp: sleep_def intro!: emits_intro)

lemma keeps_waitNewDc: "keeps RunningConfig (waitNewDcLoop E fuel count)"
  by (induction fuel arbitrary: count) (auto simp: sleep_def intro!: emits_intro)

interpretation newSecretWait: component "waitNewDcGetPeerSecret E fuel" plainEvent for E fuel
  unfolding waitNewDcGetPeerSecret_def
  by unfold_locales (rule emits_waitNewDc keeps_waitNewDc)+

section \<open>Properties\<close>

lemma waitDcUpdate_outcome:
  "\<exists>ok e t new. waitDcUpdateGetPeerSecret E s = (Ret (ok, e), t) \<and> trace t = new @ trace s \<and>
     requests new \<le> 61 \<and>
     (if ok then e = None \<and> (\<exists>old. new = EvHttp GET secretFlagUrl (HttpResp 200 ''true'' None) # old)
      else e \<noteq> None \<and> requests new = 61)"
proof -
  obtain x t new where o: "waitDcUpdateLoop E 0 s = (Ret x, t)" "trace t = new @ trace s"
      "1 \<le> requests new" "requests new \<le> 1 * (60 + 1 - 0)"
      "(\<exists>r :: goerr + string. (case r of Inr flag \<Rightarrow> if flag = ''true'' then Some (True, None) else None | Inl _ \<Rightarrow> None) = Some x) \<and>
        (\<exists>old. trace t = EvHttp GET secretFlagUrl (HttpResp 200 ''true'' None) # old) \<or>
       requests new = 1 * (60 + 1 - 0) \<and>
        (\<exists>r. (case r of Inr flag \<Rightarrow> if flag = ''true'' then Some (True, None :: err) else None | Inl _ \<Rightarrow> None) = None \<and>
          x = (False, Some (case r of Inl e \<Rightarrow> e | Inr _ \<Rightarrow> GoErr ''dcupdate get peer secret timeout'')))"
    using waitDcUpdate.outcome [of 0 E s] by blast
  obtain ok e where x: "x = (ok, e)" by fastforce
  have good: "(case r of Inr flag \<Rightarrow> if flag = ''true'' then Some (True, None) else None | Inl _ \<Rightarrow> None)
      = Some (ok, e) \<longleftrightarrow> r = Inr ''true'' \<and> ok \<and> e = None" for r :: "goerr + string"
    by (cases r) auto
  have "new \<noteq> []" using o(3) by (auto simp: requests_def)
  then have newest: "trace t = e1 # old \<Longrightarrow> \<exists>old'. new = e1 # old'" for e1 old
    using o(2) by (cases new) auto
  have "if ok then e = None \<and> (\<exists>old. new = EvHttp GET secretFlagUrl (HttpResp 200 ''true'' None) # old)
      else e \<noteq> None \<and> requests new = 61"
    using o(5) good newest unfolding x by auto
  then show ?thesis using o(1,2,4) unfolding x waitDcUpdateGetPeerSecret_def by auto
qed

lemma waitDcUpdate_seen:
  assumes "waitDcUpdateGetPeerSecret E s = (Ret (ok, None), t)"
  shows "\<exists>old. trace t = EvHttp GET secretFlagUrl (HttpResp 200 ''true'' None) # old @ trace s"
  using waitDcUpdate_outcome [of E s] assms by (auto split: if_splits)

lemma waitNewDc_seen:
  "waitNewDcLoop E fuel count s = (Ret (ok, None), t) \<Longrightarrow>
   \<exists>old. trace t = EvHttp GET upgradeFlagUrl (HttpResp 200 ''true'' None) # old @ trace s"
proof (induction fuel arbitrary: count s)
  case 0
  then show ?case by (simp add: run)
next
  case (Suc fuel)
  let ?r = "eHttp E (EvSleep 1 # trace s) GET upgradeFlagUrl"
  let ?u = "s\<lparr>trace := EvHttp GET upgradeFlagUrl ?r # EvSleep 1 # trace s\<rparr>"
  have more: "\<exists>old. trace t = EvHttp GET upgradeFlagUrl (HttpResp 200 ''true'' None) # old @ trace s"
    if again: "waitNewDcLoop E fuel c ?u = (Ret (ok, None), t)" for c
  proof -
    obtain old where "trace t = EvHttp GET upgradeFlagUrl (HttpResp 200 ''true'' None) # old @ trace ?u"
      using Suc.IH [OF again] by blast
    then show ?thesis
      by (intro exI [of _ "old @ [EvHttp GET upgradeFlagUrl ?r, EvSleep 1]"]) simp
  qed
  show ?case using Suc.prems more
    by (auto simp: andThen_def sleep_def emit_def run withArgs_def httpResult_ok
        split: sum.splits if_splits)
qed

text \<open>C27: during an upgrade the wait for dcupgrade to fetch the node's key always ends, after
  at most 61 requests. It ends without an error exactly when it reports success, and then
  the newest thing it saw is dcupgrade's reply \<open>true\<close>; a failure comes only after all
  61 requests.\<close>

theorem waitDcUpdate_bounded:
  "\<exists>ok e t new. waitDcUpdateGetPeerSecret E s = (Ret (ok, e), t) \<and> trace t = new @ trace s \<and>
     requests new \<le> 61 \<and>
     (if ok then e = None \<and> (\<exists>old. new = EvHttp GET secretFlagUrl (HttpResp 200 ''true'' None) # old)
      else e \<noteq> None \<and> requests new = 61)"
  by (rule waitDcUpdate_outcome)

lemma waitNewDc_round:
  assumes "body \<noteq> []" and "eHttp E (EvSleep 1 # trace s) GET upgradeFlagUrl = HttpResp 200 body None"
    and "u = s\<lparr>trace := EvHttp GET upgradeFlagUrl (HttpResp 200 body None) # EvSleep 1 # trace s\<rparr>"
  shows "waitNewDcLoop E (Suc fuel) count s =
    (if body = ''true'' then (Ret (True, None), u)
     else if Suc count > 600
          then (Ret (False, Some (GoErr ''new version dcstorage get peer secret timeout'')), u)
     else waitNewDcLoop E fuel (Suc count) u)"
  using assms by (simp add: andThen_def sleep_def emit_def run withArgs_def httpResult_def)

text \<open>\<open>waited ok e new n\<close>: a wait that ended within \<open>n\<close> requests, as the result says.\<close>

definition waited :: "bool \<Rightarrow> err \<Rightarrow> history \<Rightarrow> nat \<Rightarrow> bool" where
  "waited ok e new n \<longleftrightarrow> requests new \<le> n \<and>
     (if ok then e = None \<and> (\<exists>old. new = EvHttp GET upgradeFlagUrl (HttpResp 200 ''true'' None) # old)
      else e \<noteq> None \<and> requests new = n)"

lemma waitNewDcLoop_answered:
  assumes "\<And>h. \<exists>body. body \<noteq> [] \<and> eHttp E h GET upgradeFlagUrl = HttpResp 200 body None"
    and "count \<le> 600" and "601 \<le> fuel + count"
  shows "\<exists>ok e t new. waitNewDcLoop E fuel count s = (Ret (ok, e), t) \<and> trace t = new @ trace s \<and>
    waited ok e new (601 - count)"
  using assms(2,3)
proof (induction fuel arbitrary: count s)
  case 0
  then show ?case by simp
next
  case (Suc fuel)
  obtain body where b: "body \<noteq> []"
      "eHttp E (EvSleep 1 # trace s) GET upgradeFlagUrl = HttpResp 200 body None" using assms(1) by blast
  let ?new = "[EvHttp GET upgradeFlagUrl (HttpResp 200 body None), EvSleep 1]"
  define u where "u = s\<lparr>trace := ?new @ trace s\<rparr>"
  note step = waitNewDc_round [OF b, of u fuel count]
  show ?case
  proof (cases "body = ''true'' \<or> Suc count > 600")
    case True
    then show ?thesis using Suc.prems
      by (intro exI [of _ "body = ''true''"]
          exI [of _ "if body = ''true'' then None
            else Some (GoErr ''new version dcstorage get peer secret timeout'')"]
          exI [of _ u] exI [of _ ?new])
        (auto simp: u_def step waited_def requests_def simp del: waitNewDcLoop.simps)
  next
    case False
    obtain ok e t new where "waitNewDcLoop E fuel (Suc count) u = (Ret (ok, e), t)"
        "trace t = new @ trace u" "waited ok e new (601 - Suc count)"
      using Suc.IH [of "Suc count" u] False Suc.prems by auto
    then show ?thesis using step False
      by (intro exI [of _ ok] exI [of _ e] exI [of _ t] exI [of _ "new @ ?new"])
        (auto simp: u_def waited_def requests_def simp del: waitNewDcLoop.simps split: if_splits)
  qed
qed

text \<open>C28: the wait for the new dcstorage to fetch the key back counts only answered
  requests. If dcupgrade answers every request, 601 rounds are enough fuel: it returns
  within 601 requests, and succeeds only by the reply \<open>true\<close>.\<close>

theorem waitNewDc_answered:
  assumes "\<And>h. \<exists>body. body \<noteq> [] \<and> eHttp E h GET upgradeFlagUrl = HttpResp 200 body None"
    and "601 \<le> fuel"
  shows "\<exists>ok e t new. waitNewDcGetPeerSecret E fuel s = (Ret (ok, e), t) \<and> trace t = new @ trace s \<and>
     requests new \<le> 601 \<and>
     (if ok then e = None \<and> (\<exists>old. new = EvHttp GET upgradeFlagUrl (HttpResp 200 ''true'' None) # old)
      else e \<noteq> None \<and> requests new = 601)"
  using waitNewDcLoop_answered [OF assms(1), of 0 fuel s] assms(2)
  unfolding waitNewDcGetPeerSecret_def waited_def by (simp only: add_0_right diff_zero le0 simp_thms)

theorem waitNewDc_answered_witness:
  "\<exists>ok e t. waitNewDcGetPeerSecret (nullEnv\<lparr>eHttp := \<lambda>_ _ _. HttpResp 200 ''false'' None\<rparr>) 601 initSt
     = (Ret (ok, e), t)"
  using waitNewDc_answered [of "nullEnv\<lparr>eHttp := \<lambda>_ _ _. HttpResp 200 ''false'' None\<rparr>" 601 initSt]
  by (auto simp: sample)

text \<open>C29: a failed request is not counted, so the same wait has no bound: if dcupgrade
  answers none of the requests, no amount of fuel makes it return. The daemon then hangs in
  the middle of an upgrade, with the old dcstorage already removed.\<close>

theorem waitNewDc_unanswered:
  assumes "\<And>h body. eHttp E h GET upgradeFlagUrl \<noteq> HttpResp 200 body None"
  shows "fst (waitNewDcGetPeerSecret E fuel s) = NoFuel"
proof -
  have "fst (waitNewDcLoop E fuel count s) = NoFuel" for count
  proof (induction fuel arbitrary: s)
    case 0
    then show ?case by (simp add: run)
  next
    case (Suc fuel)
    obtain e where "httpResult ''get'' (eHttp E (EvSleep 1 # trace s) GET upgradeFlagUrl) = Inl e"
      using assms by (metis httpResult_ok sum.exhaust)
    then show ?case using Suc by (simp add: andThen_def sleep_def emit_def run withArgs_def)
  qed
  then show ?thesis by (simp add: waitNewDcGetPeerSecret_def)
qed

theorem waitNewDc_unanswered_witness:
  "fst (waitNewDcGetPeerSecret nullEnv 100000 initSt) = NoFuel"
  using waitNewDc_unanswered [of nullEnv 100000 initSt] by (simp add: sample)

text \<open>\<open>GetPidWithListenPort\<close> yields a process only when the command's output, as it
  is, parses as a number of 32 bits: never for an output that ends in a newline, as the
  output of every line-oriented command does. So a pccs that already listens on its port
  is never recognised.\<close>

lemma GetPidWithListenPort_pid:
  "fst (GetPidWithListenPort E port s) = Ret (pid, None) \<longleftrightarrow>
   (\<exists>out. eOutput E (trace s) (lsofCommand port) = Inr (Some out) \<and> parseInt 32 out = (pid, None) \<and>
      last out \<noteq> CHR ''\<newline>'')"
proof -
  have "last out \<noteq> CHR ''\<newline>''" if "parseInt 32 out = (pid, None)" for out
  proof
    assume "last out = CHR ''\<newline>''"
    moreover have "out \<noteq> []" using that by (auto simp: parseInt_def)
    ultimately have "out = butlast out @ [CHR ''\<newline>'']" by (metis append_butlast_last_id)
    then show False using parseInt_bad_last [of "CHR ''\<newline>''" 32 "butlast out"] that
      by (simp add: digitVal_def)
  qed
  then show ?thesis
    by (auto simp: GetPidWithListenPort_def run split: sum.splits option.splits prod.splits)
qed

text \<open>\<open>startDcupgradeInDocker\<close> drops the error of the start: it always returns
  \<open>nil\<close>, so the upgrade goes on to wait for a dcupgrade that does not run.\<close>

lemma startDcupgrade_nil: "fst (startDcupgradeInDocker E s) = Ret None"
proof -
  have "\<exists>e. fst (StartContainer E n b c hc u) = Ret e" for n b c hc u
    by (auto simp: StartContainer_def createContainer_def ensureStarted_def checkE_def tryE_def
        effects run split: option.split sum.split)
  then obtain e where "fst (StartContainer E upgradeContainerName True
        \<lparr>Image = UpgradeImage (RunningConfig s), Entrypoint = [], Env = []\<rparr>
        (hostSettings [] sgxDevices (Some (jsonLog ''10m''))) s) = Ret e" by blast
  then show ?thesis
    by (cases "StartContainer E upgradeContainerName True
        \<lparr>Image = UpgradeImage (RunningConfig s), Entrypoint = [], Env = []\<rparr>
        (hostSettings [] sgxDevices (Some (jsonLog ''10m''))) s")
      (simp add: startDcupgradeInDocker_def andThen_def run)
qed

end
