(* ===== verification/DaemonSpec.thy ===== *)
theory DaemonSpec
  imports Docker Sample
begin

text \<open>
  An abstract specification of what the container helpers achieve. The Docker daemon is
  not part of the sources; \<open>dockerOK\<close> states the part of its documented behaviour the
  helpers rely on, against an abstract daemon whose containers are a function of the
  events so far: a listing reports the containers (the running ones unless all are asked
  for), an inspection reports
  whether the container runs (and refuses an empty reference), a creation succeeds only under
  a free name and gives a fresh identifier, and reports a conflict only for a name in use, and a container call that reports success has
  had its effect on the container it names by identifier or by name.

  The refinement lemmas say what a helper that reports success has done to the abstract
  daemon: the named container runs with the wanted image, is stopped, or is gone, and
  no other container has changed.
\<close>

section \<open>The abstract daemon\<close>

record daemonContainer =
  d_id :: string
  d_name :: string
  d_image :: string
  d_running :: bool

definition refers :: "string \<Rightarrow> daemonContainer \<Rightarrow> bool" where
  "refers r c = (r = d_id c \<or> r = d_name c)"

definition setRunning :: "bool \<Rightarrow> string \<Rightarrow> daemonContainer list \<Rightarrow> daemonContainer list" where
  "setRunning b r d = map (\<lambda>c. if refers r c then c\<lparr>d_running := b\<rparr> else c) d"

fun daemonStep :: "event \<Rightarrow> daemonContainer list \<Rightarrow> daemonContainer list" where
  "daemonStep (EvCreate c hc n (Inr i)) d =
     d @ [\<lparr>d_id = i, d_name = n, d_image = Image c, d_running = False\<rparr>]"
| "daemonStep (EvStart r None) d = setRunning True r d"
| "daemonStep (EvStop r t None) d = setRunning False r d"
| "daemonStep (EvRemove r None) d = filter (\<lambda>c. \<not> refers r c) d"
| "daemonStep e d = d"

definition daemonAt :: "daemonContainer list \<Rightarrow> history \<Rightarrow> daemonContainer list" where
  "daemonAt d0 h = foldr daemonStep h d0"

lemma daemonAt_Cons [simp]: "daemonAt d0 (e # h) = daemonStep e (daemonAt d0 h)"
  by (simp add: daemonAt_def)

definition listed :: "daemonContainer \<Rightarrow> containerInfo" where
  "listed c = \<lparr>c_ID = d_id c, c_Names = [CHR ''/'' # d_name c], c_Image = d_image c\<rparr>"

text \<open>Identifiers are unique and not empty, names are unique, and no identifier is a name.\<close>

definition daemonInv :: "daemonContainer list \<Rightarrow> bool" where
  "daemonInv d \<longleftrightarrow> distinct (map d_id d) \<and> distinct (map d_name d) \<and> [] \<notin> d_id ` set d \<and>
     d_id ` set d \<inter> d_name ` set d = {}"

definition dockerOK :: "env \<Rightarrow> daemonContainer list \<Rightarrow> bool" where
  "dockerOK E d0 \<longleftrightarrow> (\<forall>h. let d = daemonAt d0 h in
     (\<forall>all cs. eList E h all = Inr cs \<longrightarrow> cs = map listed (filter (\<lambda>c. all \<or> d_running c) d)) \<and>
     (\<forall>r x. eInspect E h r = Inr x \<longrightarrow> r \<noteq> [] \<and> (\<exists>c \<in> set d. refers r c \<and> Running x = d_running c)) \<and>
     (\<forall>c hc n i. eCreate E h c hc n = Inr i \<longrightarrow>
        n \<notin> d_name ` set d \<and> n \<notin> d_id ` set d \<and> i \<noteq> [] \<and> i \<noteq> n \<and>
        i \<notin> d_id ` set d \<and> i \<notin> d_name ` set d) \<and>
     (\<forall>c hc n e. eCreate E h c hc n = Inl e \<longrightarrow> contains (errMsg e) (conflictMsg n) \<longrightarrow>
        n \<in> d_name ` set d))"

section \<open>Facts about the abstract daemon\<close>

lemma setRunning_simps [simp]:
  "map d_id (setRunning b r d) = map d_id d"
  "map d_name (setRunning b r d) = map d_name d"
  "d_id ` set (setRunning b r d) = d_id ` set d"
  "d_name ` set (setRunning b r d) = d_name ` set d"
proof -
  show a: "map d_id (setRunning b r d) = map d_id d"
    and b: "map d_name (setRunning b r d) = map d_name d"
    by (auto simp: setRunning_def)
  show "d_id ` set (setRunning b r d) = d_id ` set d"
    and "d_name ` set (setRunning b r d) = d_name ` set d"
    using arg_cong [OF a, of set] arg_cong [OF b, of set] by simp_all
qed

lemma daemonInv_setRunning [simp]: "daemonInv (setRunning b r d) = daemonInv d"
  by (simp add: daemonInv_def)

lemma daemonInv_filter: "daemonInv d \<Longrightarrow> daemonInv (filter p d)"
  by (auto simp: daemonInv_def distinct_map_filter)

lemma daemonInv_create:
  "daemonInv d \<Longrightarrow> n \<notin> d_name ` set d \<Longrightarrow> n \<notin> d_id ` set d \<Longrightarrow> i \<noteq> [] \<Longrightarrow> i \<noteq> n \<Longrightarrow>
   i \<notin> d_id ` set d \<Longrightarrow> i \<notin> d_name ` set d \<Longrightarrow>
   daemonInv (d @ [\<lparr>d_id = i, d_name = n, d_image = img, d_running = b\<rparr>])"
  by (auto simp: daemonInv_def)

lemma same_id: "daemonInv d \<Longrightarrow> c \<in> set d \<Longrightarrow> c' \<in> set d \<Longrightarrow> d_id c = d_id c' \<Longrightarrow> c = c'"
  by (auto simp: daemonInv_def distinct_map dest: inj_onD)

lemma same_name: "daemonInv d \<Longrightarrow> c \<in> set d \<Longrightarrow> c' \<in> set d \<Longrightarrow> d_name c = d_name c' \<Longrightarrow> c = c'"
  by (auto simp: daemonInv_def distinct_map dest: inj_onD)

lemma refers_id: "daemonInv d \<Longrightarrow> c \<in> set d \<Longrightarrow> c' \<in> set d \<Longrightarrow> refers (d_id c) c' \<longleftrightarrow> c' = c"
  using same_id unfolding refers_def daemonInv_def by blast

lemma refers_name: "daemonInv d \<Longrightarrow> c \<in> set d \<Longrightarrow> c' \<in> set d \<Longrightarrow> refers (d_name c) c' \<longleftrightarrow> c' = c"
  using same_name unfolding refers_def daemonInv_def by blast

lemma dockerOK_list:
  "dockerOK E d0 \<Longrightarrow> eList E h all = Inr cs \<Longrightarrow>
   cs = map listed (filter (\<lambda>c. all \<or> d_running c) (daemonAt d0 h))"
  by (simp add: dockerOK_def Let_def)

lemma dockerOK_inspect:
  "dockerOK E d0 \<Longrightarrow> eInspect E h r = Inr x \<Longrightarrow> r \<noteq> []"
  "dockerOK E d0 \<Longrightarrow> eInspect E h r = Inr x \<Longrightarrow>
   \<exists>c \<in> set (daemonAt d0 h). refers r c \<and> Running x = d_running c"
  by (simp_all add: dockerOK_def Let_def)

lemma dockerOK_create:
  "dockerOK E d0 \<Longrightarrow> eCreate E h c hc n = Inr i \<Longrightarrow>
   n \<notin> d_name ` set (daemonAt d0 h) \<and> n \<notin> d_id ` set (daemonAt d0 h) \<and> i \<noteq> [] \<and> i \<noteq> n \<and>
   i \<notin> d_id ` set (daemonAt d0 h) \<and> i \<notin> d_name ` set (daemonAt d0 h)"
  unfolding dockerOK_def Let_def by blast

lemma dockerOK_conflict:
  "dockerOK E d0 \<Longrightarrow> eCreate E h c hc n = Inl e \<Longrightarrow> contains (errMsg e) (conflictMsg n) \<Longrightarrow>
   n \<in> d_name ` set (daemonAt d0 h)"
  unfolding dockerOK_def Let_def by blast

lemma named_listed [simp]: "named n (listed c) \<longleftrightarrow> d_name c = n"
  by (auto simp: named_def listed_def)

lemma c_image_listed [simp]: "c_Image (listed c) = d_image c"
  and c_ID_listed [simp]: "c_ID (listed c) = d_id c"
  by (simp_all add: listed_def)

text \<open>What the lookups in a listing find.\<close>

lemma findCreated_listed:
  assumes "findCreated img n (map listed d) = Some i"
  obtains c where "c \<in> set d" and "d_name c = n" and "d_image c = img" and "d_id c = i"
proof -
  from assms obtain x where "lastMatch (\<lambda>c. img = c_Image c \<and> named n c) (map listed d) = Some x"
    and "i = c_ID x" by (auto simp: findCreated_def)
  then show ?thesis using that lastMatch_Some by fastforce
qed

lemma idByName_listed:
  assumes inv: "daemonInv d"
  shows "(idByName n (map listed d) = [] \<and> n \<notin> d_name ` set d) \<or>
    (\<exists>c \<in> set d. d_name c = n \<and> idByName n (map listed d) = d_id c \<and> d_id c \<noteq> [])"
proof (cases "lastMatch (named n) (map listed d)")
  case None
  then have "n \<notin> d_name ` set d" by (auto simp: lastMatch_None)
  then show ?thesis using None by (simp add: idByName_def)
next
  case (Some x)
  then obtain c where "c \<in> set d" "x = listed c" "d_name c = n"
    using lastMatch_Some by fastforce
  moreover have "d_id c \<noteq> []" using inv \<open>c \<in> set d\<close> by (force simp: daemonInv_def)
  ultimately show ?thesis using Some by (auto simp: idByName_def)
qed

text \<open>The containers that do not have the name.\<close>

definition others :: "string \<Rightarrow> daemonContainer list \<Rightarrow> daemonContainer list" where
  "others n d = filter (\<lambda>c. d_name c \<noteq> n) d"

lemma others_setRunning:
  assumes "daemonInv d" and "c \<in> set d" and "d_name c = n" and "r = d_id c \<or> r = n"
  shows "others n (setRunning b r d) = others n d"
proof -
  have "\<forall>x \<in> set d. d_name x \<noteq> n \<longrightarrow> \<not> refers r x"
    using assms refers_id refers_name by blast
  then show ?thesis
    unfolding others_def setRunning_def by (induction d) auto
qed

lemma others_absent: "n \<notin> d_name ` set d \<Longrightarrow> others n d = d"
  by (auto simp: others_def intro!: filter_True)

lemma setRunning_member:
  "c \<in> set d \<Longrightarrow> refers r c \<Longrightarrow> c\<lparr>d_running := b\<rparr> \<in> set (setRunning b r d)"
  unfolding setRunning_def by force

lemma others_remove:
  assumes "daemonInv d" and "c \<in> set d" and "d_name c = n" and "r = d_id c \<or> r = n"
  shows "others n (filter (\<lambda>c. \<not> refers r c) d) = others n d"
proof -
  have "\<forall>x \<in> set d. d_name x \<noteq> n \<longrightarrow> \<not> refers r x"
    using assms refers_id refers_name by blast
  then show ?thesis unfolding others_def filter_filter by (intro filter_cong) auto
qed

section \<open>Refinement of the container helpers\<close>

text \<open>\<open>onlyNamed n d d'\<close>: the step kept the daemon well formed and touched only the
  container named \<open>n\<close>.\<close>

definition onlyNamed :: "string \<Rightarrow> daemonContainer list \<Rightarrow> daemonContainer list \<Rightarrow> bool" where
  "onlyNamed n d d' \<longleftrightarrow> daemonInv d' \<and> others n d' = others n d"

lemma onlyNamed_refl: "daemonInv d \<Longrightarrow> onlyNamed n d d"
  by (simp add: onlyNamed_def)

lemma onlyNamed_trans: "onlyNamed n d d' \<Longrightarrow> onlyNamed n d' d'' \<Longrightarrow> onlyNamed n d d''"
  by (simp add: onlyNamed_def)

lemma onlyNamed_start:
  "daemonInv d \<Longrightarrow> c \<in> set d \<Longrightarrow> d_name c = n \<Longrightarrow> r = d_id c \<or> r = n \<Longrightarrow>
   onlyNamed n d (daemonStep (EvStart r e) d)"
  by (cases e) (simp_all add: onlyNamed_def others_setRunning)

lemma onlyNamed_stop:
  "daemonInv d \<Longrightarrow> c \<in> set d \<Longrightarrow> d_name c = n \<Longrightarrow> r = d_id c \<or> r = n \<Longrightarrow>
   onlyNamed n d (daemonStep (EvStop r t e) d)"
  by (cases e) (simp_all add: onlyNamed_def others_setRunning)

lemma onlyNamed_remove:
  "daemonInv d \<Longrightarrow> c \<in> set d \<Longrightarrow> d_name c = n \<Longrightarrow> r = d_id c \<or> r = n \<Longrightarrow>
   onlyNamed n d (daemonStep (EvRemove r e) d)"
  by (cases e) (simp_all add: onlyNamed_def others_remove daemonInv_filter)

lemma onlyNamed_create:
  assumes "daemonInv d" and "dockerOK E d0" and "d = daemonAt d0 h"
  shows "onlyNamed n d (daemonStep (EvCreate c hc n (eCreate E h c hc n)) d)"
proof (cases "eCreate E h c hc n")
  case (Inl e)
  then show ?thesis using assms by (simp add: onlyNamed_def)
next
  case (Inr i)
  then show ?thesis using assms dockerOK_create [OF assms(2) Inr]
    by (simp add: onlyNamed_def daemonInv_create) (simp add: others_def)
qed

lemma ensureStarted_refines:
  assumes ok: "dockerOK E d0" and d: "d = daemonAt d0 (trace s)" and inv: "daemonInv d"
    and c: "c \<in> set d" "d_name c = n" "d_id c = i"
    and step: "ensureStarted E i s = (r, t)"
  shows "onlyNamed n d (daemonAt d0 (trace t))"
    and "r = Ret None \<Longrightarrow> \<exists>c' \<in> set (daemonAt d0 (trace t)).
      d_name c' = n \<and> d_image c' = d_image c \<and> d_running c'"
proof -
  let ?x = "eInspect E (trace s) i"
  have "refers i c" using c by (simp add: refers_def)
  then have started: "c\<lparr>d_running := True\<rparr> \<in> set (setRunning True i d)"
    using c setRunning_member by blast
  have inspected: "?x = Inr x \<Longrightarrow> Running x = d_running c" for x
    using dockerOK_inspect(2) [OF ok] refers_id [OF inv] c d by blast
  show "onlyNamed n d (daemonAt d0 (trace t))"
  proof (cases "\<exists>x. ?x = Inr x \<and> \<not> Running x")
    case True
    then show ?thesis using step c d onlyNamed_start [OF inv c(1,2), of i None]
      onlyNamed_refl [OF inv]
      by (auto simp: ensureStarted_def tryE_def checkE_def ContainerInspect_def
          ContainerStart_def run split: option.splits)
  next
    case False
    then show ?thesis using step c d onlyNamed_refl [OF inv]
      by (auto simp: ensureStarted_def tryE_def ContainerInspect_def run split: sum.splits)
  qed
  show "\<exists>c' \<in> set (daemonAt d0 (trace t)).
      d_name c' = n \<and> d_image c' = d_image c \<and> d_running c'" if nil: "r = Ret None"
  proof -
    obtain x where x: "?x = Inr x"
      using step nil by (cases ?x) (auto simp: ensureStarted_def tryE_def ContainerInspect_def run)
    show ?thesis
    proof (cases "Running x")
      case True
      then have "daemonAt d0 (trace t) = d" using step d x
        by (auto simp: ensureStarted_def tryE_def ContainerInspect_def run)
      then show ?thesis using c inspected [OF x] True by blast
    next
      case False
      then have "daemonAt d0 (trace t) = setRunning True i d" using step nil d x
        by (auto simp: ensureStarted_def tryE_def checkE_def ContainerInspect_def
            ContainerStart_def run split: option.splits)
      then show ?thesis using started c by (intro bexI [of _ "c\<lparr>d_running := True\<rparr>"]) auto
    qed
  qed
qed

lemma createContainer_refines:
  assumes ok: "dockerOK E d0" and d: "d = daemonAt d0 (trace s)" and inv: "daemonInv d"
    and step: "createContainer E n b cfg hc s = (r, t)"
  shows "onlyNamed n d (daemonAt d0 (trace t))"
    and "r = Ret (Inr i) \<Longrightarrow> \<exists>c \<in> set (daemonAt d0 (trace t)).
      d_name c = n \<and> d_id c = i \<and> d_image c = Image cfg"
proof -
  let ?r1 = "eCreate E (trace s) cfg hc n"
  let ?s1 = "EvCreate cfg hc n ?r1 # trace s"
  let ?d1 = "daemonAt d0 ?s1"
  have d1: "onlyNamed n d ?d1" using onlyNamed_create [OF inv ok d] d by simp
  define replaces where "replaces = (\<exists>e. ?r1 = Inl e \<and> contains (errMsg e) (conflictMsg n) \<and> b)"
  let ?r2 = "eStop E ?s1 n None"
  let ?s2 = "EvStop n None ?r2 # ?s1"
  let ?r3 = "eRemove E ?s2 n"
  let ?s3 = "EvRemove n ?r3 # ?s2"
  let ?s4 = "EvCreate cfg hc n (eCreate E ?s3 cfg hc n) # ?s3"
  have trace_t: "trace t = (if \<not> replaces then ?s1 else if ?r2 \<noteq> None then ?s2
      else if ?r3 \<noteq> None then ?s3 else ?s4)"
    using step by (auto simp: replaces_def createContainer_def ContainerCreate_def ContainerStop_def
        ContainerRemove_def run split: sum.splits option.splits if_splits)
  have d3: "onlyNamed n d (daemonAt d0 ?s2) \<and> onlyNamed n d (daemonAt d0 ?s3)
      \<and> onlyNamed n d (daemonAt d0 ?s4)" if replaces
  proof -
    from that obtain e where e: "?r1 = Inl e" "contains (errMsg e) (conflictMsg n)"
      by (auto simp: replaces_def)
    then have same: "?d1 = d" using d by simp
    have "n \<in> d_name ` set d" using dockerOK_conflict [OF ok e] d by simp
    then obtain c where c: "c \<in> set d" "d_name c = n" by blast
    have d2: "onlyNamed n d (daemonAt d0 ?s2)"
      using onlyNamed_stop [OF inv c, of n None ?r2] same by simp
    have "n \<in> d_name ` set (daemonAt d0 ?s2)"
      using c same by (cases ?r2) force+
    then obtain c2 where "c2 \<in> set (daemonAt d0 ?s2)" "d_name c2 = n" by blast
    then have "onlyNamed n d (daemonAt d0 ?s3)"
      using onlyNamed_remove [of "daemonAt d0 ?s2" c2 n n ?r3] d2
      by (metis daemonAt_Cons onlyNamed_def)
    then have "onlyNamed n d (daemonAt d0 ?s4)"
      using onlyNamed_create [OF _ ok refl, of ?s3 n cfg hc] by (metis daemonAt_Cons onlyNamed_def)
    with d2 \<open>onlyNamed n d (daemonAt d0 ?s3)\<close> show ?thesis by blast
  qed
  show "onlyNamed n d (daemonAt d0 (trace t))"
    using trace_t d1 d3 by (auto simp del: daemonAt_Cons)
  show "\<exists>c \<in> set (daemonAt d0 (trace t)). d_name c = n \<and> d_id c = i \<and> d_image c = Image cfg"
    if "r = Ret (Inr i)"
    using step that by (auto simp: createContainer_def ContainerCreate_def ContainerStop_def
        ContainerRemove_def run split: sum.splits option.splits if_splits)
qed

section \<open>The contract of the container helpers\<close>

text \<open>
  What the clients of the helpers rely on: on a daemon that behaves as documented, the
  operation changes only the container named \<open>n\<close>, and returns \<open>nil\<close> only when it
  reached its goal.
\<close>

locale container_op =
  fixes E :: env and op1 :: "err go" and n :: string and goal :: "daemonContainer list \<Rightarrow> bool"
  assumes contract: "dockerOK E d0 \<Longrightarrow> daemonInv (daemonAt d0 (trace s)) \<Longrightarrow> op1 s = (r, t) \<Longrightarrow>
    onlyNamed n (daemonAt d0 (trace s)) (daemonAt d0 (trace t)) \<and>
    (r = Ret None \<longrightarrow> goal (daemonAt d0 (trace t)))"
begin

lemma reached:
  "dockerOK E d0 \<Longrightarrow> daemonInv (daemonAt d0 (trace s)) \<Longrightarrow> op1 s = (Ret None, t) \<Longrightarrow>
   goal (daemonAt d0 (trace t))"
  using contract by blast

lemma only_named:
  "dockerOK E d0 \<Longrightarrow> daemonInv (daemonAt d0 (trace s)) \<Longrightarrow>
   onlyNamed n (daemonAt d0 (trace s)) (daemonAt d0 (trace (snd (op1 s))))"
  using contract [OF _ _ prod.collapse [symmetric]] by blast

lemma inv_kept:
  "dockerOK E d0 \<Longrightarrow> daemonInv (daemonAt d0 (trace s)) \<Longrightarrow> op1 s = (r, t) \<Longrightarrow>
   daemonInv (daemonAt d0 (trace t))"
  using contract unfolding onlyNamed_def by blast

lemma other_kept:
  assumes "dockerOK E d0" and "daemonInv (daemonAt d0 (trace s))" and "op1 s = (r, t)" and "d_name c \<noteq> n"
  shows "c \<in> set (daemonAt d0 (trace t)) \<longleftrightarrow> c \<in> set (daemonAt d0 (trace s))"
proof -
  have "c \<in> set d \<longleftrightarrow> c \<in> set (others n d)" for d using assms(4) by (simp add: others_def)
  then show ?thesis using contract [OF assms(1-3)] unfolding onlyNamed_def by metis
qed

end

section \<open>Starting, stopping and removing\<close>

text \<open>What a successful start promises.\<close>

definition startedSpec :: "string \<Rightarrow> string \<Rightarrow> daemonContainer list \<Rightarrow> bool" where
  "startedSpec n img d' \<longleftrightarrow>
     (\<exists>c \<in> set d'. d_name c = n \<and> d_image c = img \<and> d_running c)"

lemma createContainer_returns: "\<exists>x. fst (createContainer E n b cfg hc u) = Ret x"
  by (auto simp: createContainer_def ContainerCreate_def ContainerStop_def
      ContainerRemove_def run split: sum.splits option.splits if_splits)

lemma StartContainer_cases:
  assumes "StartContainer E n b cfg hc s = (r, t)"
  obtains (failed) e where "r = Ret (Some e)" and "daemonAt d0 (trace t) = daemonAt d0 (trace s)"
    | (existing) cs i u where "eList E (trace u) True = Inr cs"
        and "findCreated (Image cfg) n cs = Some i"
        and "daemonAt d0 (trace u) = daemonAt d0 (trace s)"
        and "ensureStarted E i (u\<lparr>trace := EvList True (Inr cs) # trace u\<rparr>) = (r, t)"
    | (creation) u e where "daemonAt d0 (trace u) = daemonAt d0 (trace s)"
        and "createContainer E n b cfg hc u = (Ret (Inl e), t)" and "r = Ret (Some e)"
    | (created) u i v where "daemonAt d0 (trace u) = daemonAt d0 (trace s)"
        and "createContainer E n b cfg hc u = (Ret (Inr i), v)"
        and "ensureStarted E i v = (r, t)"
proof -
  note defs = StartContainer_def checkE_def tryE_def NewClientWithOpts_def ContainerList_def run
  let ?h1 = "EvClient (eClient E (trace s)) # trace s"
  let ?u = "s\<lparr>trace := ?h1\<rparr>"
  consider (bad) "eClient E (trace s) \<noteq> None \<or> (\<exists>e. eList E ?h1 True = Inl e)"
    | (old) cs i where "eClient E (trace s) = None" "eList E ?h1 True = Inr cs"
        "findCreated (Image cfg) n cs = Some i"
    | (new) cs where "eClient E (trace s) = None" "eList E ?h1 True = Inr cs"
        "findCreated (Image cfg) n cs = None"
    by (cases "eClient E (trace s)"; cases "eList E ?h1 True") auto
  then show thesis
  proof cases
    case bad
    then show thesis using assms failed by (auto simp: defs split: option.splits sum.splits)
  next
    case (old cs i)
    then show thesis using assms existing [of ?u cs i] by (auto simp: defs)
  next
    case (new cs)
    let ?v = "?u\<lparr>trace := EvList True (Inr cs) # ?h1\<rparr>"
    obtain x w where x: "createContainer E n b cfg hc ?v = (Ret x, w)"
      using createContainer_returns [of E n b cfg hc ?v] by (metis prod.collapse)
    have step: "(case x of Inl e \<Rightarrow> (Ret (Some e), w) | Inr i \<Rightarrow> ensureStarted E i w) = (r, t)"
      using assms new x by (auto simp: defs split: sum.split)
    show thesis
    proof (cases x)
      case (Inl e)
      then show thesis using step x by (intro creation [of ?v e]) auto
    next
      case (Inr i)
      then show thesis using step x by (intro created [of ?v i w]) auto
    qed
  qed
qed

lemma start_contract:
  assumes ok: "dockerOK E d0" and inv: "daemonInv (daemonAt d0 (trace s))"
    and step: "StartContainer E n b cfg hc s = (r, t)"
  shows "onlyNamed n (daemonAt d0 (trace s)) (daemonAt d0 (trace t)) \<and>
    (r = Ret None \<longrightarrow> startedSpec n (Image cfg) (daemonAt d0 (trace t)))"
  using step
proof (cases rule: StartContainer_cases [where ?d0.0 = d0])
  case (failed e)
  then show ?thesis using inv by (simp add: onlyNamed_refl)
next
  case (existing cs i u)
  let ?u = "u\<lparr>trace := EvList True (Inr cs) # trace u\<rparr>"
  have same: "daemonAt d0 (trace ?u) = daemonAt d0 (trace s)" using existing by simp
  have "cs = map listed (daemonAt d0 (trace u))" using dockerOK_list [OF ok existing(1)] by simp
  then obtain c where c: "c \<in> set (daemonAt d0 (trace u))" "d_name c = n"
      "d_image c = Image cfg" "d_id c = i"
    using existing(2) by (metis findCreated_listed)
  then show ?thesis
    using ensureStarted_refines [OF ok refl, of ?u c n i r t] existing inv same
    by (auto simp: startedSpec_def)
next
  case (creation u e)
  then show ?thesis
    using createContainer_refines(1) [OF ok refl, of u n b cfg hc] inv by simp
next
  case (created u i v)
  have one: "onlyNamed n (daemonAt d0 (trace s)) (daemonAt d0 (trace v))"
    using createContainer_refines(1) [OF ok refl _ created(2)] created(1) inv by simp
  obtain c where c: "c \<in> set (daemonAt d0 (trace v))" "d_name c = n" "d_id c = i"
      "d_image c = Image cfg"
    using createContainer_refines(2) [OF ok refl _ created(2)] created(1) inv by auto
  have "daemonInv (daemonAt d0 (trace v))" using one by (simp add: onlyNamed_def)
  then show ?thesis
    using ensureStarted_refines [OF ok refl _ c(1-3) created(3)] one onlyNamed_trans c(4)
    by (auto simp: startedSpec_def)
qed

interpretation startOp: container_op E "StartContainer E n b c hc" n "startedSpec n (Image c)" for E n b c hc
  by unfold_locales (rule start_contract)

text \<open>C4: \<open>StartContainer\<close> implements its contract on any daemon that behaves as
  documented: whatever it returns, no container of another name has changed and the daemon
  stays well formed; when it returns \<open>nil\<close>, the named container exists with the wanted
  image and runs, whether it was there, was created, or replaced one that held the name.\<close>

theorem StartContainer_refines:
  assumes ok: "dockerOK E d0" and inv: "daemonInv (daemonAt d0 (trace s))"
    and step: "StartContainer E n b cfg hc s = (r, t)"
  shows "onlyNamed n (daemonAt d0 (trace s)) (daemonAt d0 (trace t)) \<and>
    (r = Ret None \<longrightarrow> startedSpec n (Image cfg) (daemonAt d0 (trace t)))"
  by (rule startOp.contract [OF assms])

lemma stop_contract:
  assumes ok: "dockerOK E d0" and inv: "daemonInv (daemonAt d0 (trace s))"
    and step: "StopContainer E n w s = (r, t)"
  shows "onlyNamed n (daemonAt d0 (trace s)) (daemonAt d0 (trace t)) \<and>
    (r = Ret None \<longrightarrow> (\<forall>c \<in> set (daemonAt d0 (trace t)). d_name c = n \<longrightarrow> \<not> d_running c))"
proof -
  let ?d = "daemonAt d0 (trace s)"
  let ?h1 = "EvClient (eClient E (trace s)) # trace s"
  let ?up = "filter d_running ?d"
  note defs = StopContainer_def checkE_def tryE_def NewClientWithOpts_def ContainerList_def
    ContainerStop_def run Let_def
  show ?thesis
  proof (cases "eClient E (trace s) = None \<and> (\<exists>cs. eList E ?h1 False = Inr cs)")
    case False
    then show ?thesis using step inv
      by (auto simp: defs onlyNamed_refl split: option.splits sum.splits)
  next
    case True
    then obtain cs where cs: "eClient E (trace s) = None" "eList E ?h1 False = Inr cs" by blast
    have up: "cs = map listed ?up" using dockerOK_list [OF ok cs(2)] by simp
    show ?thesis
    proof (cases "idByName n cs = []")
      case none: True
      then have "n \<notin> d_name ` set ?up"
        using idByName_listed [OF daemonInv_filter [OF inv], of n d_running] up by auto
      then show ?thesis using step cs none inv by (auto simp: defs onlyNamed_refl)
    next
      case False
      then obtain c where c: "c \<in> set ?d" "d_name c = n" "idByName n cs = d_id c"
        using idByName_listed [OF daemonInv_filter [OF inv], of n d_running] up by auto
      have only: "onlyNamed n ?d (daemonStep (EvStop (d_id c) (Some w) e) ?d)" for e
        using onlyNamed_stop [OF inv c(1,2)] by simp
      have stopped: "\<not> d_running x"
        if "x \<in> set (setRunning False (d_id c) ?d)" "d_name x = n" for x
        using that c same_name [OF inv] by (auto simp: setRunning_def refers_def)
      show ?thesis using step cs False c only [of None] onlyNamed_refl [OF inv] stopped
        by (auto simp: defs split: option.splits)
    qed
  qed
qed

interpretation stopOp: container_op E "StopContainer E n w" n
    "\<lambda>d. \<forall>c \<in> set d. d_name c = n \<longrightarrow> \<not> d_running c" for E n w
  by unfold_locales (rule stop_contract)

text \<open>C8: \<open>StopContainer\<close> implements its contract: it touches no container of another
  name, and when it returns \<open>nil\<close> no container of that name runs.\<close>

theorem StopContainer_refines:
  assumes ok: "dockerOK E d0" and inv: "daemonInv (daemonAt d0 (trace s))"
    and step: "StopContainer E n w s = (r, t)"
  shows "onlyNamed n (daemonAt d0 (trace s)) (daemonAt d0 (trace t)) \<and>
    (r = Ret None \<longrightarrow> (\<forall>c \<in> set (daemonAt d0 (trace t)). d_name c = n \<longrightarrow> \<not> d_running c))"
  by (rule stopOp.contract [OF assms])

lemma RemoveContainer_cases:
  assumes "RemoveContainer E n s = (r, t)"
  obtains (failed) e where "r = Ret (Some e)" and "daemonAt d0 (trace t) = daemonAt d0 (trace s)"
    | (absent) cs and u :: st where "eList E (trace u) True = Inr cs" and "idByName n cs = []"
        and "daemonAt d0 (trace u) = daemonAt d0 (trace s)"
        and "daemonAt d0 (trace t) = daemonAt d0 (trace s)"
    | (removed) cs and u :: st and h e where "eList E (trace u) True = Inr cs" and "idByName n cs \<noteq> []"
        and "daemonAt d0 (trace u) = daemonAt d0 (trace s)"
        and "daemonAt d0 h = daemonAt d0 (trace s) \<or>
          daemonAt d0 h = setRunning False (idByName n cs) (daemonAt d0 (trace s))"
        and "r = Ret e" and "trace t = EvRemove (idByName n cs) e # h"
proof -
  note defs = RemoveContainer_def checkE_def tryE_def NewClientWithOpts_def ContainerList_def
    ContainerStop_def ContainerRemove_def ContainerInspect_def run Let_def
  let ?h1 = "EvClient (eClient E (trace s)) # trace s"
  let ?u = "s\<lparr>trace := ?h1\<rparr>"
  consider (bad) "eClient E (trace s) \<noteq> None \<or> (\<exists>e. eList E ?h1 True = Inl e)"
    | (listed) cs where "eClient E (trace s) = None" "eList E ?h1 True = Inr cs"
    by (cases "eClient E (trace s)"; cases "eList E ?h1 True") auto
  then show thesis
  proof cases
    case bad
    then show thesis using assms failed by (auto simp: defs split: option.splits sum.splits)
  next
    case (listed cs)
    let ?i = "idByName n cs"
    let ?h2 = "EvList True (Inr cs) # ?h1"
    let ?x = "eInspect E ?h2 ?i"
    let ?h3 = "EvInspect ?i ?x # ?h2"
    let ?e = "eStop E ?h3 ?i None"
    consider (none) "?i = []" | (broken) "?i \<noteq> []"
        "(\<exists>e. ?x = Inl e) \<or> (\<exists>x e. ?x = Inr x \<and> Running x \<and> ?e = Some e)"
      | (stopped) x where "?i \<noteq> []" "?x = Inr x" "Running x" "?e = None"
      | (idle) x where "?i \<noteq> []" "?x = Inr x" "\<not> Running x"
      by (cases ?x; cases ?e) auto
    then show thesis
    proof cases
      case none
      then show thesis using assms listed absent [of ?u cs] by (auto simp: defs)
    next
      case broken
      then show thesis using assms listed failed by (auto simp: defs)
    next
      case stopped
      then show thesis using assms listed removed [of ?u cs "EvStop ?i None None # ?h3"]
        by (auto simp: defs split: option.splits)
    next
      case idle
      then show thesis using assms listed removed [of ?u cs ?h3] by (auto simp: defs split: option.splits)
    qed
  qed
qed

lemma remove_listed:
  assumes inv: "daemonInv d" and c: "c \<in> set d" "d_name c = n"
    and d1: "d1 = d \<or> d1 = setRunning False (d_id c) d"
  shows "onlyNamed n d (daemonStep (EvRemove (d_id c) e) d1) \<and>
    (e = None \<longrightarrow> n \<notin> d_name ` set (daemonStep (EvRemove (d_id c) e) d1))"
proof -
  have "refers (d_id c) c" by (simp add: refers_def)
  then obtain c1 where c1: "c1 \<in> set d1" "d_name c1 = n" "d_id c1 = d_id c"
    using setRunning_member [OF c(1), of "d_id c" False] c d1 that by auto
  have only: "onlyNamed n d d1"
    using d1 onlyNamed_stop [OF inv c, of "d_id c" None None] onlyNamed_refl [OF inv] by auto
  then have inv1: "daemonInv d1" by (simp add: onlyNamed_def)
  have "onlyNamed n d1 (daemonStep (EvRemove (d_id c) e) d1)"
    using onlyNamed_remove [OF inv1 c1(1,2)] c1(3) by auto
  moreover have "refers (d_id c) x" if "x \<in> set d1" "d_name x = n" for x
    using same_name [OF inv1 that(1) c1(1)] that(2) c1(2,3) by (simp add: refers_def)
  ultimately show ?thesis using only onlyNamed_trans by (cases e) (auto simp: image_iff)
qed

lemma remove_contract:
  assumes ok: "dockerOK E d0" and inv: "daemonInv (daemonAt d0 (trace s))"
    and step: "RemoveContainer E n s = (r, t)"
  shows "onlyNamed n (daemonAt d0 (trace s)) (daemonAt d0 (trace t)) \<and>
    (r = Ret None \<longrightarrow> n \<notin> d_name ` set (daemonAt d0 (trace t)))"
  using step
proof (cases rule: RemoveContainer_cases [where ?d0.0 = d0])
  case (failed e)
  then show ?thesis using inv by (simp add: onlyNamed_refl)
next
  case (absent cs u)
  have "cs = map listed (daemonAt d0 (trace s))" using dockerOK_list [OF ok absent(1)] absent(3) by simp
  then show ?thesis
    using absent idByName_listed [OF inv, of n] onlyNamed_refl [OF inv] by auto
next
  case (removed cs u h e)
  have "cs = map listed (daemonAt d0 (trace s))" using dockerOK_list [OF ok removed(1)] removed(3) by simp
  then obtain c where c: "c \<in> set (daemonAt d0 (trace s))" "d_name c = n" "idByName n cs = d_id c"
    using idByName_listed [OF inv, of n] removed(2) by auto
  then show ?thesis
    using remove_listed [OF inv c(1,2), of "daemonAt d0 h" e] removed by (auto simp del: daemonStep.simps)
qed

interpretation removeOp: container_op E "RemoveContainer E n" n "\<lambda>d. n \<notin> d_name ` set d" for E n
  by unfold_locales (rule remove_contract)

text \<open>C9: \<open>RemoveContainer\<close> implements its contract: it touches no container of another
  name, and when it returns \<open>nil\<close> no container has that name.\<close>

theorem RemoveContainer_refines:
  assumes ok: "dockerOK E d0" and inv: "daemonInv (daemonAt d0 (trace s))"
    and step: "RemoveContainer E n s = (r, t)"
  shows "onlyNamed n (daemonAt d0 (trace s)) (daemonAt d0 (trace t)) \<and>
    (r = Ret None \<longrightarrow> n \<notin> d_name ` set (daemonAt d0 (trace t)))"
  by (rule removeOp.contract [OF assms])

section \<open>A daemon that behaves as documented\<close>

text \<open>The hypotheses above can be met: this daemon answers from the abstract state, and
  gives a new container an identifier longer than every identifier and name in use.\<close>

definition freshId :: "daemonContainer list \<Rightarrow> string \<Rightarrow> string" where
  "freshId d n = concat (map d_id d) @ concat (map d_name d) @ n @ ''#''"

definition daemonEnv :: "daemonContainer list \<Rightarrow> env \<Rightarrow> env" where
  "daemonEnv d0 E = E\<lparr>
     eList := (\<lambda>h all. Inr (map listed (filter (\<lambda>c. all \<or> d_running c) (daemonAt d0 h)))),
     eInspect := (\<lambda>h r. case find (\<lambda>c. r \<noteq> [] \<and> refers r c) (daemonAt d0 h) of None \<Rightarrow> Inl nope
        | Some c \<Rightarrow> Inr \<lparr>Running = d_running c, StartedAt = []\<rparr>),
     eCreate := (\<lambda>h c hc n. if n \<in> set (map d_name (daemonAt d0 h) @ map d_id (daemonAt d0 h))
        then Inl (GoErr (if n \<in> set (map d_name (daemonAt d0 h)) then conflictMsg n else []))
        else Inr (freshId (daemonAt d0 h) n))\<rparr>"

lemma length_freshId:
  assumes "c \<in> set d" shows "length (d_id c) < length (freshId d n)"
    and "length (d_name c) < length (freshId d n)"
proof -
  have le: "length (f c) \<le> length (concat (map f d))" for f :: "daemonContainer \<Rightarrow> string"
    using assms by (induction d) auto
  show "length (d_id c) < length (freshId d n)" and "length (d_name c) < length (freshId d n)"
    using le [of d_id] le [of d_name] by (simp_all add: freshId_def)
qed

lemma freshId_new:
  "freshId d n \<noteq> []" "freshId d n \<noteq> n" "freshId d n \<notin> d_id ` set d" "freshId d n \<notin> d_name ` set d"
proof -
  have "length n < length (freshId d n)" by (simp add: freshId_def)
  then show "freshId d n \<noteq> n" by auto
  show "freshId d n \<noteq> []" by (simp add: freshId_def)
  show "freshId d n \<notin> d_id ` set d" "freshId d n \<notin> d_name ` set d"
    using length_freshId by (metis imageE less_irrefl)+
qed

lemma no_conflict_in_empty: "conflictMsg n \<noteq> []"
  by (simp add: conflictMsg_def)

lemma daemonEnv_ok: "dockerOK (daemonEnv d0 E) d0"
proof -
  have found: "r \<noteq> [] \<and> (\<exists>c \<in> set d. refers r c \<and> Running x = d_running c)"
    if "(case find (\<lambda>c. r \<noteq> [] \<and> refers r c) d of None \<Rightarrow> Inl nope
        | Some c \<Rightarrow> Inr \<lparr>Running = d_running c, StartedAt = []\<rparr>) = Inr x" for r d x
  proof -
    from that obtain c where c: "find (\<lambda>c. r \<noteq> [] \<and> refers r c) d = Some c" "Running x = d_running c"
      by (auto split: option.splits)
    then have "c \<in> set d \<and> r \<noteq> [] \<and> refers r c" by (auto simp: find_Some_iff)
    then show ?thesis using c by blast
  qed
  show ?thesis
    unfolding dockerOK_def Let_def daemonEnv_def
    using found freshId_new by (auto simp: no_conflict_in_empty split: if_splits)
qed

definition twoContainers :: "daemonContainer list" where
  "twoContainers = [
     \<lparr>d_id = ''a1'', d_name = ''dcchain'', d_image = ''img:1'', d_running = True\<rparr>,
     \<lparr>d_id = ''b2'', d_name = ''dcpccs'', d_image = ''pccs:1'', d_running = True\<rparr>]"

lemma twoContainers_inv: "daemonInv (daemonAt twoContainers (trace initSt))"
  by (simp add: twoContainers_def daemonInv_def initSt_def daemonAt_def)

text \<open>An image upgrade: the old container of the name is stopped, removed and replaced.\<close>

lemma StartContainer_refines_witness:
  "startedSpec ''dcchain'' ''img:2'' (daemonAt twoContainers (trace (snd
     (StartContainer (daemonEnv twoContainers nullEnv) ''dcchain'' True someCfg someHost initSt))))"
  (is "startedSpec _ _ (daemonAt _ (trace (snd ?r)))")
proof -
  have "fst ?r = Ret None"
    by (simp add: StartContainer_def createContainer_def ensureStarted_def runs daemonEnv_def
        sample initSt_def twoContainers_def daemonAt_def listed_def findCreated_def named_def
        someCfg_def conflictMsg_def contains_append setRunning_def refers_def freshId_def) auto
  then show ?thesis
    using StartContainer_refines [OF daemonEnv_ok twoContainers_inv prod.collapse [symmetric]]
    by (metis someCfg_def containerConfig.select_convs(1))
qed

lemma StopContainer_refines_witness:
  "\<not> (\<exists>c \<in> set (daemonAt twoContainers (trace (snd
     (StopContainer (daemonEnv twoContainers nullEnv) ''dcpccs'' 10 initSt)))).
     d_name c = ''dcpccs'' \<and> d_running c)"
  (is "\<not> (\<exists>c \<in> set (daemonAt _ (trace (snd ?r))). _)")
proof -
  have "fst ?r = Ret None"
    by (simp add: StopContainer_def runs daemonEnv_def sample initSt_def twoContainers_def
        daemonAt_def listed_def idByName_def named_def)
  then show ?thesis
    using StopContainer_refines [OF daemonEnv_ok twoContainers_inv prod.collapse [symmetric]]
    by blast
qed

lemma RemoveContainer_refines_witness:
  "''dcchain'' \<notin> d_name ` set (daemonAt twoContainers (trace (snd
     (RemoveContainer (daemonEnv twoContainers nullEnv) ''dcchain'' initSt))))"
  (is "_ \<notin> _ ` set (daemonAt _ (trace (snd ?r)))")
proof -
  have "fst ?r = Ret None"
    by (simp add: RemoveContainer_def runs daemonEnv_def sample initSt_def twoContainers_def
        daemonAt_def listed_def idByName_def named_def refers_def)
  then show ?thesis
    using RemoveContainer_refines [OF daemonEnv_ok twoContainers_inv prod.collapse [symmetric]]
    by blast
qed

end
