(* ===== verification/Confine.thy ===== *)
theory Confine
  imports Services DaemonSpec
begin

text \<open>
  What a program may change on the abstract Docker daemon. A program is confined to a kind
  of containers when all others are the same after it; confinement is kept by every
  construct of the programs, so it is proved for the leaves (events the daemon does not
  see, and the container helpers by their contract) and follows for every command.
\<close>

section \<open>Events the daemon does not see\<close>

definition neutral :: "event \<Rightarrow> bool" where
  "neutral e \<longleftrightarrow> (\<forall>d. daemonStep e d = d)"

lemma daemonAt_neutral: "\<forall>e \<in> set new. neutral e \<Longrightarrow> daemonAt d0 (new @ h) = daemonAt d0 h"
  by (induction new) (auto simp: neutral_def)

lemma emits_neutral: "emits neutral m \<Longrightarrow> daemonAt d0 (trace (snd (m s))) = daemonAt d0 (trace s)"
  using daemonAt_neutral by (metis emitsD)

lemma neutral_plain: "plainEvent e \<Longrightarrow> neutral e"
  by (cases e rule: plainEvent.cases) (auto simp: neutral_def)

lemma neutral_volume: "volumeEvent e \<Longrightarrow> neutral e"
  by (cases e rule: volumeEvent.cases) (auto simp: neutral_def)

lemma neutral_http: "neutral (EvHttp m u r)" "neutral (EvOutput c o')" "neutral (EvPrint x)" "neutral (EvSleep n)"
  by (simp_all add: neutral_def)

section \<open>What differs between two daemons\<close>

text \<open>\<open>sparing Q d d'\<close>: the daemon stays well formed and only containers of the
  kind \<open>Q\<close> differ; \<open>touches N\<close> is the kind of the names in \<open>N\<close>.\<close>

definition sparing :: "(daemonContainer \<Rightarrow> bool) \<Rightarrow> daemonContainer list \<Rightarrow> daemonContainer list \<Rightarrow> bool" where
  "sparing Q d d' \<longleftrightarrow> daemonInv d' \<and> filter (\<lambda>c. \<not> Q c) d' = filter (\<lambda>c. \<not> Q c) d"

abbreviation touches :: "string set \<Rightarrow> daemonContainer list \<Rightarrow> daemonContainer list \<Rightarrow> bool" where
  "touches N \<equiv> sparing (\<lambda>c. d_name c \<in> N)"

lemma sparing_refl: "daemonInv d \<Longrightarrow> sparing Q d d"
  by (simp add: sparing_def)

lemma sparing_trans: "sparing Q d d' \<Longrightarrow> sparing Q d' d'' \<Longrightarrow> sparing Q d d''"
  by (simp add: sparing_def)

lemma sparing_inv: "sparing Q d d' \<Longrightarrow> daemonInv d'"
  by (simp add: sparing_def)

lemma sparing_member:
  assumes "sparing Q d d'" and "\<not> Q c" shows "c \<in> set d' \<longleftrightarrow> c \<in> set d"
proof -
  have "c \<in> set x \<longleftrightarrow> c \<in> set (filter (\<lambda>c. \<not> Q c) x)" for x using assms(2) by simp
  then show ?thesis using assms(1) unfolding sparing_def by metis
qed

lemma filter_finer:
  assumes "filter P d' = filter P d" and "\<And>c. R c \<Longrightarrow> P c"
  shows "filter R d' = filter R d"
proof -
  have "filter R x = filter R (filter P x)" for x
    using assms(2) by (auto intro!: filter_cong)
  then show ?thesis using assms(1) by metis
qed

lemma sparing_mono: "sparing Q d d' \<Longrightarrow> (\<And>c. Q c \<Longrightarrow> R c) \<Longrightarrow> sparing R d d'"
  unfolding sparing_def using filter_finer [of "\<lambda>c. \<not> Q c" d' d "\<lambda>c. \<not> R c"] by blast

lemma onlyNamed_sparing: "onlyNamed n d d' \<Longrightarrow> (\<And>c. d_name c = n \<Longrightarrow> Q c) \<Longrightarrow> sparing Q d d'"
  unfolding onlyNamed_def others_def sparing_def
  using filter_finer [of "\<lambda>c. d_name c \<noteq> n" d' d "\<lambda>c. \<not> Q c"] by blast

section \<open>Programs confined to some containers\<close>

text \<open>\<open>confined d0 Q m\<close>: on a daemon that behaves as documented, \<open>m\<close> changes
  containers of the kind \<open>Q\<close> only.\<close>

definition confined :: "daemonContainer list \<Rightarrow> (daemonContainer \<Rightarrow> bool) \<Rightarrow> 'a go \<Rightarrow> bool" where
  "confined d0 Q m \<longleftrightarrow> (\<forall>s :: st. daemonInv (daemonAt d0 (trace s)) \<longrightarrow>
     sparing Q (daemonAt d0 (trace s)) (daemonAt d0 (trace (snd (m s)))))"

lemma confinedD:
  "confined d0 Q m \<Longrightarrow> daemonInv (daemonAt d0 (trace s)) \<Longrightarrow> m s = (r, t) \<Longrightarrow>
   sparing Q (daemonAt d0 (trace s)) (daemonAt d0 (trace t))"
  unfolding confined_def by (metis snd_conv)

named_theorems confined_intro "rules that confine a program to some containers"

lemma confined_neutral: "emits neutral m \<Longrightarrow> confined d0 Q m"
  by (simp add: confined_def emits_neutral sparing_refl)

lemma confined_events: "emits A m \<Longrightarrow> (\<And>e. A e \<Longrightarrow> neutral e) \<Longrightarrow> confined d0 Q m"
  by (rule confined_neutral) (rule emits_mono)

lemma confined_ret [confined_intro]: "confined d0 Q (ret x)"
  and confined_exit [confined_intro]: "confined d0 Q (exitWith c)"
  and confined_panic [confined_intro]: "confined d0 Q panic"
  and confined_noFuel [confined_intro]: "confined d0 Q noFuel"
  and confined_reads [confined_intro]: "confined d0 Q (reads f)"
  by (rule confined_neutral, rule emits_intro)+

lemma confined_modify [confined_intro]: "(\<And>s. trace (g s) = trace s) \<Longrightarrow> confined d0 Q (modify g)"
  by (rule confined_neutral) (rule emits_modify)

lemma confined_ext [confined_intro]: "(\<And>r. neutral (mk r)) \<Longrightarrow> confined d0 Q (ext f mk)"
  by (rule confined_neutral) (rule emits_ext)

lemma confined_Let [confined_intro]: "(\<And>x. confined d0 Q (f x)) \<Longrightarrow> confined d0 Q (Let x f)"
  by (simp add: Let_def)

lemma confined_bnd [confined_intro]:
  assumes m: "confined d0 Q m" and f: "\<And>x. confined d0 Q (f x)"
  shows "confined d0 Q (bnd m f)"
  unfolding confined_def
proof (intro allI impI)
  fix s :: st assume inv: "daemonInv (daemonAt d0 (trace s))"
  obtain r t where r: "m s = (r, t)" by fastforce
  have t: "sparing Q (daemonAt d0 (trace s)) (daemonAt d0 (trace t))" using confinedD [OF m inv r] .
  show "sparing Q (daemonAt d0 (trace s)) (daemonAt d0 (trace (snd (bnd m f s))))"
  proof (cases r)
    case (Ret x)
    have "sparing Q (daemonAt d0 (trace t)) (daemonAt d0 (trace (snd (f x t))))"
      using f sparing_inv [OF t] by (simp add: confined_def)
    then show ?thesis using Ret r sparing_trans [OF t] by (simp add: run)
  qed (use r t in \<open>simp_all add: run\<close>)
qed

lemma confined_andThen [confined_intro]:
  "confined d0 Q m \<Longrightarrow> confined d0 Q k \<Longrightarrow> confined d0 Q (andThen m k)"
  unfolding andThen_def by (intro confined_bnd)

lemma confined_checkE [confined_intro]:
  "confined d0 Q m \<Longrightarrow> confined d0 Q k \<Longrightarrow> confined d0 Q (checkE m k)"
  unfolding checkE_def
  by (intro confined_bnd) (auto intro: confined_neutral emits_intro split: option.split)

lemma confined_option [confined_intro]:
  "confined d0 Q n \<Longrightarrow> (\<And>x. confined d0 Q (g x)) \<Longrightarrow>
   confined d0 Q (case r of None \<Rightarrow> n | Some x \<Rightarrow> g x)"
  by (cases r) auto

lemma confined_if [confined_intro]:
  "(b \<Longrightarrow> confined d0 Q m) \<Longrightarrow> (\<not> b \<Longrightarrow> confined d0 Q k) \<Longrightarrow> confined d0 Q (if b then m else k)"
  by auto

lemma confined_prod [confined_intro]:
  "(\<And>a b. confined d0 Q (f a b)) \<Longrightarrow> confined d0 Q (case p of (a, b) \<Rightarrow> f a b)"
  by (cases p) auto

lemma confined_sum [confined_intro]:
  "(\<And>e. confined d0 Q (f e)) \<Longrightarrow> (\<And>x. confined d0 Q (g x)) \<Longrightarrow>
   confined d0 Q (case r of Inl e \<Rightarrow> f e | Inr x \<Rightarrow> g x)"
  by (cases r) auto

lemma confined_stat [confined_intro]:
  "confined d0 Q x \<Longrightarrow> (\<And>e. confined d0 Q (f e)) \<Longrightarrow> (\<And>e. confined d0 Q (g e)) \<Longrightarrow>
   confined d0 Q (case r of StatOk \<Rightarrow> x | StatNotExist e \<Rightarrow> f e | StatErr e \<Rightarrow> g e)"
  by (cases r) auto

lemma confined_tryE [confined_intro]:
  "confined d0 Q m \<Longrightarrow> (\<And>x. confined d0 Q (f x)) \<Longrightarrow> confined d0 Q (tryE m f)"
  unfolding tryE_def
  by (intro confined_bnd confined_sum) (auto intro: confined_neutral emits_intro)

text \<open>Calls that Docker does not see.\<close>

lemma confined_emit [confined_intro]: "neutral e \<Longrightarrow> confined d0 Q (emit e)"
  by (rule confined_neutral) (rule emits_emit)

lemma confined_print [confined_intro]: "confined d0 Q (println x)"
  unfolding println_def by (rule confined_emit) (simp add: neutral_def)

lemma confined_sleep [confined_intro]: "confined d0 Q (sleep n)"
  unfolding sleep_def by (rule confined_emit) (simp add: neutral_def)

lemma neutral_httpEvent: "httpEvent e \<Longrightarrow> neutral e"
  by (cases e) (auto simp: neutral_def)

lemma confined_http [confined_intro]:
  "confined d0 Q (HttpGet E u a)" "confined d0 Q (HttpGetWithoutCheckCert E u a)"
  "confined d0 Q (HttpPost E u b)"
  using confined_events [OF _ neutral_httpEvent] httpGet.events httpGetInsecure.events httpPost.events
  by blast+

context container_op begin

lemma confined: "dockerOK E d0 \<Longrightarrow> (\<And>c. d_name c = n \<Longrightarrow> Q c) \<Longrightarrow> confined d0 Q op1"
  unfolding confined_def using onlyNamed_sparing only_named by blast

end

lemma confined_volume [confined_intro]: "confined d0 Q (CreateVolume E v)"
  by (rule confined_events [OF createVolume.events neutral_volume])

end
