(* ===== verification/ServiceSpec.thy ===== *)
theory ServiceSpec
  imports Confine
begin

text \<open>
  The service commands against the abstract Docker daemon of theory DaemonSpec: what the
  status checks report, and what starting dcstorage achieves and leaves alone.
\<close>

section \<open>The status checks\<close>

text \<open>C23: the status reported for dcstorage and dcchain is the truth: when the check returns
  without an error, the container of that name exists, and the reported status is whether
  it runs.\<close>

theorem status_is_truth:
  assumes ok: "dockerOK E d0" and inv: "daemonInv (daemonAt d0 (trace s))"
    and chk: "chk = checkDcnodeStatus E \<and> n = nodeContainerName \<or>
      chk = checkDcchainStatus E \<and> n = chainContainerName"
    and step: "chk s = (Ret (status, None), t)"
  shows "\<exists>c \<in> set (daemonAt d0 (trace s)). d_name c = n \<and> status = d_running c"
proof -
  have stat: "containerStatus E n s = (Ret (status, None), t)"
    using chk step by (auto simp: checkDcnodeStatus_def checkDcchainStatus_def)
  let ?h = "EvClient None # EvClient None # trace s"
  from stat obtain cs x where l: "eList E ?h True = Inr cs"
      and i: "eInspect E (EvList True (Inr cs) # ?h) (idByName n cs) = Inr x" and st: "status = Running x"
    by (fastforce simp: containerStatus_def findContainerIdByName_def NewClientWithOpts_def
        ContainerList_def ContainerInspect_def run split: option.splits sum.splits)
  have "cs = map listed (daemonAt d0 (trace s))" using dockerOK_list [OF ok l] by simp
  moreover have "idByName n cs \<noteq> []" using dockerOK_inspect(1) [OF ok i] .
  ultimately obtain c where c: "c \<in> set (daemonAt d0 (trace s))" "d_name c = n" "idByName n cs = d_id c"
    using idByName_listed [OF inv, of n] by auto
  obtain c' where "c' \<in> set (daemonAt d0 (trace s))" "refers (d_id c) c'" "Running x = d_running c'"
    using dockerOK_inspect(2) [OF ok i] c(3) by auto
  then show ?thesis using c st refers_id [OF inv c(1)] by auto
qed

theorem status_is_truth_witness:
  "\<exists>c \<in> set (daemonAt twoContainers (trace initSt)). d_name c = chainContainerName \<and> True = d_running c"
proof -
  let ?E = "daemonEnv twoContainers nullEnv"
  have "fst (checkDcchainStatus ?E initSt) = Ret (True, None)"
    by (simp add: checkDcchainStatus_def containerStatus_def findContainerIdByName_def runs daemonEnv_def
        sample initSt_def twoContainers_def daemonAt_def listed_def idByName_def named_def refers_def
        chainContainerName_def)
  then obtain t where "checkDcchainStatus ?E initSt = (Ret (True, None), t)" by (metis prod.collapse)
  then show ?thesis
    using status_is_truth [OF daemonEnv_ok twoContainers_inv, of "checkDcchainStatus ?E" nullEnv chainContainerName True t]
    by simp
qed

section \<open>Starting dcstorage\<close>

definition nodeNames :: "string set" where
  "nodeNames = {pccsContainerName, teeReportServerContainerName, nodeContainerName}"

lemma confined_pccs:
  assumes "dockerOK E d0" and "\<And>c. d_name c = pccsContainerName \<Longrightarrow> Q c"
  shows "confined d0 Q (runPccsInDocker E)"
  unfolding runPccsInDocker_def GetPidWithListenPort_def
  by (intro confined_intro startOp.confined [OF assms] confined_events [OF emits_pccsWait neutral_plain])
    (auto simp: neutral_http)

lemma confined_tee:
  "dockerOK E d0 \<Longrightarrow> (\<And>c. d_name c = teeReportServerContainerName \<Longrightarrow> Q c) \<Longrightarrow>
   confined d0 Q (startTeeReportServerDocker E)"
  unfolding startTeeReportServerDocker_def by (intro confined_intro startOp.confined)

lemma confined_node1:
  "dockerOK E d0 \<Longrightarrow> (\<And>c. d_name c = nodeContainerName \<Longrightarrow> Q c) \<Longrightarrow> confined d0 Q (startDcnodeInDocker E)"
  unfolding startDcnodeInDocker_def by (intro confined_intro startOp.confined)

lemma confined_node:
  "dockerOK E d0 \<Longrightarrow> (\<And>c. d_name c \<in> nodeNames \<Longrightarrow> Q c) \<Longrightarrow> confined d0 Q (startDcStorageNode E)"
  unfolding startDcStorageNode_def
  by (intro confined_intro confined_pccs confined_tee confined_node1) (auto simp: nodeNames_def)

lemma node_started:
  assumes ok: "dockerOK E d0" and inv: "daemonInv (daemonAt d0 (trace s))"
    and step: "startDcnodeInDocker E s = (Ret None, t)"
  shows "startedSpec nodeContainerName (NodeImage (RunningConfig s)) (daemonAt d0 (trace t))"
proof -
  obtain u where u: "CreateVolume E nodeVolume s = (Ret None, u)"
      and rest: "bnd (reads RunningConfig) (\<lambda>cfg.
        bnd (StartContainer E nodeContainerName False (nodeContainerConfig E cfg) (nodeHostConfig E))
        (\<lambda>e. case e of None \<Rightarrow> ret None
           | Some x \<Rightarrow> if contains (errMsg x) (conflictMsg nodeContainerName)
             then ret (Some (GoErr (''container '' @ nodeContainerName
                    @ '' already exist,please manual remove it first''))) else ret (Some x))) u = (Ret None, t)"
    using checkE_RetD [OF step [unfolded startDcnodeInDocker_def]] by blast
  have same: "RunningConfig u = RunningConfig s" using createVolume.config_same [of E nodeVolume s] u by simp
  have "daemonInv (daemonAt d0 (trace u))"
    using confinedD [OF confined_volume inv u] by (rule sparing_inv)
  moreover have "StartContainer E nodeContainerName False (nodeContainerConfig E (RunningConfig s))
      (nodeHostConfig E) u = (Ret None, t)"
    using rest same by (auto simp: reads_def ret_def dest!: bnd_RetD split: option.splits if_splits)
  ultimately show ?thesis using startOp.reached [OF ok] by (fastforce simp: nodeContainerConfig_def)
qed

text \<open>C14: \<open>startDcStorageNode\<close> implements its contract on any daemon that behaves as
  documented: whatever it returns, only the pccs, report-server and dcstorage containers
  may differ; when it returns \<open>nil\<close>, a container named dcstorage runs with the node
  image of the configuration.\<close>

theorem startDcStorageNode_refines:
  assumes ok: "dockerOK E d0" and inv: "daemonInv (daemonAt d0 (trace s))"
    and step: "startDcStorageNode E s = (r, t)"
  shows "touches nodeNames (daemonAt d0 (trace s)) (daemonAt d0 (trace t)) \<and>
    (r = Ret None \<longrightarrow>
      startedSpec nodeContainerName (NodeImage (RunningConfig s)) (daemonAt d0 (trace t)))"
proof (intro conjI impI)
  show "touches nodeNames (daemonAt d0 (trace s)) (daemonAt d0 (trace t))"
    using confinedD [OF confined_node [OF ok] inv step] .
  assume "r = Ret None"
  then have nil: "startDcStorageNode E s = (Ret None, t)" using step by simp
  obtain u where u: "runPccsInDocker E s = (Ret None, u)" and rest:
      "andThen (if \<not> IsSgx2Support E then startTeeReportServerDocker E else ret None)
        (bnd (startDcnodeInDocker E) (\<lambda>e. case e of
           Some x \<Rightarrow> andThen (println (''start dcstorage fail,error:  '' @ errMsg x)) (ret (Some x))
         | None \<Rightarrow> ret None)) u = (Ret None, t)"
    using checkE_RetD [OF nil [unfolded startDcStorageNode_def]] by blast
  let ?tee = "if \<not> IsSgx2Support E then startTeeReportServerDocker E else ret None"
  obtain x v w where v: "?tee u = (Ret x, v)" and w: "startDcnodeInDocker E v = (Ret None, w)" "t = w"
    using rest unfolding andThen_def by (auto simp: ret_def dest!: bnd_RetD split: option.splits)
  have c: "confined d0 (\<lambda>_. True) ?tee"
    using confined_tee [OF ok] by (auto intro: confined_ret)
  have inv_u: "daemonInv (daemonAt d0 (trace u))"
    using confinedD [OF confined_pccs [OF ok, of "\<lambda>_. True"] inv u] sparing_inv by simp
  have inv_v: "daemonInv (daemonAt d0 (trace v))" using confinedD [OF c inv_u v] by (rule sparing_inv)
  have "keeps RunningConfig ?tee" by (auto intro: teeStart.config emits_intro)
  then have "RunningConfig v = RunningConfig s"
    using v u pccsRun.config_same [of E s] by (metis keepsD snd_conv)
  then show "startedSpec nodeContainerName (NodeImage (RunningConfig s)) (daemonAt d0 (trace t))"
    using node_started [OF ok inv_v w(1)] w(2) by simp
qed

text \<open>An SGX2 machine on which pccs listens and answers.\<close>

definition pccsEnv :: env where
  "pccsEnv = daemonEnv [] (nullEnv\<lparr>eHttp := \<lambda>_ _ _. HttpResp 200 ''ok'' None,
     eOutput := \<lambda>_ _. Inr (Some ''1234''), eSGX1 := True, eSGX2 := True\<rparr>)"

lemma pccsEnv_fields:
  "eClient pccsEnv h = None"
  "eList pccsEnv h all = Inr (map listed (filter (\<lambda>c. all \<or> d_running c) (daemonAt [] h)))"
  "eInspect pccsEnv h r = (case find (\<lambda>c. r \<noteq> [] \<and> refers r c) (daemonAt [] h) of None \<Rightarrow> Inl nope
     | Some c \<Rightarrow> Inr \<lparr>Running = d_running c, StartedAt = []\<rparr>)"
  "eCreate pccsEnv h c hc n = (if n \<in> set (map d_name (daemonAt [] h) @ map d_id (daemonAt [] h))
     then Inl (GoErr (if n \<in> set (map d_name (daemonAt [] h)) then conflictMsg n else []))
     else Inr (freshId (daemonAt [] h) n))"
  "eStart pccsEnv h i = None" "eStop pccsEnv h i w = None" "eRemove pccsEnv h i = None"
  "eVolList pccsEnv h = Inr []" "eVolCreate pccsEnv h v = None" "eNewRequest pccsEnv u = None"
  "eHttp pccsEnv h m u = HttpResp 200 ''ok'' None" "eOutput pccsEnv h x = Inr (Some ''1234'')"
  "eSGX1 pccsEnv" "eSGX2 pccsEnv"
  by (simp_all add: pccsEnv_def daemonEnv_def nullEnv_def)

theorem startDcStorageNode_refines_witness:
  "startedSpec nodeContainerName (NodeImage defaultConfig)
     (daemonAt [] (trace (snd (startDcStorageNode pccsEnv initSt))))"
proof -
  have ok: "dockerOK pccsEnv []" unfolding pccsEnv_def by (rule daemonEnv_ok)
  have inv: "daemonInv (daemonAt [] (trace initSt))"
    by (simp add: initSt_def daemonAt_def daemonInv_def)
  have p: "parseInt 32 ''1234'' = (1234, None)"
    by (simp add: parseInt_def parseUint_def digitVal_def)
  have "\<exists>u. runPccsInDocker pccsEnv initSt = (Ret None, u) \<and> daemonAt [] (trace u) = []"
    by (simp add: runPccsInDocker_def GetPidWithListenPort_def HttpGetWithoutCheckCert_def httpResult_def
        runs pccsEnv_fields p initSt_def daemonAt_def)
  then obtain u where u: "runPccsInDocker pccsEnv initSt = (Ret None, u)" "daemonAt [] (trace u) = []" by blast
  obtain v where v: "CreateVolume pccsEnv nodeVolume u = (Ret None, v)" "daemonAt [] (trace v) = []"
    using u(2) by (simp add: CreateVolume_def runs pccsEnv_fields)
  have "fst (StartContainer pccsEnv nodeContainerName False c hc w) = Ret None"
    if "daemonAt [] (trace w) = []" for c hc w
    using that by (simp add: StartContainer_def createContainer_def ensureStarted_def runs pccsEnv_fields
        findCreated_def freshId_def refers_def nodeContainerName_def)
  then obtain w where w: "StartContainer pccsEnv nodeContainerName False
      (nodeContainerConfig pccsEnv (RunningConfig v)) (nodeHostConfig pccsEnv) v = (Ret None, w)"
    using v(2) by (metis prod.collapse)
  have "fst (startDcStorageNode pccsEnv initSt) = Ret None"
    using u v w by (simp add: startDcStorageNode_def startDcnodeInDocker_def IsSgx2Support_def
        pccsEnv_fields runs)
  then show ?thesis
    using startDcStorageNode_refines [OF ok inv prod.collapse [symmetric]]
    by (simp add: initSt_def)
qed

end
