(* ===== verification/Download.thy ===== *)
theory Download
  imports Blockchain
begin

text \<open>
  util/litepeer.go and util/download.go around the transfer of theory FileStream: setting
  up the peer, fetching a file or a folder of the storage network by its identifier, and
  the plain HTTP download. The libraries of the storage network are operations of the
  environment, one named step (\<open>net\<close>) per call that can fail; the schedule of the two
  goroutines of a transfer is one too. A transfer whose schedule leaves the caller waiting
  has outcome \<open>NoFuel\<close>. The goroutine that walks a folder is run to its end before the
  caller's \<open>select\<close>; a cancellation is what \<open>ctxDone\<close> then reports.
\<close>

section \<open>Paths\<close>

text \<open>\<open>filepath.Join\<close> of two elements: \<open>Clean\<close> drops empty and \<open>.\<close>
  components and resolves \<open>..\<close>.\<close>

fun cleanParts :: "bool \<Rightarrow> string list \<Rightarrow> string list \<Rightarrow> string list" where
  "cleanParts rooted acc [] = rev acc"
| "cleanParts rooted acc (c # cs) =
     (if c = [] \<or> c = ''.'' then cleanParts rooted acc cs
      else if c = ''..'' then
        (case acc of
           a # as \<Rightarrow> if a = ''..'' then cleanParts rooted (c # acc) cs else cleanParts rooted as cs
         | [] \<Rightarrow> cleanParts rooted (if rooted then [] else [c]) cs)
      else cleanParts rooted (c # acc) cs)"

definition clean :: "string \<Rightarrow> string" where
  "clean p =
    (let rooted = (p \<noteq> [] \<and> hd p = CHR ''/'');
         r = join ''/'' (cleanParts rooted [] (split (CHR ''/'') p))
     in if rooted then CHR ''/'' # r else if r = [] then ''.'' else r)"

definition filepathJoin :: "string \<Rightarrow> string \<Rightarrow> string" where
  "filepathJoin d n =
    (if d = [] \<and> n = [] then [] else if d = [] then clean n else if n = [] then clean d
     else clean (d @ ''/'' @ n))"

text \<open>\<open>filepath.Dir\<close>: up to the last slash, cleaned.\<close>

definition filepathDir :: "string \<Rightarrow> string" where
  "filepathDir p = clean (rev (dropWhile (\<lambda>c. c \<noteq> CHR ''/'') (rev p)))"

section \<open>One file\<close>

definition runStream :: "env \<Rightarrow> symKey \<Rightarrow> string \<Rightarrow> bool \<Rightarrow> string \<Rightarrow> dl go" where
  "runStream E key content eof savePath =
     bnd (ext (\<lambda>h. (eSchedule E h, dlRun (bufLen key) key (eSchedule E h) (dlInit content eof)))
              (\<lambda>(cs, d). EvFetch savePath cs d))
         (\<lambda>(cs, d). ret d)"

definition downloadFile :: "env \<Rightarrow> string \<Rightarrow> bool \<Rightarrow> string \<Rightarrow> string \<Rightarrow> err go" where
  "downloadFile E content eof savePath secret =
     bnd (osStat E savePath) (\<lambda>st.
     andThen (case st of StatOk \<Rightarrow> emit (EvRemoveFile savePath)
              | StatNotExist _ \<Rightarrow> ret () | StatErr _ \<Rightarrow> ret ())
    (case (if secret \<noteq> [] then map_sum id Some (eSymKey E secret) else Inr None) of
       Inl e \<Rightarrow> ret (Some e)
     | Inr symKey \<Rightarrow> bnd (runStream E symKey content eof savePath) (\<lambda>d. case mainRet d of
           None \<Rightarrow> noFuel
         | Some completed \<Rightarrow> ret (if \<not> completed then Some (GoErr ''download file fail'') else None))))"

section \<open>A folder\<close>

fun downloadFolderFromIpfs :: "env \<Rightarrow> ipfsDir \<Rightarrow> string \<Rightarrow> string \<Rightarrow> err go"
  and forEachEntry :: "env \<Rightarrow> ipfsEntry list \<Rightarrow> string \<Rightarrow> string \<Rightarrow> err go" where
  "downloadFolderFromIpfs E (Dir es listErr) savePath secret =
     checkE (forEachEntry E es savePath secret) (ret listErr)"
| "forEachEntry E [] savePath secret = ret None"
| "forEachEntry E (FileEntry name hash # es) savePath secret =
     checkE (net E (''cid.Decode '' @ hash))
    (bnd (getFile E hash) (\<lambda>r. case r of
       Inl e \<Rightarrow> ret (Some e)
     | Inr FolderNode \<Rightarrow> ret (Some (GoErr ''this dag node is a directory''))
     | Inr (FileNode content eof) \<Rightarrow>
         checkE (downloadFile E content eof (filepathJoin savePath name) secret)
                (forEachEntry E es savePath secret)))"
| "forEachEntry E (DirEntry name childErr subDir # es) savePath secret =
     (case childErr of
        Some e \<Rightarrow> ret (Some e)
      | None \<Rightarrow>
          checkE (osMkdirAll E (filepathJoin savePath name))
         (checkE (downloadFolderFromIpfs E subDir (filepathJoin savePath name) secret)
                 (forEachEntry E es savePath secret)))"

text \<open>The error of the goroutine is assigned to a variable nobody reads.\<close>

definition pullAndDownloadFolder :: "env \<Rightarrow> string \<Rightarrow> string \<Rightarrow> string \<Rightarrow> err go" where
  "pullAndDownloadFolder E c savePath secret =
     checkE (net E ''mfs.NewRoot'')
    (bnd (openFolder E c) (\<lambda>r. case r of
       Inl e \<Rightarrow> ret (Some e)
     | Inr topi \<Rightarrow>
         checkE (osMkdirAll E savePath)
        (andThen (downloadFolderFromIpfs E topi savePath secret)
                 (ctxDone E))))"

section \<open>Setting up the peer\<close>

definition GetAvailablePort :: "env \<Rightarrow> err go" where
  "GetAvailablePort E =
     checkE (net E ''net.ResolveTCPAddr'')
    (bnd (net E ''net.ListenTCP'') (\<lambda>e. case e of
       None \<Rightarrow> ret None
     | Some _ \<Rightarrow> checkE (net E ''net.ResolveTCPAddr'') (net E ''net.ListenTCP'')))"

definition newIPFSHostKey :: "env \<Rightarrow> err go" where
  "newIPFSHostKey E = checkE (net E ''crypto.GenerateKeyPair'') (net E ''crypto.MarshalPrivateKey'')"

definition printErr :: "err \<Rightarrow> err go" where
  "printErr e = (case e of None \<Rightarrow> ret None | Some x \<Rightarrow> andThen (println (errMsg x)) (ret (Some x)))"

text \<open>A \<open>time.Duration\<close> is a signed 64-bit number of nanoseconds. The context has a
  time limit, or none when the time limit is 0; what it does to the calls under it is the
  environment's, which sees the event.\<close>

type_synonym duration = "64 word"

definition newContext :: "duration \<Rightarrow> unit go" where
  "newContext timeout = emit (EvContext (if timeout = 0 then None else Some timeout))"

text \<open>The peer is set up with the trusted peers and those that hold the file.\<close>

definition DownloadFromIpfs ::
    "env \<Rightarrow> string \<Rightarrow> string \<Rightarrow> string \<Rightarrow> addrInfo list \<Rightarrow> duration \<Rightarrow> err go" where
  "DownloadFromIpfs E fcid secret savePath addrInfos timeout =
     andThen (newContext timeout)
    (checkE (newIPFSHostKey E)
    (checkE (GetAvailablePort E)
    (checkE (net E ''multiaddr.NewMultiaddr'')
    (checkE (bnd (net E ''ipfslite.SetupLibp2p'') printErr)
    (bnd (GetTrustStoragePeers E) (\<lambda>(trustPeers, te).
     checkE (printErr te)
    (checkE (bnd (net E ''ipfslite.New'') printErr)
    (checkE (bootstrap E (trustPeers @ addrInfos))
    (bnd (net E ''mdns.Start'') (\<lambda>me.
     andThen (case me of None \<Rightarrow> ret () | Some x \<Rightarrow> println (''mdns start error: '' @ errMsg x))
    (bnd (getFile E fcid) (\<lambda>r. case r of
       Inl e \<Rightarrow> ret (Some e)
     | Inr FolderNode \<Rightarrow> pullAndDownloadFolder E fcid savePath secret
     | Inr (FileNode content eof) \<Rightarrow> downloadFile E content eof savePath secret))))))))))))"

section \<open>The plain HTTP download\<close>

text \<open>util/download.go: \<open>io.Copy\<close> writes what could be read of the body, whatever the
  status of the response.\<close>

definition DownloadFile :: "env \<Rightarrow> string \<Rightarrow> string \<Rightarrow> err go" where
  "DownloadFile E url path =
     checkE (osCreate E (path @ ''.tmp''))
    (bnd (httpDo E GET url) (\<lambda>resp. case resp of
       HttpFail e \<Rightarrow> ret (Some e)
     | HttpResp status body rerr \<Rightarrow>
         checkE (osWriteFile E (path @ ''.tmp'') body)
        (case rerr of
           Some e \<Rightarrow> ret (Some e)
         | None \<Rightarrow> andThen (println []) (osRename E (path @ ''.tmp'') path))))"

section \<open>Contracts\<close>

fun downloadEvent :: "event \<Rightarrow> bool" where
  "downloadEvent (EvNet _ _) = True"
| "downloadEvent (EvGetFile _ _) = True"
| "downloadEvent (EvFolder _ _) = True"
| "downloadEvent (EvFetch _ _ _) = True"
| "downloadEvent (EvStat _ _) = True"
| "downloadEvent (EvRemoveFile _) = True"
| "downloadEvent (EvMkdirAll _ _) = True"
| "downloadEvent (EvCtxDone _) = True"
| "downloadEvent (EvContext _) = True"
| "downloadEvent (EvBootstrap _ _) = True"
| "downloadEvent e = chainEvent e"

lemma chain_download: "chainEvent e \<Longrightarrow> downloadEvent e"
  by (cases e rule: chainEvent.cases) auto

lemma emits_case_node [emits_intro]:
  "(\<And>c b. emits A (f c b)) \<Longrightarrow> emits A g \<Longrightarrow> emits A (case r of FileNode c b \<Rightarrow> f c b | FolderNode \<Rightarrow> g)"
  by (cases r) auto

lemma keeps_case_node [emits_intro]:
  "(\<And>c b. keeps p (f c b)) \<Longrightarrow> keeps p g \<Longrightarrow> keeps p (case r of FileNode c b \<Rightarrow> f c b | FolderNode \<Rightarrow> g)"
  by (cases r) auto

lemma emits_downloadFile: "emits downloadEvent (downloadFile E c eof p secret)"
  unfolding downloadFile_def runStream_def effects by (intro emits_intro; simp add: case_prod_beta)

lemma keeps_downloadFile: "keeps RunningConfig (downloadFile E c eof p secret)"
  unfolding downloadFile_def runStream_def effects by (intro emits_intro; simp)

lemma emits_folder:
  "emits downloadEvent (downloadFolderFromIpfs E d p secret)"
  "emits downloadEvent (forEachEntry E es p secret)"
proof (induction E d p secret and E es p secret rule: downloadFolderFromIpfs_forEachEntry.induct)
  case (3 E name hash es p secret)
  then show ?case
    by (auto simp: net_def getFile_def intro!: emits_intro emits_downloadFile)
next
  case (4 E name childErr subDir es p secret)
  then show ?case by (cases childErr) (auto simp: osMkdirAll_def intro!: emits_intro)
qed (auto intro!: emits_intro)

lemma keeps_folder:
  "keeps RunningConfig (downloadFolderFromIpfs E d p secret)"
  "keeps RunningConfig (forEachEntry E es p secret)"
proof (induction E d p secret and E es p secret rule: downloadFolderFromIpfs_forEachEntry.induct)
  case (3 E name hash es p secret)
  then show ?case
    by (auto simp: net_def getFile_def intro!: emits_intro keeps_downloadFile)
next
  case (4 E name childErr subDir es p secret)
  then show ?case by (cases childErr) (auto simp: osMkdirAll_def intro!: emits_intro)
qed (auto intro!: emits_intro)

lemmas download_defs = DownloadFromIpfs_def newContext_def newIPFSHostKey_def GetAvailablePort_def printErr_def
  pullAndDownloadFolder_def effects

interpretation ipfsDownload: component "DownloadFromIpfs E cid secret p addrs timeout" downloadEvent
  for E cid secret p addrs timeout
proof unfold_locales
  show "emits downloadEvent (DownloadFromIpfs E cid secret p addrs timeout)"
    unfolding download_defs
    by (intro emits_intro emits_folder emits_downloadFile trustedPeers.weaken; simp add: chain_download)
  show "keeps RunningConfig (DownloadFromIpfs E cid secret p addrs timeout)"
    unfolding download_defs
    by (intro emits_intro keeps_folder keeps_downloadFile trustedPeers.config; simp)
qed

section \<open>Properties\<close>

text \<open>C37: \<open>pullAndDownloadFolder\<close> loses the errors of the download: when it returns an
  error, that error came from opening the folder, from making its directory or from the
  cancelled context, never from fetching or writing one of its files. So \<open>nil\<close> says
  nothing about the files.\<close>

theorem folder_error_not_from_files:
  assumes "pullAndDownloadFolder E c savePath secret s = (Ret (Some e), t)"
  shows "\<exists>new. trace t = new @ trace s \<and>
    (EvNet ''mfs.NewRoot'' (Some e) \<in> set new \<or> EvFolder c (Inl e) \<in> set new \<or>
     EvMkdirAll savePath (Some e) \<in> set new \<or> (\<exists>old. new = EvCtxDone (Some e) # old))"
proof -
  let ?r0 = "eNet E (trace s) ''mfs.NewRoot''"
  let ?h1 = "EvNet ''mfs.NewRoot'' ?r0 # trace s"
  let ?r1 = "eFolder E ?h1 c"
  let ?h2 = "EvFolder c ?r1 # ?h1"
  let ?r2 = "eMkdirAll E ?h2 savePath"
  let ?h3 = "EvMkdirAll savePath ?r2 # ?h2"
  consider "?r0 \<noteq> None" | x where "?r0 = None" "?r1 = Inl x"
    | "?r0 = None" "\<exists>d. ?r1 = Inr d" "?r2 \<noteq> None" | d where "?r0 = None" "?r1 = Inr d" "?r2 = None"
    by (cases ?r0; cases ?r1; cases ?r2; auto)
  then show ?thesis
  proof cases
    case (4 d)
    obtain r u where u: "downloadFolderFromIpfs E d savePath secret (s\<lparr>trace := ?h3\<rparr>) = (r, u)"
      by fastforce
    obtain new where new: "trace u = new @ ?h3"
      using emitsD [OF emits_folder(1) [of E d savePath secret], of "s\<lparr>trace := ?h3\<rparr>"] u by auto
    have "trace t = EvCtxDone (Some e) # trace u"
      using assms 4 u
      by (cases r) (auto simp: pullAndDownloadFolder_def runs split: outcome.splits)
    then show ?thesis using new
      by (intro exI [of _ "EvCtxDone (Some e) # new @ [EvMkdirAll savePath ?r2, EvFolder c ?r1, EvNet ''mfs.NewRoot'' ?r0]"])
        simp
  qed (use assms in \<open>auto simp: pullAndDownloadFolder_def runs\<close>)
qed

theorem folder_error_not_from_files_witness:
  "\<exists>new t. pullAndDownloadFolder (nullEnv\<lparr>eNet := \<lambda>_ _. Some nope\<rparr>) ''c'' ''/d'' [] initSt = (Ret (Some nope), t) \<and>
     trace t = new @ [] \<and> EvNet ''mfs.NewRoot'' (Some nope) \<in> set new"
proof -
  let ?E = "nullEnv\<lparr>eNet := \<lambda>_ _. Some nope\<rparr>"
  obtain t where t: "pullAndDownloadFolder ?E ''c'' ''/d'' [] initSt = (Ret (Some nope), t)"
      "trace t = [EvNet ''mfs.NewRoot'' (Some nope)]"
    by (simp add: pullAndDownloadFolder_def runs initSt_def)
  show ?thesis using folder_error_not_from_files [OF t(1)] t by (auto simp: initSt_def)
qed

text \<open>The plain HTTP download does not look at the status of the response: for every
  status, an answer whose body is read to its end becomes the file, and \<open>DownloadFile\<close>
  returns \<open>nil\<close>; the file appears under its own name only after the whole body was
  written under the temporary one.\<close>

lemma DownloadFile_nil:
  "fst (DownloadFile E url path s) = Ret None \<longleftrightarrow>
   (\<exists>status body. newEvents (DownloadFile E url path) s =
      [EvRename (path @ ''.tmp'') path None, EvPrint [], EvWriteFile (path @ ''.tmp'') body None,
       EvHttp GET url (HttpResp status body None), EvCreateFile (path @ ''.tmp'') None])"
proof -
  have ev: "trace (snd (DownloadFile E url path s)) = newEvents (DownloadFile E url path) s @ trace s"
    by (rule emits_trace [of "\<lambda>_. True"])
      (unfold DownloadFile_def effects, intro emits_intro; simp)
  show ?thesis
  proof
    assume nil: "fst (DownloadFile E url path s) = Ret None"
    then have "\<exists>status body. trace (snd (DownloadFile E url path s)) =
      [EvRename (path @ ''.tmp'') path None, EvPrint [], EvWriteFile (path @ ''.tmp'') body None,
       EvHttp GET url (HttpResp status body None), EvCreateFile (path @ ''.tmp'') None] @ trace s"
      by (auto simp: DownloadFile_def runs split: option.splits httpReply.splits)
    then show "\<exists>status body. newEvents (DownloadFile E url path) s =
      [EvRename (path @ ''.tmp'') path None, EvPrint [], EvWriteFile (path @ ''.tmp'') body None,
       EvHttp GET url (HttpResp status body None), EvCreateFile (path @ ''.tmp'') None]"
      unfolding ev by simp
  next
    assume "\<exists>status body. newEvents (DownloadFile E url path) s =
      [EvRename (path @ ''.tmp'') path None, EvPrint [], EvWriteFile (path @ ''.tmp'') body None,
       EvHttp GET url (HttpResp status body None), EvCreateFile (path @ ''.tmp'') None]"
    then obtain status body where "trace (snd (DownloadFile E url path s)) =
      [EvRename (path @ ''.tmp'') path None, EvPrint [], EvWriteFile (path @ ''.tmp'') body None,
       EvHttp GET url (HttpResp status body None), EvCreateFile (path @ ''.tmp'') None] @ trace s"
      using ev by auto
    then show "fst (DownloadFile E url path s) = Ret None"
      by (auto simp: DownloadFile_def runs split: option.splits httpReply.splits)
  qed
qed

end
