(* ===== verification/ConfigIO.thy ===== *)
theory ConfigIO
  imports Sample
begin

text \<open>
  Reading and writing the configuration file (config/config.go). Every failure is a
  \<open>log.Fatalf\<close>, which leaves the process with status 1, so the errors the two
  functions declare are never returned. The text of YAML documents is the library's, the
  documents are the struct tags of ConfigData.
\<close>

definition yamlMarshal :: "env \<Rightarrow> DcManageConfig \<Rightarrow> goerr + string" where
  "yamlMarshal E config = eYamlEmit E (configYaml config)"

definition yamlUnmarshal :: "env \<Rightarrow> string \<Rightarrow> goerr + DcManageConfig" where
  "yamlUnmarshal E bytes = (case eYamlParse E bytes of
     Inl e \<Rightarrow> Inl e
   | Inr d \<Rightarrow> (case configOf (eYamlConv E) d of
         None \<Rightarrow> Inl (GoErr ''yaml: unmarshal errors'')
       | Some config \<Rightarrow> Inr config))"

definition ReadConfig :: "env \<Rightarrow> DcManageConfig go" where
  "ReadConfig E =
     bnd (osReadFile E Config_file_path) (\<lambda>r. case r of
       Inl _ \<Rightarrow> exitWith 1
     | Inr yamlFile \<Rightarrow> (case yamlUnmarshal E yamlFile of
           Inl _ \<Rightarrow> exitWith 1
         | Inr localconfig \<Rightarrow> ret localconfig))"

definition SaveConfig :: "env \<Rightarrow> DcManageConfig \<Rightarrow> err go" where
  "SaveConfig E config =
     (case yamlMarshal E config of
        Inl _ \<Rightarrow> exitWith 1
      | Inr fileBytes \<Rightarrow> bnd (osWriteFile E Config_file_path fileBytes) (\<lambda>e. case e of
            Some _ \<Rightarrow> exitWith 1
          | None \<Rightarrow> ret None))"

fun configEvent :: "event \<Rightarrow> bool" where
  "configEvent (EvReadFile p _) = (p = Config_file_path)"
| "configEvent (EvWriteFile p _ _) = (p = Config_file_path)"
| "configEvent _ = False"

interpretation readConfig: component "ReadConfig E" configEvent for E
  by unfold_locales (unfold ReadConfig_def effects, (intro emits_intro; simp)+)

interpretation saveConfig: component "SaveConfig E cfg" configEvent for E cfg
  by unfold_locales (unfold SaveConfig_def effects, (intro emits_intro; simp)+)

text \<open>What a save adds to the history when it returns.\<close>

lemma SaveConfig_Ret:
  assumes "SaveConfig E cfg s = (Ret e, t)"
  shows "e = None \<and> (\<exists>bytes. yamlMarshal E cfg = Inr bytes \<and>
    t = s\<lparr>trace := EvWriteFile Config_file_path bytes None # trace s\<rparr>)"
  using assms by (auto simp: SaveConfig_def osWriteFile_def run split: sum.splits option.splits)

text \<open>The documents that come back from their text as they went in: of strings, numbers,
  sequences and mappings whose keys are distinct. The tags of the sources give such
  documents.\<close>

primrec plainYaml :: "yaml \<Rightarrow> bool" where
  "plainYaml (YStr x) = True"
| "plainYaml (YInt i) = True"
| "plainYaml (YSeq vs) = list_all id (map plainYaml vs)"
| "plainYaml (YMap kvs) = (distinct (map fst kvs) \<and> list_all snd (map (map_prod id plainYaml) kvs))"
| "plainYaml (YOther x) = False"

lemma plainYaml_config: "plainYaml (configYaml c)"
  by (simp add: configYaml_def programYaml_def list_all_iff)

text \<open>C24: the configuration survives a restart. If the YAML library reads documents with
  distinct keys as it wrote them and the file system returns what was written last, then
  after a save that returned, a read that returns gives the saved configuration, whatever
  happened in between that did not write the file. What the repository contributes is that
  each field is written and read under one key of its own, with its own type, in both
  records: the document decodes to the configuration it was made from.\<close>

theorem config_roundtrip:
  assumes yaml: "\<And>d b. plainYaml d \<Longrightarrow> eYamlEmit E d = Inr b \<Longrightarrow> eYamlParse E b = Inr d"
    and disk: "\<And>new old b x. \<forall>e \<in> set new. \<not> (\<exists>c r. e = EvWriteFile Config_file_path c r) \<Longrightarrow>
      eReadFile E (new @ EvWriteFile Config_file_path b None # old) Config_file_path = Inr x \<Longrightarrow> x = b"
    and save: "SaveConfig E cfg s = (Ret e, t)"
    and between: "trace u = new @ trace t" "\<forall>e \<in> set new. \<not> (\<exists>c r. e = EvWriteFile Config_file_path c r)"
    and load: "ReadConfig E u = (Ret cfg', v)"
  shows "cfg' = cfg"
proof -
  obtain bytes where b: "yamlMarshal E cfg = Inr bytes"
      "trace t = EvWriteFile Config_file_path bytes None # trace s"
    using SaveConfig_Ret [OF save] by auto
  obtain x where x: "eReadFile E (trace u) Config_file_path = Inr x" "yamlUnmarshal E x = Inr cfg'"
    using load by (auto simp: ReadConfig_def osReadFile_def run split: sum.splits)
  have "x = bytes" using disk [OF between(2), of bytes "trace s" x] x(1) between(1) b(2) by simp
  moreover have "eYamlParse E bytes = Inr (configYaml cfg)"
    using b(1) by (intro yaml [OF plainYaml_config]) (simp add: yamlMarshal_def)
  ultimately show ?thesis using x(2) by (simp add: yamlUnmarshal_def)
qed

text \<open>A format that knows the default configuration only, and a disk that holds the last
  write.\<close>

fun lastWrite :: "history \<Rightarrow> goerr + string" where
  "lastWrite [] = Inl nope"
| "lastWrite (EvWriteFile p c r # h) =
     (if p = Config_file_path \<and> r = None then Inr c else lastWrite h)"
| "lastWrite (e # h) = lastWrite h"

definition diskEnv :: env where
  "diskEnv = nullEnv\<lparr>eReadFile := \<lambda>h p. lastWrite h,
     eYamlEmit := \<lambda>d. if d = configYaml defaultConfig then Inr ''default'' else Inl nope,
     eYamlParse := \<lambda>b. if b = ''default'' then Inr (configYaml defaultConfig) else Inl nope\<rparr>"

lemma lastWrite_last:
  "\<forall>e \<in> set new. \<not> (\<exists>c r. e = EvWriteFile Config_file_path c r) \<Longrightarrow>
   lastWrite (new @ EvWriteFile Config_file_path b None # old) = Inr b"
proof (induction new)
  case Nil
  then show ?case by simp
next
  case (Cons e new)
  then show ?case by (cases "e # new @ EvWriteFile Config_file_path b None # old" rule: lastWrite.cases) auto
qed

theorem config_roundtrip_witness:
  "\<exists>t v. SaveConfig diskEnv defaultConfig initSt = (Ret None, t) \<and>
     ReadConfig diskEnv (t\<lparr>trace := EvSleep 5 # trace t\<rparr>) = (Ret defaultConfig, v)"
proof -
  obtain t where t: "SaveConfig diskEnv defaultConfig initSt = (Ret None, t)"
      "trace t = [EvWriteFile Config_file_path ''default'' None]"
    by (simp add: SaveConfig_def yamlMarshal_def runs diskEnv_def sample initSt_def)
  obtain c v where v: "ReadConfig diskEnv (t\<lparr>trace := EvSleep 5 # trace t\<rparr>) = (Ret c, v)"
    using t(2) by (simp add: ReadConfig_def yamlUnmarshal_def runs diskEnv_def)
  have "c = defaultConfig"
  proof (rule config_roundtrip [OF _ _ t(1) _ _ v, of "[EvSleep 5]"])
    show "eYamlParse diskEnv b = Inr d" if "eYamlEmit diskEnv d = Inr b" for d b
      using that by (auto simp: diskEnv_def split: if_splits)
    show "x = b" if "\<forall>e \<in> set new. \<not> (\<exists>c r. e = EvWriteFile Config_file_path c r)"
        "eReadFile diskEnv (new @ EvWriteFile Config_file_path b None # old) Config_file_path = Inr x"
      for new old b x
      using that(2) lastWrite_last [OF that(1)] by (simp add: diskEnv_def)
  qed simp_all
  then show ?thesis using t(1) v by blast
qed

section \<open>Incomplete files\<close>

text \<open>The keys with strings, at the top of the file.\<close>

definition stringFields :: "(string \<times> (DcManageConfig \<Rightarrow> string)) list" where
  "stringFields = [(''chainNodeName'', ChainNodeName), (''validatorFlag'', ValidatorFlag),
     (''chainSyncMode'', ChainSyncMode), (''chainWsUrl'', ChainWsUrl), (''pccsKey'', PccsKey),
     (''chainImage'', ChainImage), (''nodeImage'', NodeImage), (''upgradeImage'', UpgradeImage),
     (''teeReportServerImage'', TeeReportServerImage), (''pccsImage'', PccsImage),
     (''registry'', Registry), (''chainBootNode'', ChainBootNode), (''chainExposeFlag'', ChainExposeFlag)]"

lemma configOf_fields:
  assumes "configOf conv (YMap kvs) = Some cfg" and "(key, field) \<in> set stringFields"
  shows "yamlField kvs key (strOf conv) [] = Some (field cfg)"
  using assms by (auto simp: configOf_def mapOf_def Let_def stringFields_def bind_eq_Some_conv)

lemma configOf_port:
  "configOf conv (YMap kvs) = Some cfg \<Longrightarrow>
   yamlField kvs ''chainRpcListenPort'' (intOf conv) 0 = Some (ChainRpcListenPort cfg)"
  by (auto simp: configOf_def mapOf_def Let_def bind_eq_Some_conv)

text \<open>The defaults do not fill the gaps of a file. A configuration that is read holds
  under each key the string of the file, and where the file has no such key the empty
  string (and 0 for the port), not the value of the defaults the program starts with: a
  file written before a key was introduced runs without an image, a synchronisation mode
  or a port.\<close>

lemma missing_key_reads_zero:
  assumes "eReadFile E (trace s) Config_file_path = Inr bytes" and "eYamlParse E bytes = Inr (YMap kvs)"
    and "ReadConfig E s = (Ret cfg, t)" and "(key, field) \<in> set stringFields"
  shows "(key \<notin> fst ` set kvs \<longrightarrow> field cfg = []) \<and>
    (\<forall>x. map_of (rev kvs) key = Some (YStr x) \<longrightarrow> field cfg = x) \<and>
    (''chainRpcListenPort'' \<notin> fst ` set kvs \<longrightarrow> ChainRpcListenPort cfg = 0)"
proof -
  have cfg: "configOf (eYamlConv E) (YMap kvs) = Some cfg"
    using assms(1-3) by (simp add: ReadConfig_def yamlUnmarshal_def osReadFile_def run split: option.splits)
  have none: "map_of (rev kvs) k = None" if "k \<notin> fst ` set kvs" for k
    using that by (simp add: map_of_eq_None_iff)
  show ?thesis
    using configOf_fields [OF cfg assms(4)] configOf_port [OF cfg] none
    by (auto simp: yamlField_def strOf_def)
qed

text \<open>A file with two keys.\<close>

definition shortFileEnv :: env where
  "shortFileEnv = nullEnv\<lparr>eReadFile := \<lambda>_ _. Inr ''short'',
     eYamlParse := \<lambda>_. Inr (YMap [(''chainNodeName'', YStr ''n''), (''registry'', YStr ''cn'')])\<rparr>"

lemma missing_key_reads_zero_witness:
  "\<exists>cfg t. ReadConfig shortFileEnv initSt = (Ret cfg, t) \<and> Registry cfg = ''cn'' \<and>
     ChainSyncMode cfg = [] \<and> ChainSyncMode defaultConfig = ''full'' \<and> ChainRpcListenPort cfg = 0"
proof -
  have r: "eReadFile shortFileEnv (trace initSt) Config_file_path = Inr ''short''"
      "eYamlParse shortFileEnv ''short'' = Inr (YMap [(''chainNodeName'', YStr ''n''), (''registry'', YStr ''cn'')])"
    by (simp_all add: shortFileEnv_def)
  obtain cfg t where c: "ReadConfig shortFileEnv initSt = (Ret cfg, t)"
    by (simp add: ReadConfig_def yamlUnmarshal_def runs shortFileEnv_def configOf_def mapOf_def
        yamlField_def strOf_def Let_def)
  have "(''registry'', Registry) \<in> set stringFields" "(''chainSyncMode'', ChainSyncMode) \<in> set stringFields"
    by (simp_all add: stringFields_def)
  note f = this
  have "Registry cfg = ''cn'' \<and> ChainSyncMode cfg = [] \<and> ChainRpcListenPort cfg = 0"
    using missing_key_reads_zero [OF r c f(1)] missing_key_reads_zero [OF r c f(2)] by simp
  then show ?thesis using c by (auto simp: defaultConfig_def)
qed

end
