(* ===== verification/Upgrade.thy ===== *)
theory Upgrade
  imports Services Download ConfigIO
begin

text \<open>
  The upgrade of dcstorage (command/command.go, \<open>upgradeDeal\<close> and the functions only it
  uses). One call runs through phases, each a definition here: make sure dcstorage runs;
  ask it for its version (counting failures); find the program the chain recommends or the
  configuration orders; decide whether to upgrade; fetch the image, from the storage
  network or a registry; hand the node's key to dcupgrade (SGX2); replace the container;
  wait for the new one to fetch the key back; save the configuration; and check the new
  version, restarting the manager when all is well. \<open>fuel\<close> bounds the loops that may
  run forever: the waits for the chain to be in sync and the wait for the new dcstorage.
\<close>

section \<open>Images and the old container\<close>

definition pullDcStorageNodeImage :: "env \<Rightarrow> string \<Rightarrow> err go" where
  "pullDcStorageNodeImage E img =
     checkE (NewClientWithOpts E) (checkE (ImagePull E img) (copyPull E))"

text \<open>A file that cannot be opened is only logged, and the load is tried all the same.\<close>

definition loadDcStorageImage :: "env \<Rightarrow> string \<Rightarrow> err go" where
  "loadDcStorageImage E imagePath =
     checkE (NewClientWithOpts E) (andThen (osOpen E imagePath) (ImageLoad E imagePath))"

text \<open>The loop over the names of a container: whether the function returned in it, and
  \<open>err\<close>.\<close>

fun removeNamed :: "env \<Rightarrow> string \<Rightarrow> string list \<Rightarrow> err \<Rightarrow> (bool \<times> err) go" where
  "removeNamed E i [] lastErr = ret (False, lastErr)"
| "removeNamed E i (name # names) lastErr =
     (if name = nodeContainerName
      then bnd (ContainerRemove E i) (\<lambda>e. case e of
          None \<Rightarrow> ret (True, None)
        | Some x \<Rightarrow> removeNamed E i names (Some x))
      else removeNamed E i names lastErr)"

fun removeOld :: "env \<Rightarrow> string \<Rightarrow> containerInfo list \<Rightarrow> err \<Rightarrow> err go" where
  "removeOld E nodeImage [] lastErr =
     andThen (println ''no old version dcstorage docker container'') (ret lastErr)"
| "removeOld E nodeImage (c # cs) lastErr =
     (if c_Image c = nodeImage
      then andThen (println (''begin to remove old version dcstorage docker container,container id: '' @ c_ID c))
          (bnd (ContainerRemove E (c_ID c)) (\<lambda>e. case e of
              None \<Rightarrow> ret None
            | Some x \<Rightarrow> removeOld E nodeImage cs (Some x)))
      else if contains (c_Image c) ''dcstorage''
      then bnd (ContainerRemove E (c_ID c)) (\<lambda>e. case e of
              None \<Rightarrow> ret None
            | Some x \<Rightarrow> removeOld E nodeImage cs (Some x))
      else bnd (removeNamed E (c_ID c) (c_Names c) lastErr) (\<lambda>(returned, e).
              if returned then ret e else removeOld E nodeImage cs e))"

definition removeDcStorageNodeInDocker :: "env \<Rightarrow> err go" where
  "removeDcStorageNodeInDocker E =
     andThen (println ''begin to remove old version dcstorage docker container'')
    (checkE (NewClientWithOpts E)
    (tryE (ContainerList E True) (\<lambda>containers.
     bnd (reads RunningConfig) (\<lambda>cfg. removeOld E (NodeImage cfg) containers None))))"

section \<open>The phases\<close>

definition ensureRunning :: "env \<Rightarrow> err go" where
  "ensureRunning E =
     bnd (checkDcnodeStatus E) (\<lambda>(status, e).
       if e \<noteq> None \<or> \<not> status then startDcStorageNode E
       else bnd (checkPccsStatus E) (\<lambda>(status, e).
         if e \<noteq> None \<or> \<not> status then andThen (runPccsInDocker E) (ret None) else ret None))"

definition versionUnknown :: "env \<Rightarrow> unit go" where
  "versionUnknown E =
     andThen (modify (\<lambda>s. s\<lparr>waitEnclaveIdFlag := False\<rparr>))
    (bnd (reads versionGetErrCount) (\<lambda>n.
       if n > 150
       then andThen (modify (\<lambda>s. s\<lparr>versionGetErrCount := 0\<rparr>))
                    (andThen (startDcupgradeInDocker E) (ret ()))
       else modify (\<lambda>s. s\<lparr>versionGetErrCount := versionGetErrCount s + 1\<rparr>)))"

definition versionKnown :: "unit go" where
  "versionKnown = modify (\<lambda>s. s\<lparr>versionGetErrCount := 0, waitEnclaveIdFlag := True\<rparr>)"

text \<open>The program to install: the chain's, unless the configuration names a newer one
  whose enclave is valid.\<close>

definition chooseProgram :: "env \<Rightarrow> DcProgram \<Rightarrow> (goerr + DcProgram) go" where
  "chooseProgram E programInfo =
     (case eNewVersion E (Version programInfo) of
        Inl e \<Rightarrow> ret (Inl e)
      | Inr bcVersion \<Rightarrow>
          bnd (reads (\<lambda>s. NewVersion (RunningConfig s))) (\<lambda>newVersion.
            if Version newVersion \<noteq> [] \<and> EnclaveId newVersion \<noteq> []
            then (case eNewVersion E (Version newVersion) of
                Inl _ \<Rightarrow> ret (Inr programInfo)
              | Inr configNewVersion \<Rightarrow>
                  if eLessThan E bcVersion configNewVersion
                  then bnd (IfEnclaveIdValid E (EnclaveId newVersion)) (\<lambda>valid.
                         ret (Inr (if valid then newVersion else programInfo)))
                  else ret (Inr programInfo))
            else ret (Inr programInfo)))"

definition needUpgrade :: "env \<Rightarrow> string \<Rightarrow> string \<Rightarrow> DcProgram \<Rightarrow> (goerr + bool) go" where
  "needUpgrade E version enclaveId programInfo =
     (if enclaveId = EnclaveId programInfo
      then andThen (modify (\<lambda>s. s\<lparr>verionLogFlag := False\<rparr>)) (ret (Inr False))
      else andThen (modify (\<lambda>s. s\<lparr>verionLogFlag := True\<rparr>))
          (bnd (IfEnclaveIdValid E (EnclaveId programInfo)) (\<lambda>valid.
             if \<not> valid then ret (Inr False)
             else (case eNewVersion E version of
                 Inl e \<Rightarrow> ret (Inl e)
               | Inr localVersion \<Rightarrow> (case eNewVersion E (Version programInfo) of
                     Inl e \<Rightarrow> ret (Inl e)
                   | Inr configedVersion \<Rightarrow> ret (Inr (eLessThan E localVersion configedVersion)))))))"

definition timeHour :: duration where
  "timeHour = 3600 * 1000000000"

definition tarPath :: "string \<Rightarrow> string" where
  "tarPath mCid = ''/tmp/'' @ mCid @ ''.tar''"

fun loadFromNetwork :: "env \<Rightarrow> nat \<Rightarrow> string list \<Rightarrow> bool go" where
  "loadFromNetwork E fuel [] = ret False"
| "loadFromNetwork E fuel (mCid # mCids) =
     bnd (GetPeerAddrsForCid E fuel mCid) (\<lambda>r. case r of
       Inl _ \<Rightarrow> loadFromNetwork E fuel mCids
     | Inr (fileSize, addrInfos) \<Rightarrow>
         if addrInfos = [] then loadFromNetwork E fuel mCids
         else bnd (DownloadFromIpfs E mCid [] (tarPath mCid) addrInfos timeHour) (\<lambda>e. case e of
             Some _ \<Rightarrow> loadFromNetwork E fuel mCids
           | None \<Rightarrow> bnd (loadDcStorageImage E (tarPath mCid)) (\<lambda>le. case le of
                 Some _ \<Rightarrow> loadFromNetwork E fuel mCids
               | None \<Rightarrow> ret True)))"

definition pullFromRegistry :: "env \<Rightarrow> DcProgram \<Rightarrow> (goerr + string) go" where
  "pullFromRegistry E programInfo =
     bnd (reads (\<lambda>s. Registry (RunningConfig s))) (\<lambda>registry.
       let cn = (registry = ''cn'');
           tagUrl = (if cn then MirrorUrl programInfo else OriginUrl programInfo);
           other = (if cn then OriginUrl programInfo else MirrorUrl programInfo)
       in bnd (pullDcStorageNodeImage E tagUrl) (\<lambda>e. case e of
            None \<Rightarrow> ret (Inr tagUrl)
          | Some _ \<Rightarrow> bnd (pullDcStorageNodeImage E other) (\<lambda>e2. case e2 of
                None \<Rightarrow> ret (Inr other)
              | Some x \<Rightarrow> ret (Inl x))))"

definition fetchImage :: "env \<Rightarrow> nat \<Rightarrow> DcProgram \<Rightarrow> (goerr + string) go" where
  "fetchImage E fuel programInfo =
     bnd (loadFromNetwork E fuel (MirrCids programInfo)) (\<lambda>imageLoadSuccess.
       if imageLoadSuccess then ret (Inr (OriginUrl programInfo))
       else pullFromRegistry E programInfo)"

definition prepareHandover :: "env \<Rightarrow> err go" where
  "prepareHandover E =
     andThen (stopUpgradeInDocker E)
    (if IsSgx2Support E
     then checkE (startDcupgradeInDocker E)
         (bnd (waitDcUpdateGetPeerSecret E) (\<lambda>(_, e). ret e))
     else ret None)"

definition replaceNode :: "env \<Rightarrow> string \<Rightarrow> err go" where
  "replaceNode E tagUrl =
     bnd (stopDcnodeInDocker E) (\<lambda>e.
     andThen (case e of None \<Rightarrow> ret () | Some _ \<Rightarrow> sleep 10)
    (checkE (removeDcStorageNodeInDocker E)
    (andThen (modify (\<lambda>s. s\<lparr>RunningConfig := (RunningConfig s)\<lparr>NodeImage := tagUrl\<rparr>\<rparr>))
             (startDcStorageNode E))))"

definition finishHandover :: "env \<Rightarrow> nat \<Rightarrow> err go" where
  "finishHandover E fuel =
     (if IsSgx2Support E
      then bnd (waitNewDcGetPeerSecret E fuel) (\<lambda>(_, e). case e of
             Some x \<Rightarrow> ret (Some x)
           | None \<Rightarrow> andThen (stopUpgradeInDocker E) (ret None))
      else ret None)"

text \<open>The last loop: up to 61 questions, ten seconds apart.\<close>

function newVersionLoop :: "env \<Rightarrow> nat \<Rightarrow> (string \<times> string \<times> err) go" where
  "newVersionLoop E count =
     bnd (getVersionByHttpGet E dcStorageListenPort) (\<lambda>(version, enclaveId, e).
       if e = None then ret (version, enclaveId, e)
       else andThen (sleep 10)
           (if Suc count > 60 then ret (version, enclaveId, e) else newVersionLoop E (Suc count)))"
  by pat_completeness auto
termination
  by (relation "measure (\<lambda>(E, count). 61 - count)") auto

declare newVersionLoop.simps [simp del]

definition selfCommand :: "env \<Rightarrow> string list" where
  "selfCommand E = [hd (eArgs E), ''upgrade'', ''daemon'']"

definition confirmNode :: "env \<Rightarrow> DcProgram \<Rightarrow> err go" where
  "confirmNode E programInfo =
     bnd (newVersionLoop E 0) (\<lambda>(version, enclaveId, e).
       if version \<noteq> Version programInfo then ret e
       else if enclaveId \<noteq> EnclaveId programInfo \<and> IsSgx2Support E
       then andThen (stopDcnodeInDocker E) (ret e)
       else andThen (emit (EvSpawn (selfCommand E))) (exitWith 0))"

definition installProgram :: "env \<Rightarrow> nat \<Rightarrow> DcProgram \<Rightarrow> err go" where
  "installProgram E fuel programInfo =
     tryE (fetchImage E fuel programInfo) (\<lambda>tagUrl.
     checkE (prepareHandover E)
    (checkE (replaceNode E tagUrl)
    (checkE (finishHandover E fuel)
    (checkE (bnd (reads RunningConfig) (SaveConfig E))
            (confirmNode E programInfo)))))"

definition upgradeDeal :: "env \<Rightarrow> nat \<Rightarrow> err go" where
  "upgradeDeal E fuel =
     checkE (ensureRunning E)
    (bnd (getVersionByHttpGet E dcStorageListenPort) (\<lambda>(version, enclaveId, e). case e of
       Some x \<Rightarrow> andThen (versionUnknown E) (ret (Some x))
     | None \<Rightarrow> andThen versionKnown
      (tryE (GetConfigedDcStorageInfo E fuel) (\<lambda>recommended.
       tryE (chooseProgram E recommended) (\<lambda>programInfo.
       tryE (needUpgrade E version enclaveId programInfo) (\<lambda>needed.
         if \<not> needed then ret None else installProgram E fuel programInfo))))))"

end
