(* ===== verification/UpgradeSpec.thy ===== *)
theory UpgradeSpec
  imports Upgrade
begin

text \<open>
  What an upgrade may do and when. \<open>obeys need h\<close>: every event of the history
  \<open>h\<close> had, in the events before it, what \<open>need\<close> asks for it. The upgrade is
  proved to respect the milestones of its design: the running dcstorage is stopped or
  removed only once the new program is authorised, newer and fetched and (SGX2) dcupgrade
  holds the node's key; the configuration is written only once the new dcstorage has the
  key; the manager restarts only once the new version answers.
\<close>

section \<open>Histories that respect milestones\<close>

fun obeys :: "(event \<Rightarrow> history \<Rightarrow> bool) \<Rightarrow> history \<Rightarrow> bool" where
  "obeys need [] = True"
| "obeys need (e # h) = (need e h \<and> obeys need h)"

lemma obeys_split: "obeys need (later @ e # earlier) \<Longrightarrow> need e earlier"
  by (induction later) auto

lemma obeys_append:
  assumes "obeys need h" and "growing F" and "F h"
    and "\<And>e g. e \<in> set new \<Longrightarrow> F g \<Longrightarrow> need e g"
  shows "obeys need (new @ h)"
  using assms(4)
proof (induction new)
  case Nil
  then show ?case using assms(1) by simp
next
  case (Cons e new)
  then show ?case using growing_append [OF assms(2,3)] by simp
qed

text \<open>\<open>atCfg h0 cfg K s\<close>: the events added to \<open>h0\<close> satisfy \<open>K\<close> and the
  configuration is \<open>cfg\<close>.\<close>

definition atCfg :: "history \<Rightarrow> DcManageConfig \<Rightarrow> (history \<Rightarrow> bool) \<Rightarrow> st \<Rightarrow> bool" where
  "atCfg h0 cfg K s \<longleftrightarrow> since h0 K s \<and> RunningConfig s = cfg"

lemma atCfg_mono: "atCfg h0 cfg K s \<Longrightarrow> (\<And>h. K h \<Longrightarrow> L h) \<Longrightarrow> atCfg h0 cfg L s"
  by (auto simp: atCfg_def intro: since_mono)

lemma atCfg_since: "atCfg h0 cfg K s \<Longrightarrow> (\<And>h. K h \<Longrightarrow> L h) \<Longrightarrow> since h0 L s"
  by (auto simp: atCfg_def intro: since_mono)

text \<open>One phase of a run: a program whose events need nothing but the facts \<open>F\<close> known so
  far, which keeps the configuration, and whose result teaches \<open>L\<close> of the events of the
  phase.\<close>

lemma phase_after:
  assumes m: "emits A m" and cfg: "keeps RunningConfig m" and F: "growing F"
    and ok: "\<And>e h. A e \<Longrightarrow> F h \<Longrightarrow> need e h"
    and learn: "\<And>s x t. RunningConfig s = cfg \<Longrightarrow> m s = (Ret x, t) \<Longrightarrow> L x (newEvents m s)"
  shows "valid (atCfg h0 cfg (\<lambda>h. obeys need h \<and> F h)) m
    (\<lambda>x. atCfg h0 cfg (\<lambda>h. obeys need h \<and> (\<exists>new old. h = new @ old \<and> F old \<and> L x new)))
    (since h0 (obeys need))"
  unfolding valid_def
proof (intro allI impI)
  fix s assume "atCfg h0 cfg (\<lambda>h. obeys need h \<and> F h) s"
  then obtain h where h: "trace s = h @ h0" "obeys need h" "F h" "RunningConfig s = cfg"
    by (auto simp: atCfg_def since_def)
  obtain new where new: "trace (snd (m s)) = new @ trace s" "\<forall>e \<in> set new. A e"
    using m by (rule emitsD)
  have r: "obeys need (new @ h)" using obeys_append [OF h(2) F h(3)] new(2) ok by blast
  have c: "RunningConfig (snd (m s)) = cfg" using keepsD [OF cfg, of s] h(4) by simp
  have e: "newEvents m s = new" using new(1) by (rule newEvents_eq)
  obtain o1 t where t: "m s = (o1, t)" by fastforce
  have tr: "trace t = (new @ h) @ h0" using new(1) h(1) t by simp
  show "post (\<lambda>x. atCfg h0 cfg (\<lambda>h. obeys need h \<and> (\<exists>new old. h = new @ old \<and> F old \<and> L x new)))
      (since h0 (obeys need)) (m s)"
  proof (cases o1)
    case (Ret x)
    then have "L x new" using learn [OF h(4)] t e by blast
    then have "since h0 (\<lambda>h. obeys need h \<and> (\<exists>new old. h = new @ old \<and> F old \<and> L x new)) t"
      using tr r h(3) unfolding since_def by blast
    then show ?thesis using t Ret c by (simp add: atCfg_def)
  qed (use t tr r in \<open>auto simp: since_def\<close>)
qed

lemma phase:
  assumes "emits A m" and "keeps RunningConfig m" and F: "growing F"
    and "\<And>e h. A e \<Longrightarrow> F h \<Longrightarrow> need e h"
    and "\<And>s x t. RunningConfig s = cfg \<Longrightarrow> m s = (Ret x, t) \<Longrightarrow> L x (newEvents m s)"
    and more: "\<And>x new h. L x new \<Longrightarrow> L x (new @ h)"
  shows "valid (atCfg h0 cfg (\<lambda>h. obeys need h \<and> F h)) m
    (\<lambda>x. atCfg h0 cfg (\<lambda>h. obeys need h \<and> F h \<and> L x h)) (since h0 (obeys need))"
  by (rule valid_post [OF phase_after [where L = L, OF assms(1-5)]])
    (auto elim!: atCfg_mono intro: growing_append [OF F] more)

lemma phase_quiet:
  assumes "emits A m" and "keeps RunningConfig m" and "growing F"
    and "\<And>e h. A e \<Longrightarrow> F h \<Longrightarrow> need e h"
  shows "valid (atCfg h0 cfg (\<lambda>h. obeys need h \<and> F h)) m
    (\<lambda>_. atCfg h0 cfg (\<lambda>h. obeys need h \<and> F h)) (since h0 (obeys need))"
  using phase [where L = "\<lambda>_ _. True", OF assms] by simp

lemma valid_stop:
  assumes "\<And>h. K h \<Longrightarrow> obeys need h"
  shows "valid (atCfg h0 cfg K) (ret x) (\<lambda>_. since h0 (obeys need)) (since h0 (obeys need))"
  using assms by (intro valid_ret) (auto intro: atCfg_since)

lemma valid_tryE:
  assumes "valid P m M I" and "\<And>e s. M (Inl e) s \<Longrightarrow> I s" and "\<And>x. valid (M (Inr x)) (f x) (\<lambda>_. I) I"
  shows "valid P (tryE m f) (\<lambda>_. I) I"
  unfolding tryE_def
proof (rule valid_bnd [OF assms(1)])
  fix r show "valid (M r) (case r of Inl e \<Rightarrow> ret (Some e) | Inr x \<Rightarrow> f x) (\<lambda>_. I) I"
    using assms(2,3) by (cases r) (auto intro: valid_ret)
qed

lemma valid_checkE:
  assumes "valid P m M I" and "\<And>e s. M (Some e) s \<Longrightarrow> Q (Some e) s" and "valid (M None) k Q I"
  shows "valid P (checkE m k) Q I"
  unfolding checkE_def
proof (rule valid_bnd [OF assms(1)])
  fix r show "valid (M r) (case r of Some x \<Rightarrow> ret (Some x) | None \<Rightarrow> k) Q I"
    using assms(2,3) by (cases r) (auto intro: valid_ret)
qed

lemma valid_andThen: "valid P m (\<lambda>_. M) I \<Longrightarrow> valid M k Q I \<Longrightarrow> valid P (andThen m k) Q I"
  unfolding andThen_def by (rule valid_bnd)

section \<open>The milestones\<close>

definition versionUrl :: string where
  "versionUrl = localUrl dcStorageListenPort ''/version''"

text \<open>\<open>answered h v i\<close>: dcstorage answered with version \<open>v\<close> and enclave \<open>i\<close>.\<close>

definition answered :: "history \<Rightarrow> string \<Rightarrow> string \<Rightarrow> bool" where
  "answered h v i \<longleftrightarrow> (\<exists>body. EvHttp GET versionUrl (HttpResp 200 body None) \<in> set h \<and>
     parseVersion body = (v, i, None))"

definition ordered :: "DcManageConfig \<Rightarrow> DcProgram \<Rightarrow> history \<Rightarrow> bool" where
  "ordered cfg p h \<longleftrightarrow>
     (\<exists>api key. EvStorage api key (Inr (Some (SvProgram p))) \<in> set h) \<or> p = NewVersion cfg"

definition authorised :: "env \<Rightarrow> DcProgram \<Rightarrow> history \<Rightarrow> bool" where
  "authorised E p h \<longleftrightarrow> (\<exists>e \<in> set h. enclaveEvidence E (EnclaveId p) e)"

definition newer :: "env \<Rightarrow> DcProgram \<Rightarrow> history \<Rightarrow> bool" where
  "newer E p h \<longleftrightarrow> (\<exists>v i lv pv. answered h v i \<and> i \<noteq> EnclaveId p \<and>
     eNewVersion E v = Inr lv \<and> eNewVersion E (Version p) = Inr pv \<and> eLessThan E lv pv)"

definition fetched :: "DcProgram \<Rightarrow> string \<Rightarrow> history \<Rightarrow> bool" where
  "fetched p tag h \<longleftrightarrow>
     tag = OriginUrl p \<and> (\<exists>c \<in> set (MirrCids p). EvLoad (tarPath c) None \<in> set h) \<or>
     tag \<in> {OriginUrl p, MirrorUrl p} \<and> EvPull tag None \<in> set h \<and> EvPullRead None \<in> set h"

definition keyHeld :: "env \<Rightarrow> history \<Rightarrow> bool" where
  "keyHeld E h \<longleftrightarrow>
     (IsSgx2Support E \<longrightarrow> EvHttp GET secretFlagUrl (HttpResp 200 ''true'' None) \<in> set h)"

definition justified :: "env \<Rightarrow> DcManageConfig \<Rightarrow> DcProgram \<Rightarrow> string \<Rightarrow> history \<Rightarrow> bool" where
  "justified E cfg p tag h \<longleftrightarrow> ordered cfg p h \<and> authorised E p h \<and> newer E p h \<and>
     fetched p tag h \<and> keyHeld E h"

definition keyReturned :: "env \<Rightarrow> history \<Rightarrow> bool" where
  "keyReturned E h \<longleftrightarrow>
     (IsSgx2Support E \<longrightarrow> EvHttp GET upgradeFlagUrl (HttpResp 200 ''true'' None) \<in> set h)"

definition saved :: "env \<Rightarrow> DcManageConfig \<Rightarrow> string \<Rightarrow> history \<Rightarrow> bool" where
  "saved E cfg tag h \<longleftrightarrow> (\<exists>c. yamlMarshal E (cfg\<lparr>NodeImage := tag\<rparr>) = Inr c \<and>
     EvWriteFile Config_file_path c None \<in> set h)"

text \<open>The old container is gone: of a listing with containers of dcstorage (by image or
  name) one was removed, or there was none.\<close>

definition oldContainer :: "string \<Rightarrow> containerInfo \<Rightarrow> bool" where
  "oldContainer img c \<longleftrightarrow> c_Image c = img \<or> contains (c_Image c) ''dcstorage'' \<or>
     nodeContainerName \<in> set (c_Names c)"

definition nodeCleared :: "string \<Rightarrow> history \<Rightarrow> bool" where
  "nodeCleared img h \<longleftrightarrow> (\<exists>cs. EvList True (Inr cs) \<in> set h \<and>
     ((\<exists>c \<in> set cs. oldContainer img c \<and> EvRemove (c_ID c) None \<in> set h) \<or>
      (\<forall>c \<in> set cs. \<not> oldContainer img c)))"

text \<open>A container \<open>n\<close> of image \<open>img\<close> was listed or created, and started or found
  running.\<close>

definition containerUp :: "string \<Rightarrow> string \<Rightarrow> history \<Rightarrow> bool" where
  "containerUp n img h \<longleftrightarrow> (\<exists>i.
     ((\<exists>cs. EvList True (Inr cs) \<in> set h \<and> findCreated img n cs = Some i) \<or>
      (\<exists>c hc. EvCreate c hc n (Inr i) \<in> set h \<and> Image c = img)) \<and>
     (EvStart i None \<in> set h \<or> (\<exists>x. EvInspect i (Inr x) \<in> set h \<and> Running x)))"

text \<open>dcstorage was replaced for a justified program: first the evidence, then the removal
  of the old container, then the start of the new one.\<close>

definition cleared :: "env \<Rightarrow> DcManageConfig \<Rightarrow> DcProgram \<Rightarrow> string \<Rightarrow> history \<Rightarrow> bool" where
  "cleared E cfg p tag h \<longleftrightarrow>
     (\<exists>down before. h = down @ before \<and> justified E cfg p tag before \<and> nodeCleared (NodeImage cfg) down)"

definition installed :: "env \<Rightarrow> DcManageConfig \<Rightarrow> DcProgram \<Rightarrow> string \<Rightarrow> history \<Rightarrow> bool" where
  "installed E cfg p tag h \<longleftrightarrow>
     (\<exists>up down. h = up @ down \<and> cleared E cfg p tag down \<and> containerUp nodeContainerName tag up)"

definition rekeyed :: "env \<Rightarrow> DcManageConfig \<Rightarrow> DcProgram \<Rightarrow> string \<Rightarrow> history \<Rightarrow> bool" where
  "rekeyed E cfg p tag h \<longleftrightarrow>
     (\<exists>finish old. h = finish @ old \<and> installed E cfg p tag old \<and> keyReturned E finish)"

definition confirmed :: "env \<Rightarrow> DcProgram \<Rightarrow> history \<Rightarrow> bool" where
  "confirmed E p h \<longleftrightarrow> (\<exists>body i old. h = EvHttp GET versionUrl (HttpResp 200 body None) # old \<and>
     parseVersion body = (Version p, i, None) \<and> (IsSgx2Support E \<longrightarrow> i = EnclaveId p))"

text \<open>The events that take the running dcstorage down: a stop or a removal, other than of
  the helper containers by their names or with the timeout of dcupgrade.\<close>

fun destroysNode :: "event \<Rightarrow> bool" where
  "destroysNode (EvStop r t _) = (t \<noteq> Some 10 \<and>
     r \<notin> {pccsContainerName, teeReportServerContainerName, upgradeContainerName})"
| "destroysNode (EvRemove r _) =
     (r \<notin> {pccsContainerName, teeReportServerContainerName, upgradeContainerName})"
| "destroysNode _ = False"

fun milestone :: "env \<Rightarrow> DcManageConfig \<Rightarrow> event \<Rightarrow> history \<Rightarrow> bool" where
  "milestone E cfg (EvWriteFile path c r) h = (\<exists>p tag. rekeyed E cfg p tag h \<and>
     path = Config_file_path \<and> yamlMarshal E (cfg\<lparr>NodeImage := tag\<rparr>) = Inr c)"
| "milestone E cfg (EvSpawn cmd) h = (\<exists>p tag. justified E cfg p tag h \<and> keyReturned E h \<and>
     saved E cfg tag h \<and> confirmed E p h \<and> cmd = selfCommand E)"
| "milestone E cfg e h = (destroysNode e \<longrightarrow> (\<exists>p tag. justified E cfg p tag h))"

lemma growing_facts:
  "growing (ordered cfg p)" "growing (authorised E p)" "growing (newer E p)" "growing (fetched p tag)"
  "growing (keyHeld E)" "growing (keyReturned E)" "growing (saved E cfg tag)"
  "growing (\<lambda>h. answered h v i)"
  by (auto simp: growing_def ordered_def authorised_def newer_def answered_def fetched_def keyHeld_def
      keyReturned_def saved_def)

lemma growing_conj: "growing F \<Longrightarrow> growing G \<Longrightarrow> growing (\<lambda>h. F h \<and> G h)"
  by (simp add: growing_def)

lemma growing_true: "growing (\<lambda>h. True)"
  by (simp add: growing_def)

lemma growing_justified: "growing (justified E cfg p tag)"
  unfolding justified_def by (intro growing_conj growing_facts)

lemma nodeCleared_more: "nodeCleared img h \<Longrightarrow> nodeCleared img (new @ h)"
  unfolding nodeCleared_def by auto

lemma containerUp_more: "containerUp n img h \<Longrightarrow> containerUp n img (new @ h)"
  and containerUp_old: "containerUp n img h \<Longrightarrow> containerUp n img (h @ old)"
  unfolding containerUp_def by (auto 4 4)

lemma growing_cleared: "growing (cleared E cfg p tag)"
  unfolding growing_def cleared_def by (metis append_Cons nodeCleared_more append_Nil)

lemma growing_installed: "growing (installed E cfg p tag)"
  unfolding growing_def installed_def by (metis append_Cons containerUp_more append_Nil)

lemma growing_rekeyed: "growing (rekeyed E cfg p tag)"
  unfolding growing_def rekeyed_def keyReturned_def by (metis append_Cons list.set_intros(2))

lemma cleared_justified: "cleared E cfg p tag h \<Longrightarrow> justified E cfg p tag h"
  unfolding cleared_def by (auto intro: growing_append [OF growing_justified])

lemma installed_justified: "installed E cfg p tag h \<Longrightarrow> justified E cfg p tag h"
  unfolding installed_def by (auto intro: growing_append [OF growing_justified] cleared_justified)

lemma rekeyed_known: "rekeyed E cfg p tag h \<Longrightarrow> justified E cfg p tag h \<and> keyReturned E h"
  unfolding rekeyed_def
  by (auto intro: growing_append [OF growing_justified] installed_justified simp: keyReturned_def)

section \<open>Events that need nothing\<close>

text \<open>The guarded events: those with a milestone of their own, and the waiting for a tick
  of the background service, which is no part of an upgrade.\<close>

fun guarded :: "event \<Rightarrow> bool" where
  "guarded (EvWriteFile _ _ _) = True"
| "guarded (EvSpawn _) = True"
| "guarded (EvSelect _) = True"
| "guarded _ = False"

definition harmless :: "event \<Rightarrow> bool" where
  "harmless e \<longleftrightarrow> \<not> guarded e \<and> \<not> destroysNode e"

lemma milestone_unguarded:
  "\<not> guarded e \<Longrightarrow> milestone E cfg e h \<longleftrightarrow> (destroysNode e \<longrightarrow> (\<exists>p tag. justified E cfg p tag h))"
  by (cases e) auto

lemma harmless_milestone: "harmless e \<Longrightarrow> milestone E cfg e h"
  by (simp add: harmless_def milestone_unguarded)

lemma justified_milestone: "\<not> guarded e \<Longrightarrow> justified E cfg p tag h \<Longrightarrow> milestone E cfg e h"
  by (auto simp: milestone_unguarded)

lemma harmless_plain: "plainEvent e \<Longrightarrow> harmless e"
  by (cases e) (auto simp: harmless_def)

lemma harmless_chain: "chainEvent e \<Longrightarrow> harmless e"
  by (cases e) (auto simp: harmless_def)

lemma harmless_download: "downloadEvent e \<Longrightarrow> harmless e"
  by (cases e) (auto simp: harmless_def)

lemma harmless_start:
  "startEvent b n e \<Longrightarrow> n \<in> {pccsContainerName, teeReportServerContainerName, upgradeContainerName} \<or> \<not> b
   \<Longrightarrow> harmless e"
  by (cases e) (auto simp: harmless_def)

lemma harmless_stop: "stopEvent 10 e \<Longrightarrow> harmless e"
  by (cases e) (auto simp: harmless_def)

lemma harmless_volume: "volumeEvent e \<Longrightarrow> harmless e"
  by (cases e) (auto simp: harmless_def)

lemma harmless_nodeStart: "nodeStartEvent e \<Longrightarrow> harmless e"
  unfolding nodeStartEvent_def
  using harmless_plain harmless_volume harmless_start by blast

lemma unguarded: "harmless e \<Longrightarrow> \<not> guarded e" "stopEvent w e \<Longrightarrow> \<not> guarded e"
  by (auto simp: harmless_def) (cases e; auto)

section \<open>The phases as components\<close>

interpretation nodeEnsured: component "ensureRunning E" harmless for E
proof unfold_locales
  show "emits harmless (ensureRunning E)"
    unfolding ensureRunning_def
    by (intro emits_intro nodeStatus.weaken pccsStatus.weaken pccsRun.weaken nodeStart.weaken)
      (auto intro: harmless_plain harmless_nodeStart harmless_start)
  show "keeps RunningConfig (ensureRunning E)"
    unfolding ensureRunning_def
    by (intro emits_intro nodeStatus.config pccsStatus.config pccsRun.config nodeStart.config)
qed

interpretation versionFailed: component "versionUnknown E" harmless for E
proof unfold_locales
  show "emits harmless (versionUnknown E)"
    unfolding versionUnknown_def
    by (intro emits_intro upgradeStart.weaken) (auto intro: harmless_start)
  show "keeps RunningConfig (versionUnknown E)"
    unfolding versionUnknown_def by (intro emits_intro upgradeStart.config; simp)
qed

interpretation versionOK: component "versionKnown" "\<lambda>_. False"
  by unfold_locales (unfold versionKnown_def, (intro emits_intro; simp)+)

interpretation programChosen: component "chooseProgram E p" chainEvent for E p
proof unfold_locales
  show "emits chainEvent (chooseProgram E p)"
    unfolding chooseProgram_def by (intro emits_intro enclaveValid.weaken)
  show "keeps RunningConfig (chooseProgram E p)"
    unfolding chooseProgram_def by (intro emits_intro enclaveValid.config)
qed

interpretation upgradeNeeded: component "needUpgrade E v i p" chainEvent for E v i p
proof unfold_locales
  show "emits chainEvent (needUpgrade E v i p)"
    unfolding needUpgrade_def by (intro emits_intro enclaveValid.weaken; simp)
  show "keeps RunningConfig (needUpgrade E v i p)"
    unfolding needUpgrade_def by (intro emits_intro enclaveValid.config; simp)
qed

lemma imagePull_harmless [simp]: "harmless (EvPull i r)" "harmless (EvPullRead r)" "harmless (EvOpen p r)"
  "harmless (EvLoad p r)" "harmless (EvClient r)" "harmless (EvPrint x)" "harmless (EvSleep n)"
  "harmless (EvList b cs)"
  by (simp_all add: harmless_def)

lemma emits_load: "emits harmless (loadFromNetwork E fuel cs)"
  by (induction cs)
    (auto simp: loadDcStorageImage_def NewClientWithOpts_def osOpen_def ImageLoad_def
      intro!: emits_intro peersForCid.weaken ipfsDownload.weaken intro: harmless_chain harmless_download)

lemma keeps_load: "keeps RunningConfig (loadFromNetwork E fuel cs)"
  by (induction cs)
    (auto simp: loadDcStorageImage_def NewClientWithOpts_def osOpen_def ImageLoad_def
      intro!: emits_intro peersForCid.config ipfsDownload.config)

interpretation imageFetched: component "fetchImage E fuel p" harmless for E fuel p
proof unfold_locales
  show "emits harmless (fetchImage E fuel p)"
    unfolding fetchImage_def pullFromRegistry_def pullDcStorageNodeImage_def effects
    by (intro emits_intro emits_load; simp)
  show "keeps RunningConfig (fetchImage E fuel p)"
    unfolding fetchImage_def pullFromRegistry_def pullDcStorageNodeImage_def effects
    by (intro emits_intro keeps_load; simp)
qed

interpretation handover: component "prepareHandover E" harmless for E
proof unfold_locales
  show "emits harmless (prepareHandover E)"
    unfolding prepareHandover_def
    by (intro emits_intro upgradeStop.weaken upgradeStart.weaken secretWait.weaken)
      (auto intro: harmless_stop harmless_start harmless_plain)
  show "keeps RunningConfig (prepareHandover E)"
    unfolding prepareHandover_def
    by (intro emits_intro upgradeStop.config upgradeStart.config secretWait.config)
qed

lemma emits_removeNamed: "emits (\<lambda>e. \<exists>r x. e = EvRemove r x) (removeNamed E i ns e)"
  by (induction ns arbitrary: e) (auto simp: ContainerRemove_def intro!: emits_intro)

lemma keeps_removeNamed: "keeps RunningConfig (removeNamed E i ns e)"
  by (induction ns arbitrary: e) (auto simp: ContainerRemove_def intro!: emits_intro)

lemma emits_removeOld: "emits (\<lambda>e. \<not> guarded e) (removeOld E img cs e)"
  by (induction cs arbitrary: e)
    (auto simp: ContainerRemove_def println_def intro!: emits_intro emits_mono [OF emits_removeNamed])

lemma keeps_removeOld: "keeps RunningConfig (removeOld E img cs e)"
  by (induction cs arbitrary: e)
    (auto simp: ContainerRemove_def println_def intro!: emits_intro keeps_removeNamed)

interpretation nodeRemoved: component "removeDcStorageNodeInDocker E" "\<lambda>e. \<not> guarded e" for E
proof unfold_locales
  show "emits (\<lambda>e. \<not> guarded e) (removeDcStorageNodeInDocker E)"
    unfolding removeDcStorageNodeInDocker_def effects by (intro emits_intro emits_removeOld; simp)
  show "keeps RunningConfig (removeDcStorageNodeInDocker E)"
    unfolding removeDcStorageNodeInDocker_def effects by (intro emits_intro keeps_removeOld; simp)
qed

interpretation handoverDone: component "finishHandover E fuel" harmless for E fuel
proof unfold_locales
  show "emits harmless (finishHandover E fuel)"
    unfolding finishHandover_def
    by (intro emits_intro upgradeStop.weaken newSecretWait.weaken)
      (auto intro: harmless_stop harmless_plain)
  show "keeps RunningConfig (finishHandover E fuel)"
    unfolding finishHandover_def by (intro emits_intro upgradeStop.config newSecretWait.config)
qed

section \<open>What the phases find out\<close>

text \<open>\<open>teaches m L\<close>: a result \<open>x\<close> of \<open>m\<close> comes with new events that satisfy
  \<open>L x\<close>.\<close>

definition teaches :: "'a go \<Rightarrow> ('a \<Rightarrow> history \<Rightarrow> bool) \<Rightarrow> bool" where
  "teaches m L \<longleftrightarrow> (\<forall>s x t new. m s = (Ret x, t) \<longrightarrow> trace t = new @ trace s \<longrightarrow> L x new)"

lemma teachesD: "teaches m L \<Longrightarrow> m s = (Ret x, t) \<Longrightarrow> trace t = new @ trace s \<Longrightarrow> L x new"
  by (simp add: teaches_def)

lemma teaches_ret: "L x [] \<Longrightarrow> teaches (ret x) L"
  by (auto simp: teaches_def ret_def)

lemma teaches_ext: "(\<And>r. L r [mk r]) \<Longrightarrow> teaches (ext f mk) L"
  by (auto simp: teaches_def ext_def)

lemma teaches_exitWith: "teaches (exitWith c) L"
  by (auto simp: teaches_def exitWith_def)

lemma teaches_any: "(\<And>x new. L x new) \<Longrightarrow> teaches m L"
  by (auto simp: teaches_def)

lemma teaches_mono: "teaches m K \<Longrightarrow> (\<And>x new. K x new \<Longrightarrow> L x new) \<Longrightarrow> teaches m L"
  by (auto simp: teaches_def)

lemma teaches_bnd:
  assumes m: "teaches m K" and em: "emits A m"
    and f: "\<And>x old. K x old \<Longrightarrow> teaches (f x) (\<lambda>y new. L y (new @ old))"
    and ef: "\<And>x. emits B (f x)"
  shows "teaches (bnd m f) L"
  unfolding teaches_def
proof (intro allI impI)
  fix s y t new assume step: "bnd m f s = (Ret y, t)" and tr: "trace t = new @ trace s"
  obtain x u where u: "m s = (Ret x, u)" "f x u = (Ret y, t)" using step by (rule bnd_Ret)
  obtain n1 where n1: "trace u = n1 @ trace s" using emitsD [OF em, of s] u by auto
  obtain n2 where n2: "trace t = n2 @ trace u" using emitsD [OF ef, of x u] u by auto
  have "L y (n2 @ n1)" using teachesD [OF f [OF teachesD [OF m u(1) n1]] u(2) n2] .
  then show "L y new" using n1 n2 tr by simp
qed

text \<open>What the last part of a sequence teaches, when it is not lost by earlier events.\<close>

lemma teaches_last:
  assumes "emits A m" and "\<And>x. emits B (f x)" and "\<And>x. teaches (f x) L"
    and "\<And>y new old. L y new \<Longrightarrow> L y (new @ old)"
  shows "teaches (bnd m f) L"
  by (rule teaches_bnd [OF teaches_any [of "\<lambda>_ _. True"] assms(1) _ assms(2)])
    (auto intro: teaches_mono [OF assms(3)] assms(4))

lemma teaches_case_sum:
  "(\<And>e. teaches (f e) L) \<Longrightarrow> (\<And>x. teaches (g x) L) \<Longrightarrow> teaches (case r of Inl e \<Rightarrow> f e | Inr x \<Rightarrow> g x) L"
  by (cases r) auto

lemma teaches_case_prod: "(\<And>a b. teaches (f a b) L) \<Longrightarrow> teaches (case p of (a, b) \<Rightarrow> f a b) L"
  by (cases p) auto

lemma teaches_version:
  "teaches (getVersionByHttpGet E dcStorageListenPort)
     (\<lambda>(v, i, e) new. e = None \<longrightarrow> (\<exists>body old. new = EvHttp GET versionUrl (HttpResp 200 body None) # old \<and>
        parseVersion body = (v, i, None)))"
  unfolding teaches_def
  by (auto simp: getVersionByHttpGet_def run withArgs_def versionUrl_def httpResult_ok
      parseVersion_def split: sum.splits)

lemma answered_version:
  "teaches (getVersionByHttpGet E dcStorageListenPort) (\<lambda>(v, i, e) new. e = None \<longrightarrow> answered new v i)"
  by (rule teaches_mono [OF teaches_version]) (auto simp: answered_def)

lemma teaches_program:
  "teaches (getRecommendProgram E a m) (\<lambda>r new. case r of Inl _ \<Rightarrow> True | Inr p \<Rightarrow>
     \<exists>api key. EvStorage api key (Inr (Some (SvProgram p))) \<in> set new)"
  by (auto simp: teaches_def getRecommendProgram_def getStorage_def run split: sum.splits option.splits)

lemma emits_program: "emits chainEvent (getRecommendProgram E a m)"
  unfolding query_defs by (intro emits_intro; simp)

lemma teaches_configed:
  "teaches (GetConfigedDcStorageInfo E fuel) (\<lambda>r new. case r of Inl _ \<Rightarrow> True | Inr p \<Rightarrow>
     \<exists>api key. EvStorage api key (Inr (Some (SvProgram p))) \<in> set new)"
  unfolding GetConfigedDcStorageInfo_def andThen_def
  by (intro teaches_last [where A = chainEvent and B = chainEvent] teaches_case_sum teaches_case_prod teaches_ret
      teaches_program emits_program chain_intro emits_intro) (auto split: sum.splits)

lemma teaches_valid:
  "teaches (IfEnclaveIdValid E i) (\<lambda>ok new. ok \<longrightarrow> (\<exists>e \<in> set new. enclaveEvidence E i e))"
  unfolding teaches_def
proof (intro allI impI)
  fix s ok t new assume "IfEnclaveIdValid E i s = (Ret ok, t)" "trace t = new @ trace s" ok
  then show "\<exists>e \<in> set new. enclaveEvidence E i e"
    using enclaveValid_iff [of E i s] newEvents_eq [of "IfEnclaveIdValid E i" s new] by simp
qed

lemma teaches_chosen:
  "chooseProgram E p s = (Ret (Inr q), t) \<Longrightarrow> q = p \<or> q = NewVersion (RunningConfig s)"
  by (auto simp: chooseProgram_def run split: sum.splits if_splits outcome.splits)

lemma teaches_needed:
  "teaches (needUpgrade E v i p) (\<lambda>r new. r = Inr True \<longrightarrow> i \<noteq> EnclaveId p \<and> authorised E p new \<and>
     (\<exists>lv pv. eNewVersion E v = Inr lv \<and> eNewVersion E (Version p) = Inr pv \<and> eLessThan E lv pv))"
proof (cases "i = EnclaveId p")
  case True
  then show ?thesis by (auto simp: teaches_def needUpgrade_def andThen_def run)
next
  case False
  have "teaches (bnd (IfEnclaveIdValid E (EnclaveId p)) (\<lambda>valid.
             if \<not> valid then ret (Inr False)
             else (case eNewVersion E v of
                 Inl e \<Rightarrow> ret (Inl e)
               | Inr localVersion \<Rightarrow> (case eNewVersion E (Version p) of
                     Inl e \<Rightarrow> ret (Inl e)
                   | Inr configedVersion \<Rightarrow> ret (Inr (eLessThan E localVersion configedVersion))))))
     (\<lambda>r new. r = Inr True \<longrightarrow> i \<noteq> EnclaveId p \<and> authorised E p new \<and>
       (\<exists>lv pv. eNewVersion E v = Inr lv \<and> eNewVersion E (Version p) = Inr pv \<and> eLessThan E lv pv))"
    using False
    by (intro teaches_bnd [OF teaches_valid enclaveValid.events, where B = "\<lambda>_. False"])
      (auto simp: authorised_def intro!: teaches_ret emits_intro split: sum.split)
  then show ?thesis using False unfolding needUpgrade_def andThen_def
    by (auto simp: teaches_def run)
qed

lemma emits_any: "emits A m \<Longrightarrow> emits (\<lambda>_. True) m"
  by (erule emits_mono) simp

lemma teaches_case_option:
  "teaches n L \<Longrightarrow> (\<And>x. teaches (g x) L) \<Longrightarrow> teaches (case r of None \<Rightarrow> n | Some x \<Rightarrow> g x) L"
  by (cases r) auto

lemma teaches_if: "teaches m L \<Longrightarrow> teaches k L \<Longrightarrow> teaches (if b then m else k) L"
  by auto

lemma teaches_ifI:
  "(b \<Longrightarrow> teaches m L) \<Longrightarrow> (\<not> b \<Longrightarrow> teaches k L) \<Longrightarrow> teaches (if b then m else k) L"
  by simp

lemma loaded: "teaches (loadDcStorageImage E p) (\<lambda>e new. e = None \<longrightarrow> EvLoad p None \<in> set new)"
  by (auto simp: teaches_def loadDcStorageImage_def effects run andThen_def checkE_def split: option.splits)

lemma emits_loadImage: "emits (\<lambda>_. True) (loadDcStorageImage E p)"
  unfolding loadDcStorageImage_def effects by (intro emits_intro; simp)

lemma teaches_load:
  "teaches (loadFromNetwork E fuel cs) (\<lambda>ok new. ok \<longrightarrow> (\<exists>c \<in> set cs. EvLoad (tarPath c) None \<in> set new))"
proof (induction cs)
  case Nil
  then show ?case by (auto intro: teaches_ret)
next
  case (Cons c cs)
  let ?L = "\<lambda>ok new. ok \<longrightarrow> (\<exists>x \<in> set (c # cs). EvLoad (tarPath x) None \<in> set new)"
  let ?next = "loadFromNetwork E fuel cs"
  have next_ok: "teaches ?next ?L" by (rule teaches_mono [OF Cons]) auto
  have em: "emits (\<lambda>_. True) ?next" by (rule emits_any [OF emits_load])
  let ?load = "\<lambda>e. case e of None \<Rightarrow> bnd (loadDcStorageImage E (tarPath c))
      (\<lambda>le. case le of None \<Rightarrow> ret True | Some _ \<Rightarrow> ?next) | Some _ \<Rightarrow> ?next"
  have l: "teaches (?load e) ?L" for e
  proof (cases e)
    case None
    have "teaches (bnd (loadDcStorageImage E (tarPath c)) (\<lambda>le. case le of None \<Rightarrow> ret True | Some _ \<Rightarrow> ?next)) ?L"
      by (rule teaches_bnd [OF loaded emits_loadImage])
        (auto intro!: teaches_ret teaches_mono [OF next_ok] emits_intro em split: option.split)
    then show ?thesis using None by simp
  next
    case (Some x)
    then show ?thesis using next_ok by (simp only: option.case)
  qed
  have eml: "emits (\<lambda>_. True) (?load e)" for e
    by (intro emits_intro em emits_loadImage)
  have d: "teaches (bnd (DownloadFromIpfs E c [] (tarPath c) addrs timeHour) ?load) ?L" for addrs
    by (rule teaches_last [OF ipfsDownload.events eml l]) auto
  have emd: "emits (\<lambda>_. True) (bnd (DownloadFromIpfs E c [] (tarPath c) addrs timeHour) ?load)" for addrs
    by (intro emits_bnd eml emits_any [OF ipfsDownload.events])
  show ?case unfolding loadFromNetwork.simps
  proof (rule teaches_last [OF peersForCid.events, where B = "\<lambda>_. True"], goal_cases)
    case 1
    show ?case by (intro emits_case_sum emits_case_prod emits_if em emd)
  next
    case 2
    show ?case by (intro teaches_case_sum teaches_case_prod teaches_if next_ok d)
  qed auto
qed

lemma pulled:
  "teaches (pullDcStorageNodeImage E img)
     (\<lambda>e new. e = None \<longrightarrow> EvPull img None \<in> set new \<and> EvPullRead None \<in> set new)"
  by (auto simp: teaches_def pullDcStorageNodeImage_def effects run checkE_def split: option.splits)

lemma emits_pull: "emits (\<lambda>_. True) (pullDcStorageNodeImage E img)"
  unfolding pullDcStorageNodeImage_def effects by (intro emits_intro; simp)

lemma fetched_append: "fetched p tag new \<Longrightarrow> fetched p tag (new @ old)"
  by (auto simp: fetched_def)

lemma teaches_registry:
  "teaches (pullFromRegistry E p) (\<lambda>r new. case r of Inl _ \<Rightarrow> True | Inr tag \<Rightarrow> fetched p tag new)"
proof -
  let ?L = "\<lambda>r new. case r of Inl (_ :: goerr) \<Rightarrow> True | Inr tag \<Rightarrow> fetched p tag new"
  have one: "teaches (bnd (pullDcStorageNodeImage E img) (\<lambda>e. case e of None \<Rightarrow> ret (Inr img) | Some x \<Rightarrow> k x)) ?L"
    if "img \<in> {OriginUrl p, MirrorUrl p}" and k: "\<And>x. teaches (k x) ?L" and ek: "\<And>x. emits (\<lambda>_. True) (k x)"
    for img k
    by (rule teaches_bnd [OF pulled emits_pull])
      (use that(1) in \<open>auto simp: fetched_def intro!: teaches_ret emits_intro ek
        teaches_mono [OF k] split: option.split sum.splits\<close>)
  have two: "teaches (bnd (pullDcStorageNodeImage E a) (\<lambda>e. case e of None \<Rightarrow> ret (Inr a)
      | Some _ \<Rightarrow> bnd (pullDcStorageNodeImage E b) (\<lambda>e2. case e2 of None \<Rightarrow> ret (Inr b) | Some x \<Rightarrow> ret (Inl x)))) ?L"
    if "a \<in> {OriginUrl p, MirrorUrl p}" "b \<in> {OriginUrl p, MirrorUrl p}" for a b
    by (intro one that teaches_ret emits_intro emits_pull) auto
  show ?thesis unfolding pullFromRegistry_def Let_def
  proof (rule teaches_last [where A = "\<lambda>_. True" and B = "\<lambda>_. True"], goal_cases)
    case 3
    show ?case by (rule two) simp_all
  qed (auto intro!: emits_intro emits_pull fetched_append split: sum.splits)
qed

lemma teaches_fetch:
  "teaches (fetchImage E fuel p) (\<lambda>r new. case r of Inl _ \<Rightarrow> True | Inr tag \<Rightarrow> fetched p tag new)"
  unfolding fetchImage_def
proof (rule teaches_bnd [OF teaches_load emits_load])
  fix ok old assume "ok \<longrightarrow> (\<exists>c \<in> set (MirrCids p). EvLoad (tarPath c) None \<in> set old)"
  then show "teaches (if ok then ret (Inr (OriginUrl p)) else pullFromRegistry E p)
      (\<lambda>r new. case r of Inl _ \<Rightarrow> True | Inr tag \<Rightarrow> fetched p tag (new @ old))"
    by (auto simp: fetched_def intro!: teaches_ret teaches_mono [OF teaches_registry] split: sum.splits)
next
  show "emits (\<lambda>_. True) (if ok then ret (Inr (OriginUrl p)) else pullFromRegistry E p)" for ok
    unfolding pullFromRegistry_def Let_def by (intro emits_intro emits_pull)
qed

lemma teaches_secret:
  "teaches (waitDcUpdateGetPeerSecret E) (\<lambda>(ok, e) new. e = None \<longrightarrow>
     EvHttp GET secretFlagUrl (HttpResp 200 ''true'' None) \<in> set new)"
  unfolding teaches_def using waitDcUpdate_seen by fastforce

lemma teaches_newSecret:
  "teaches (waitNewDcGetPeerSecret E fuel) (\<lambda>(ok, e) new. e = None \<longrightarrow>
     EvHttp GET upgradeFlagUrl (HttpResp 200 ''true'' None) \<in> set new)"
  unfolding teaches_def waitNewDcGetPeerSecret_def using waitNewDc_seen by fastforce

lemma teaches_keyHeld: "teaches (prepareHandover E) (\<lambda>e new. e = None \<longrightarrow> keyHeld E new)"
proof (cases "IsSgx2Support E")
  case False
  then show ?thesis by (intro teaches_any) (simp add: keyHeld_def)
next
  case True
  let ?L = "\<lambda>e :: err. \<lambda>new. e = None \<longrightarrow> keyHeld E new"
  have w: "teaches (bnd (waitDcUpdateGetPeerSecret E) (\<lambda>(_, e). ret e)) ?L"
    by (rule teaches_bnd [OF teaches_secret secretWait.events, where B = "\<lambda>_. True"])
      (auto intro!: teaches_ret emits_intro simp: keyHeld_def)
  have ew: "emits (\<lambda>_. True) (bnd (waitDcUpdateGetPeerSecret E) (\<lambda>(_, e). ret e))"
    by (intro emits_bnd emits_any [OF secretWait.events] emits_case_prod emits_ret)
  have append: "?L e new \<Longrightarrow> ?L e (new @ old)" for e new old by (auto simp: keyHeld_def)
  have "teaches (checkE (startDcupgradeInDocker E) (bnd (waitDcUpdateGetPeerSecret E) (\<lambda>(_, e). ret e))) ?L"
    unfolding checkE_def
    by (rule teaches_last [OF upgradeStart.events, where B = "\<lambda>_. True"])
      (auto intro!: emits_case_option ew emits_ret teaches_case_option w teaches_ret append)
  then show ?thesis using True unfolding prepareHandover_def andThen_def
    by (auto intro!: teaches_last [OF upgradeStop.events, where B = "\<lambda>_. True"] emits_checkE ew
        emits_any [OF upgradeStart.events] append)
qed

lemma teaches_keyReturned: "teaches (finishHandover E fuel) (\<lambda>e new. e = None \<longrightarrow> keyReturned E new)"
proof (cases "IsSgx2Support E")
  case False
  then show ?thesis by (intro teaches_any) (simp add: keyReturned_def)
next
  case True
  have st: "teaches (andThen (stopUpgradeInDocker E) (ret None))
      (\<lambda>e new. e = None \<longrightarrow> keyReturned E (new @ old))"
    if "EvHttp GET upgradeFlagUrl (HttpResp 200 ''true'' None) \<in> set old" for old
    using that by (intro teaches_any) (simp add: keyReturned_def)
  show ?thesis using True unfolding finishHandover_def
    by (auto intro!: teaches_bnd [OF teaches_newSecret newSecretWait.events, where B = "\<lambda>_. True"]
        st teaches_ret emits_intro emits_any [OF upgradeStop.events] split: option.split)
qed

lemma emits_newVersion: "emits plainEvent (newVersionLoop E count)"
proof (induction "61 - count" arbitrary: count rule: less_induct)
  case less
  have again: "\<not> 60 < Suc count \<Longrightarrow> emits plainEvent (newVersionLoop E (Suc count))"
    using less by auto
  show ?case
    by (subst newVersionLoop.simps)
      (intro emits_bnd versionGet.weaken emits_case_prod emits_if emits_ret emits_andThen again;
        simp add: sleep_def emits_emit)
qed

lemma keeps_newVersion: "keeps RunningConfig (newVersionLoop E count)"
proof (induction "61 - count" arbitrary: count rule: less_induct)
  case less
  have again: "keeps RunningConfig (if 60 < Suc count then ret x else newVersionLoop E (Suc count))" for x
    using less by (simp add: keeps_ret)
  show ?case
    by (subst newVersionLoop.simps)
      (intro keeps_bnd versionGet.config keeps_case_prod again keeps_if keeps_ret keeps_andThen;
        simp add: sleep_def keeps_emit)
qed

lemma newVersion_seen:
  "newVersionLoop E count s = (Ret (v, i, e), t) \<Longrightarrow>
   if e = None then \<exists>body old. trace t = EvHttp GET versionUrl (HttpResp 200 body None) # old @ trace s \<and>
     parseVersion body = (v, i, None)
   else v = []"
proof (induction "61 - count" arbitrary: count s rule: less_induct)
  case less
  let ?r = "eHttp E (trace s) GET versionUrl"
  let ?u = "s\<lparr>trace := EvHttp GET versionUrl ?r # trace s\<rparr>"
  let ?w = "?u\<lparr>trace := EvSleep 10 # trace ?u\<rparr>"
  obtain v1 i1 e1 where probe: "getVersionByHttpGet E dcStorageListenPort s = (Ret (v1, i1, e1), ?u)"
      and ok: "if e1 = None then \<exists>body. ?r = HttpResp 200 body None \<and> parseVersion body = (v1, i1, None)
        else v1 = []"
  proof (cases "httpResult ''get'' ?r")
    case (Inl e1)
    then show thesis
      by (intro that [of "[]" "[]" "Some e1"]) (simp_all add: getVersionByHttpGet_def run withArgs_def versionUrl_def)
  next
    case (Inr body)
    obtain v1 i1 e1 where p: "parseVersion body = (v1, i1, e1)" by (metis prod.collapse)
    have "e1 \<noteq> None \<Longrightarrow> v1 = []" using p by (auto simp: parseVersion_def split: list.splits)
    then show thesis using Inr p httpResult_ok [of "''get''" ?r body]
      by (intro that [of v1 i1 e1]) (simp_all add: getVersionByHttpGet_def run withArgs_def versionUrl_def)
  qed
  have step: "newVersionLoop E count s = (if e1 = None then (Ret (v1, i1, e1), ?u)
      else if 60 < Suc count then (Ret (v1, i1, e1), ?w) else newVersionLoop E (Suc count) ?w)"
    by (subst newVersionLoop.simps) (simp add: run probe andThen_def sleep_def emit_def)
  consider "e1 = None" | "e1 \<noteq> None" "60 < Suc count" | "e1 \<noteq> None" "\<not> 60 < Suc count" by blast
  then show ?case
  proof cases
    case 3
    have dec: "61 - Suc count < 61 - count" using 3(2) by arith
    have "if e = None then \<exists>body old. trace t = EvHttp GET versionUrl (HttpResp 200 body None) # old @ trace ?w \<and>
        parseVersion body = (v, i, None) else v = []"
      using less.hyps [OF dec, of ?w] less.prems step 3 by simp
    moreover have "trace ?w = [EvSleep 10, EvHttp GET versionUrl ?r] @ trace s" by simp
    ultimately show ?thesis by (metis append.assoc)
  qed (use step ok less.prems in \<open>auto split: if_splits\<close>)
qed

section \<open>The phases in order\<close>

lemma since_atCfg: "atCfg h0 cfg (\<lambda>h. obeys need h \<and> F h) s \<Longrightarrow> since h0 (obeys need) s"
  by (auto intro: atCfg_since)

lemma newEvents_seen: "m s = (Ret x, t) \<Longrightarrow> trace t = new @ trace s \<Longrightarrow> newEvents m s = new"
  by (rule newEvents_eq) simp

text \<open>A phase whose lesson was stated by \<open>teaches\<close>.\<close>

lemma phase_teaches:
  assumes m: "emits A m" and cfg: "keeps RunningConfig m" and F: "growing F"
    and ok: "\<And>e h. A e \<Longrightarrow> F h \<Longrightarrow> need e h"
    and learn: "teaches m L" and more: "\<And>x new h. L x new \<Longrightarrow> L x (new @ h)"
  shows "valid (atCfg h0 cfg (\<lambda>h. obeys need h \<and> F h)) m
    (\<lambda>x. atCfg h0 cfg (\<lambda>h. obeys need h \<and> F h \<and> L x h)) (since h0 (obeys need))"
proof (rule phase [where L = L and F = F and need = need, OF m cfg F ok])
  fix s x t assume "m s = (Ret x, t)"
  then show "L x (newEvents m s)"
    using teachesD [OF learn] emits_trace [OF m, of s] by simp
qed (auto intro: more)

lemma valid_spawn:
  assumes "\<And>h. K h \<Longrightarrow> obeys need h \<and> need (EvSpawn cmd) h"
  shows "valid (atCfg h0 c K) (andThen (emit (EvSpawn cmd)) (exitWith 0))
    (\<lambda>_. since h0 (obeys need)) (since h0 (obeys need))"
  unfolding valid_def
proof (intro allI impI)
  fix s assume "atCfg h0 c K s"
  then obtain h where "trace s = h @ h0" "K h" by (auto simp: atCfg_def since_def)
  then have "since h0 (obeys need) (s\<lparr>trace := EvSpawn cmd # trace s\<rparr>)"
    using assms [of h] by (auto simp: since_def intro!: exI [of _ "EvSpawn cmd # h"])
  then show "post (\<lambda>_. since h0 (obeys need)) (since h0 (obeys need))
      (andThen (emit (EvSpawn cmd)) (exitWith 0) s)"
    by (simp add: andThen_def emit_def run)
qed

definition newVersionLesson :: "string \<times> string \<times> err \<Rightarrow> history \<Rightarrow> bool" where
  "newVersionLesson x h = (case x of (v, i, e) \<Rightarrow> if e = None
     then \<exists>body old. h = EvHttp GET versionUrl (HttpResp 200 body None) # old \<and> parseVersion body = (v, i, None)
     else v = [])"

lemma confirm_valid:
  assumes nv: "\<And>pv. eNewVersion E [] \<noteq> Inr pv"
    and G: "growing G" "\<And>h. G h \<Longrightarrow> justified E cfg p tag h \<and> keyReturned E h \<and> saved E cfg tag h"
  shows "valid (atCfg h0 c (\<lambda>h. obeys (milestone E cfg) h \<and> G h)) (confirmNode E p)
    (\<lambda>_. since h0 (obeys (milestone E cfg))) (since h0 (obeys (milestone E cfg)))"
  unfolding confirmNode_def
proof (rule valid_bnd, rule phase [where L = newVersionLesson, OF emits_newVersion keeps_newVersion G(1)])
  show "milestone E cfg e h" if "plainEvent e" for e h
    using that by (simp add: harmless_plain harmless_milestone)
next
  fix s x t assume m: "newVersionLoop E 0 s = (Ret x, t)"
  obtain v i e where x: "x = (v, i, e)" by (cases x) auto
  have "trace t = newEvents (newVersionLoop E 0) s @ trace s"
    using emits_trace [OF emits_newVersion, of E 0 s] m by simp
  then show "newVersionLesson x (newEvents (newVersionLoop E 0) s)"
    using newVersion_seen [OF m [unfolded x]] unfolding x newVersionLesson_def by (auto split: if_splits)
next
  fix x :: "string \<times> string \<times> err"
  obtain v i e where x: "x = (v, i, e)" by (cases x) auto
  let ?K = "\<lambda>h. obeys (milestone E cfg) h \<and> G h \<and> newVersionLesson x h"
  let ?I = "since h0 (obeys (milestone E cfg))"
  have ms: "stopEvent 60 e \<Longrightarrow> G h \<Longrightarrow> milestone E cfg e h" for e h
    using G(2) unguarded(2) justified_milestone by blast
  have stop: "valid (atCfg h0 c ?K) (andThen (stopDcnodeInDocker E) (ret e)) (\<lambda>_. ?I) ?I"
  proof (rule valid_pre)
    show "valid (atCfg h0 c (\<lambda>h. obeys (milestone E cfg) h \<and> G h)) (andThen (stopDcnodeInDocker E) (ret e)) (\<lambda>_. ?I) ?I"
      by (rule valid_andThen, rule phase_quiet [OF nodeStop.events nodeStop.config G(1)])
        (auto intro: valid_stop ms)
  qed (auto simp: atCfg_def since_def)
  have restart: "valid (atCfg h0 c ?K) (andThen (emit (EvSpawn (selfCommand E))) (exitWith 0)) (\<lambda>_. ?I) ?I"
    if v: "v = Version p" and i: "i = EnclaveId p \<or> \<not> IsSgx2Support E"
  proof (rule valid_spawn)
    fix h assume K: "?K h"
    have j: "justified E cfg p tag h" "keyReturned E h" "saved E cfg tag h" using G(2) K by auto
    have "Version p \<noteq> []" using j(1) nv by (auto simp: justified_def newer_def)
    then have "confirmed E p h" using K v i x by (auto simp: newVersionLesson_def confirmed_def split: if_splits)
    then show "obeys (milestone E cfg) h \<and> milestone E cfg (EvSpawn (selfCommand E)) h"
      using K j by auto
  qed
  show "valid (atCfg h0 c (\<lambda>h. obeys (milestone E cfg) h \<and> G h \<and> newVersionLesson x h)) (case x of (version, enclaveId, e) \<Rightarrow>
       if version \<noteq> Version p then ret e
       else if enclaveId \<noteq> EnclaveId p \<and> IsSgx2Support E
       then andThen (stopDcnodeInDocker E) (ret e)
       else andThen (emit (EvSpawn (selfCommand E))) (exitWith 0)) (\<lambda>_. ?I) ?I"
    using stop restart unfolding x prod.case by (auto intro: valid_stop)
qed (auto simp: newVersionLesson_def split: if_splits)

lemma save_valid:
  assumes "\<And>h. G h \<Longrightarrow> rekeyed E cfg p tag h" and "growing G"
  shows "valid (atCfg h0 (cfg\<lparr>NodeImage := tag\<rparr>) (\<lambda>h. obeys (milestone E cfg) h \<and> G h))
    (bnd (reads RunningConfig) (SaveConfig E))
    (\<lambda>e. atCfg h0 (cfg\<lparr>NodeImage := tag\<rparr>) (\<lambda>h. obeys (milestone E cfg) h \<and> G h \<and> saved E cfg tag h))
    (since h0 (obeys (milestone E cfg)))"
  unfolding valid_def
proof (intro allI impI)
  fix s assume "atCfg h0 (cfg\<lparr>NodeImage := tag\<rparr>) (\<lambda>h. obeys (milestone E cfg) h \<and> G h) s"
  then obtain h where h: "trace s = h @ h0" "obeys (milestone E cfg) h" "G h"
      "RunningConfig s = cfg\<lparr>NodeImage := tag\<rparr>" by (auto simp: atCfg_def since_def)
  let ?Q = "\<lambda>e. atCfg h0 (cfg\<lparr>NodeImage := tag\<rparr>)
      (\<lambda>h. obeys (milestone E cfg) h \<and> G h \<and> saved E cfg tag h)"
  let ?I = "since h0 (obeys (milestone E cfg))"
  show "post ?Q ?I (bnd (reads RunningConfig) (SaveConfig E) s)"
  proof (cases "yamlMarshal E (cfg\<lparr>NodeImage := tag\<rparr>)")
    case (Inl x)
    then show ?thesis using h by (auto simp: SaveConfig_def run since_def)
  next
    case (Inr c)
    let ?r = "eWriteFile E (trace s) Config_file_path c"
    let ?e = "EvWriteFile Config_file_path c ?r"
    have need: "milestone E cfg ?e h" using assms(1) [OF h(3)] Inr by auto
    have "G (?e # h)" using assms(2) h(3) by (simp add: growing_def)
    moreover have "?r = None \<Longrightarrow> saved E cfg tag (?e # h)" using Inr by (auto simp: saved_def)
    moreover have "obeys (milestone E cfg) (?e # h)" using h(2) need by simp
    ultimately show ?thesis using h(1,4) Inr
      by (auto simp: SaveConfig_def osWriteFile_def run atCfg_def since_def split: option.split)
  qed
qed

text \<open>The replacement: what the removal and the start of dcstorage tell when they return
  \<open>nil\<close>.\<close>

lemma removeNamed_runs:
  "\<exists>r e new t. removeNamed E i ns le s = (Ret (r, e), t) \<and> trace t = new @ trace s \<and>
     (if r then nodeContainerName \<in> set ns \<and> EvRemove i None \<in> set new
      else if nodeContainerName \<in> set ns then e \<noteq> None else e = le)"
proof (induction ns arbitrary: le s)
  case Nil
  then show ?case by (auto simp: run)
next
  case (Cons n ns)
  show ?case
  proof (cases "n = nodeContainerName")
    case True
    let ?r = "eRemove E (trace s) i"
    let ?u = "s\<lparr>trace := EvRemove i ?r # trace s\<rparr>"
    show ?thesis
    proof (cases ?r)
      case None
      then show ?thesis using True by (auto simp: ContainerRemove_def run intro: exI [of _ True])
    next
      case (Some x)
      obtain r e new t where "removeNamed E i ns (Some x) ?u = (Ret (r, e), t)" "trace t = new @ trace ?u"
          "if r then nodeContainerName \<in> set ns \<and> EvRemove i None \<in> set new
           else if nodeContainerName \<in> set ns then e \<noteq> None else e = Some x"
        using Cons.IH by metis
      then show ?thesis using True Some
        by (intro exI [of _ r] exI [of _ e] exI [of _ "new @ [EvRemove i ?r]"])
          (auto simp: ContainerRemove_def run split: if_splits)
    qed
  next
    case False
    then have "removeNamed E i (n # ns) le = removeNamed E i ns le" by simp
    then show ?thesis using Cons.IH [of le s] False by (metis set_ConsD list.set_intros(2))
  qed
qed

lemma teaches_removeNamed:
  "teaches (removeNamed E i ns le) (\<lambda>(r, e) new.
     if r then nodeContainerName \<in> set ns \<and> EvRemove i None \<in> set new
     else if nodeContainerName \<in> set ns then e \<noteq> None else e = le)"
  unfolding teaches_def
proof (intro allI impI)
  fix s x t new assume step: "removeNamed E i ns le s = (Ret x, t)" "trace t = new @ trace s"
  obtain r e new' t' where "removeNamed E i ns le s = (Ret (r, e), t')" "trace t' = new' @ trace s"
      "if r then nodeContainerName \<in> set ns \<and> EvRemove i None \<in> set new'
       else if nodeContainerName \<in> set ns then e \<noteq> None else e = le"
    using removeNamed_runs by metis
  then show "(case x of (r, e) \<Rightarrow> \<lambda>new. if r then nodeContainerName \<in> set ns \<and> EvRemove i None \<in> set new
      else if nodeContainerName \<in> set ns then e \<noteq> None else e = le) new"
    using step by auto
qed

lemma teaches_removeOld:
  "teaches (removeOld E img cs le) (\<lambda>e new. e = None \<longrightarrow>
     (\<exists>c \<in> set cs. oldContainer img c \<and> EvRemove (c_ID c) None \<in> set new) \<or>
     le = None \<and> (\<forall>c \<in> set cs. \<not> oldContainer img c))"
proof (induction cs arbitrary: le)
  case Nil
  then show ?case by (auto simp: teaches_def println_def andThen_def emit_def run)
next
  case (Cons c cs)
  let ?L = "\<lambda>e new. e = None \<longrightarrow>
     (\<exists>d \<in> set (c # cs). oldContainer img d \<and> EvRemove (c_ID d) None \<in> set new) \<or>
     le = None \<and> (\<forall>d \<in> set (c # cs). \<not> oldContainer img d)"
  have em: "emits (\<lambda>_. True) (removeOld E img cs x)" for x by (rule emits_any [OF emits_removeOld])
  let ?rm = "bnd (ContainerRemove E (c_ID c)) (\<lambda>e. case e of
      None \<Rightarrow> ret None | Some x \<Rightarrow> removeOld E img cs (Some x))"
  have rm: "teaches ?rm ?L" if "oldContainer img c"
  proof (rule teaches_bnd [where K = "\<lambda>e new. new = [EvRemove (c_ID c) e]" and A = "\<lambda>_. True" and B = "\<lambda>_. True"])
    show "teaches (case e of None \<Rightarrow> ret None | Some x \<Rightarrow> removeOld E img cs (Some x)) (\<lambda>y new. ?L y (new @ old))"
      if "old = [EvRemove (c_ID c) e]" for e old
      using that \<open>oldContainer img c\<close>
      by (cases e) (auto intro!: teaches_ret teaches_mono [OF Cons.IH])
    show "teaches (ContainerRemove E (c_ID c)) (\<lambda>e new. new = [EvRemove (c_ID c) e])"
      unfolding ContainerRemove_def by (rule teaches_ext) simp
    show "emits (\<lambda>_. True) (ContainerRemove E (c_ID c))"
      unfolding ContainerRemove_def by (rule emits_ext) simp
  qed (intro emits_intro em)
  have emr: "emits (\<lambda>_. True) ?rm" unfolding ContainerRemove_def by (intro emits_intro em TrueI)
  have named: "teaches (bnd (removeNamed E (c_ID c) (c_Names c) le)
      (\<lambda>(returned, e). if returned then ret e else removeOld E img cs e)) ?L"
    if no: "c_Image c \<noteq> img" "\<not> contains (c_Image c) ''dcstorage''"
  proof (rule teaches_bnd [OF teaches_removeNamed emits_removeNamed, where B = "\<lambda>_. True"])
    fix x :: "bool \<times> err" and old
    assume "(case x of (r, e) \<Rightarrow> \<lambda>new. if r then nodeContainerName \<in> set (c_Names c) \<and>
        EvRemove (c_ID c) None \<in> set new
      else if nodeContainerName \<in> set (c_Names c) then e \<noteq> None else e = le) old"
    then show "teaches (case x of (returned, e) \<Rightarrow> if returned then ret e else removeOld E img cs e)
        (\<lambda>y new. ?L y (new @ old))"
      using no
      by (cases x) (auto simp: oldContainer_def intro!: teaches_ret teaches_mono [OF Cons.IH] split: if_splits)
  qed (intro emits_intro em)
  have first: "teaches (andThen (println m) ?rm) ?L" if "oldContainer img c" for m
    unfolding andThen_def println_def emit_def
    by (rule teaches_last [OF _ emr rm [OF that]]) (auto intro!: emits_intro)
  show ?case unfolding removeOld.simps
    by (intro teaches_ifI first rm named) (simp_all add: oldContainer_def)
qed

lemma removal_clears:
  assumes "removeDcStorageNodeInDocker E s = (Ret None, t)"
  shows "nodeCleared (NodeImage (RunningConfig s)) (newEvents (removeDcStorageNodeInDocker E) s)"
proof -
  let ?img = "NodeImage (RunningConfig s)"
  let ?h = "EvClient None # EvPrint ''begin to remove old version dcstorage docker container'' # trace s"
  obtain cs where cs: "eList E ?h True = Inr cs"
      "removeOld E ?img cs None (s\<lparr>trace := EvList True (Inr cs) # ?h\<rparr>) = (Ret None, t)"
    using assms by (auto simp: removeDcStorageNodeInDocker_def andThen_def checkE_def tryE_def effects run
      split: option.splits sum.splits)
  obtain new where new: "trace t = new @ EvList True (Inr cs) # ?h"
    using emitsD [OF emits_removeOld, of E ?img cs None "s\<lparr>trace := EvList True (Inr cs) # ?h\<rparr>"] cs(2) by auto
  have "(\<exists>c \<in> set cs. oldContainer ?img c \<and> EvRemove (c_ID c) None \<in> set new) \<or>
      (\<forall>c \<in> set cs. \<not> oldContainer ?img c)"
    using teachesD [OF teaches_removeOld cs(2)] new by simp
  moreover have "newEvents (removeDcStorageNodeInDocker E) s = new @ [EvList True (Inr cs), EvClient None,
      EvPrint ''begin to remove old version dcstorage docker container'']"
    using assms new by (intro newEvents_eq) simp
  ultimately show ?thesis unfolding nodeCleared_def by auto
qed

lemma teaches_started:
  "teaches (ensureStarted E i) (\<lambda>e new. e = None \<longrightarrow>
     EvStart i None \<in> set new \<or> (\<exists>x. EvInspect i (Inr x) \<in> set new \<and> Running x))"
  by (auto simp: teaches_def ensureStarted_def checkE_def tryE_def effects run split: option.splits sum.splits if_splits)

lemma teaches_created:
  "teaches (createContainer E n b c hc) (\<lambda>r new. \<forall>i. r = Inr i \<longrightarrow> EvCreate c hc n (Inr i) \<in> set new)"
  by (auto simp: teaches_def createContainer_def effects run split: option.splits sum.splits if_splits)

lemma emits_created: "emits (\<lambda>_. True) (createContainer E n b c hc)"
  and emits_started: "emits (\<lambda>_. True) (ensureStarted E i)"
  unfolding createContainer_def ensureStarted_def effects by (intro emits_intro; simp)+

lemma teaches_containerUp:
  "teaches (StartContainer E n b c hc) (\<lambda>e new. e = None \<longrightarrow> containerUp n (Image c) new)"
proof -
  let ?L = "\<lambda>e :: err. \<lambda>new. e = None \<longrightarrow> containerUp n (Image c) new"
  let ?mk = "tryE (createContainer E n b c hc) (ensureStarted E)"
  have mk: "teaches ?mk ?L"
    unfolding tryE_def
  proof (rule teaches_bnd [OF teaches_created emits_created, where B = "\<lambda>_. True"])
    fix r :: "goerr + string" and old assume "\<forall>i. r = Inr i \<longrightarrow> EvCreate c hc n (Inr i) \<in> set old"
    then show "teaches (case r of Inl e \<Rightarrow> ret (Some e) | Inr x \<Rightarrow> ensureStarted E x) (\<lambda>y new. ?L y (new @ old))"
      by (cases r) (auto simp: containerUp_def intro!: teaches_ret teaches_mono [OF teaches_started])
  qed (auto intro!: emits_intro emits_started)
  let ?go = "\<lambda>cs. case findCreated (Image c) n cs of Some i \<Rightarrow> ensureStarted E i | None \<Rightarrow> ?mk"
  have go: "teaches (?go cs) (\<lambda>e new. ?L e (new @ [EvList True (Inr cs)]))" for cs
  proof (cases "findCreated (Image c) n cs")
    case None
    have "teaches ?mk (\<lambda>e new. ?L e (new @ [EvList True (Inr cs)]))"
      by (rule teaches_mono [OF mk]) (auto intro: containerUp_old)
    then show ?thesis using None by simp
  next
    case (Some i)
    have "teaches (ensureStarted E i) (\<lambda>e new. ?L e (new @ [EvList True (Inr cs)]))"
      by (rule teaches_mono [OF teaches_started]) (use Some in \<open>auto simp: containerUp_def\<close>)
    then show ?thesis using Some by simp
  qed
  have emgo: "emits (\<lambda>_. True) (?go cs)" for cs
    unfolding tryE_def by (intro emits_intro emits_created emits_started)
  have list: "teaches (tryE (ContainerList E True) ?go) ?L"
    unfolding tryE_def [of "ContainerList E True"]
  proof (rule teaches_bnd [where K = "\<lambda>r new. new = [EvList True r]" and A = "\<lambda>_. True" and B = "\<lambda>_. True"])
    show "teaches (case r of Inl e \<Rightarrow> ret (Some e) | Inr x \<Rightarrow> ?go x) (\<lambda>y new. ?L y (new @ old))"
      if "old = [EvList True r]" for r old
      using that go by (cases r) (auto intro!: teaches_ret)
    show "teaches (ContainerList E True) (\<lambda>r new. new = [EvList True r])"
      unfolding ContainerList_def by (rule teaches_ext) simp
    show "emits (\<lambda>_. True) (ContainerList E True)"
      unfolding ContainerList_def by (rule emits_ext) simp
  qed (intro emits_intro emgo)
  have eml: "emits (\<lambda>_. True) (tryE (ContainerList E True) ?go)"
    unfolding ContainerList_def by (intro emits_tryE emits_ext TrueI emgo)
  have rest: "teaches (case r of Some x \<Rightarrow> ret (Some x) | None \<Rightarrow> tryE (ContainerList E True) ?go) ?L" for r :: err
    using list by (cases r) (auto intro: teaches_ret)
  have emr: "emits (\<lambda>_. True) (case r of Some x \<Rightarrow> ret (Some x) | None \<Rightarrow> tryE (ContainerList E True) ?go)" for r :: err
    by (intro emits_intro eml)
  show ?thesis
    unfolding StartContainer_def checkE_def NewClientWithOpts_def
    by (rule teaches_last [OF _ emr rest]) (auto intro: emits_ext containerUp_old)
qed

lemma node_up:
  assumes "startDcStorageNode E s = (Ret None, t)"
  shows "containerUp nodeContainerName (NodeImage (RunningConfig s)) (newEvents (startDcStorageNode E) s)"
proof -
  let ?tee = "if \<not> IsSgx2Support E then startTeeReportServerDocker E else ret None"
  obtain u where u: "runPccsInDocker E s = (Ret None, u)" and rest:
      "andThen ?tee (bnd (startDcnodeInDocker E) (\<lambda>e. case e of
           Some x \<Rightarrow> andThen (println (''start dcstorage fail,error:  '' @ errMsg x)) (ret (Some x))
         | None \<Rightarrow> ret None)) u = (Ret None, t)"
    using checkE_RetD [OF assms [unfolded startDcStorageNode_def]] by blast
  obtain x v where v: "?tee u = (Ret x, v)" and node: "startDcnodeInDocker E v = (Ret None, t)"
    using rest unfolding andThen_def by (auto simp: ret_def dest!: bnd_RetD split: option.splits)
  obtain w where w: "CreateVolume E nodeVolume v = (Ret None, w)" and start: "bnd (reads RunningConfig) (\<lambda>cfg.
        bnd (StartContainer E nodeContainerName False (nodeContainerConfig E cfg) (nodeHostConfig E))
        (\<lambda>e. case e of None \<Rightarrow> ret None
           | Some x \<Rightarrow> if contains (errMsg x) (conflictMsg nodeContainerName)
             then ret (Some (GoErr (''container '' @ nodeContainerName
                    @ '' already exist,please manual remove it first''))) else ret (Some x))) w = (Ret None, t)"
    using checkE_RetD [OF node [unfolded startDcnodeInDocker_def]] by blast
  have kt: "keeps RunningConfig ?tee" and et: "emits (\<lambda>_. True) ?tee"
    by (auto intro: teeStart.config emits_any [OF teeStart.events] emits_intro)
  have same: "RunningConfig w = RunningConfig s"
    using createVolume.config_same [of E nodeVolume v] keepsD [OF kt, of u] pccsRun.config_same [of E s] w v u
    by (simp del: if_split)
  obtain n1 where n1: "trace u = n1 @ trace s" using emitsD [OF pccsRun.events, of E s] u by auto
  obtain n2 where n2: "trace v = n2 @ trace u" using emitsD [OF et, of u] v by (metis snd_conv)
  obtain n3 where n3: "trace w = n3 @ trace v" using emitsD [OF createVolume.events, of E nodeVolume v] w by auto
  have up: "StartContainer E nodeContainerName False (nodeContainerConfig E (RunningConfig s))
      (nodeHostConfig E) w = (Ret None, t)"
    using start same by (auto simp: reads_def ret_def dest!: bnd_RetD split: option.splits if_splits)
  obtain n4 where n4: "trace t = n4 @ trace w" using emitsD [OF startContainer.events] up by (metis snd_conv)
  have "containerUp nodeContainerName (NodeImage (RunningConfig s)) n4"
    using teachesD [OF teaches_containerUp up n4] by (simp add: nodeContainerConfig_def)
  moreover have "newEvents (startDcStorageNode E) s = n4 @ n3 @ n2 @ n1"
    using assms n1 n2 n3 n4 by (intro newEvents_eq) simp
  ultimately show ?thesis using containerUp_old by metis
qed

lemma finish_valid:
  assumes nv: "\<And>pv. eNewVersion E [] \<noteq> Inr pv"
  shows "valid (atCfg h0 (cfg\<lparr>NodeImage := tag\<rparr>) (\<lambda>h. obeys (milestone E cfg) h \<and> installed E cfg p tag h))
    (checkE (finishHandover E fuel) (checkE (bnd (reads RunningConfig) (SaveConfig E)) (confirmNode E p)))
    (\<lambda>_. since h0 (obeys (milestone E cfg))) (since h0 (obeys (milestone E cfg)))"
proof (rule valid_checkE [OF phase_after [where L = "\<lambda>e new. e = None \<longrightarrow> keyReturned E new",
        OF handoverDone.events handoverDone.config growing_installed]])
  show "milestone E cfg e h" if "harmless e" for e h using that by (rule harmless_milestone)
  fix s x t assume "finishHandover E fuel s = (Ret x, t)"
  then show "x = None \<longrightarrow> keyReturned E (newEvents (finishHandover E fuel) s)"
    using teachesD [OF teaches_keyReturned] emits_trace [OF handoverDone.events, of E fuel s] by simp
next
  let ?G = "rekeyed E cfg p tag"
  have c: "valid (atCfg h0 (cfg\<lparr>NodeImage := tag\<rparr>)
        (\<lambda>h. obeys (milestone E cfg) h \<and> ?G h \<and> saved E cfg tag h)) (confirmNode E p)
      (\<lambda>_. since h0 (obeys (milestone E cfg))) (since h0 (obeys (milestone E cfg)))"
    by (rule confirm_valid [OF nv, where tag = tag])
      (auto intro!: growing_conj growing_rekeyed growing_facts dest: rekeyed_known)
  have "valid (atCfg h0 (cfg\<lparr>NodeImage := tag\<rparr>) (\<lambda>h. obeys (milestone E cfg) h \<and> ?G h))
      (checkE (bnd (reads RunningConfig) (SaveConfig E)) (confirmNode E p))
      (\<lambda>_. since h0 (obeys (milestone E cfg))) (since h0 (obeys (milestone E cfg)))"
    using valid_checkE [OF save_valid [where G = ?G and p = p, OF _ growing_rekeyed] _ c] since_atCfg by simp
  then show "valid (atCfg h0 (cfg\<lparr>NodeImage := tag\<rparr>) (\<lambda>h. obeys (milestone E cfg) h \<and>
        (\<exists>new old. h = new @ old \<and> installed E cfg p tag old \<and> (None = (None :: err) \<longrightarrow> keyReturned E new))))
      (checkE (bnd (reads RunningConfig) (SaveConfig E)) (confirmNode E p))
      (\<lambda>_. since h0 (obeys (milestone E cfg))) (since h0 (obeys (milestone E cfg)))"
    by (simp add: rekeyed_def)
qed (auto intro: since_atCfg)

lemma removal_valid:
  "valid (atCfg h0 cfg (\<lambda>h. obeys (milestone E cfg) h \<and> justified E cfg p tag h)) (removeDcStorageNodeInDocker E)
    (\<lambda>e. if e = None then atCfg h0 cfg (\<lambda>h. obeys (milestone E cfg) h \<and> cleared E cfg p tag h)
      else since h0 (obeys (milestone E cfg)))
    (since h0 (obeys (milestone E cfg)))"
proof (rule valid_post [OF phase_after [where L = "\<lambda>e new. e = None \<longrightarrow> nodeCleared (NodeImage cfg) new",
        OF nodeRemoved.events nodeRemoved.config growing_justified]])
  show "milestone E cfg e h" if "\<not> guarded e" "justified E cfg p tag h" for e h
    using that by (rule justified_milestone)
qed (auto simp: cleared_def atCfg_def since_def dest: removal_clears)

lemma start_valid:
  "valid (atCfg h0 (cfg\<lparr>NodeImage := tag\<rparr>) (\<lambda>h. obeys (milestone E cfg) h \<and> cleared E cfg p tag h))
    (startDcStorageNode E)
    (\<lambda>e. if e = None
      then atCfg h0 (cfg\<lparr>NodeImage := tag\<rparr>) (\<lambda>h. obeys (milestone E cfg) h \<and> installed E cfg p tag h)
      else since h0 (obeys (milestone E cfg)))
    (since h0 (obeys (milestone E cfg)))"
proof (rule valid_post [OF phase_after [where L = "\<lambda>e new. e = None \<longrightarrow> containerUp nodeContainerName tag new",
        OF nodeStart.events nodeStart.config growing_cleared]])
  show "milestone E cfg e h" if "nodeStartEvent e" for e h
    using that by (intro harmless_milestone harmless_nodeStart)
qed (auto simp: installed_def atCfg_def since_def dest: node_up)

lemma replace_valid:
  "valid (atCfg h0 cfg (\<lambda>h. obeys (milestone E cfg) h \<and> justified E cfg p tag h)) (replaceNode E tag)
    (\<lambda>e. if e = None
      then atCfg h0 (cfg\<lparr>NodeImage := tag\<rparr>) (\<lambda>h. obeys (milestone E cfg) h \<and> installed E cfg p tag h)
      else since h0 (obeys (milestone E cfg)))
    (since h0 (obeys (milestone E cfg)))"
    (is "valid (atCfg _ _ ?K) _ ?Q ?I")
  unfolding replaceNode_def
proof (rule valid_bnd, rule phase_quiet [OF nodeStop.events nodeStop.config growing_justified])
  show "milestone E cfg e h" if "stopEvent 60 e" "justified E cfg p tag h" for e h
    using that unguarded(2) justified_milestone by blast
next
  fix e :: err
  have sl: "valid (atCfg h0 cfg ?K) (case e of None \<Rightarrow> ret () | Some _ \<Rightarrow> sleep 10) (\<lambda>_. atCfg h0 cfg ?K) ?I"
    by (rule phase_quiet [where A = "\<lambda>e. \<not> guarded e", OF _ _ growing_justified justified_milestone])
      (auto simp: sleep_def intro!: emits_intro split: option.split)
  let ?C = "\<lambda>h. obeys (milestone E cfg) h \<and> cleared E cfg p tag h"
  have set: "valid (atCfg h0 cfg ?C) (modify (\<lambda>s. s\<lparr>RunningConfig := (RunningConfig s)\<lparr>NodeImage := tag\<rparr>\<rparr>))
      (\<lambda>_. atCfg h0 (cfg\<lparr>NodeImage := tag\<rparr>) ?C) ?I"
    by (rule valid_modify) (auto simp: atCfg_def since_def)
  have rest: "valid (atCfg h0 cfg ?K) (checkE (removeDcStorageNodeInDocker E)
      (andThen (modify (\<lambda>s. s\<lparr>RunningConfig := (RunningConfig s)\<lparr>NodeImage := tag\<rparr>\<rparr>))
               (startDcStorageNode E))) ?Q ?I"
    using valid_andThen [OF set start_valid] by (intro valid_checkE [OF removal_valid]) simp_all
  show "valid (atCfg h0 cfg ?K) (andThen (case e of None \<Rightarrow> ret () | Some _ \<Rightarrow> sleep 10)
      (checkE (removeDcStorageNodeInDocker E)
      (andThen (modify (\<lambda>s. s\<lparr>RunningConfig := (RunningConfig s)\<lparr>NodeImage := tag\<rparr>\<rparr>))
               (startDcStorageNode E)))) ?Q ?I"
    by (rule valid_andThen [OF sl rest])
qed

text \<open>A fallible step: what is known before it stays known, and what it taught is known
  to the rest.\<close>

lemma valid_tryE_teaches:
  assumes "emits A m" and "\<And>e. A e \<Longrightarrow> harmless e" and "keeps RunningConfig m" and "growing F"
    and "teaches m L" and "\<And>x new h. L x new \<Longrightarrow> L x (new @ h)"
    and "\<And>x. valid (atCfg h0 cfg (\<lambda>h. obeys (milestone E c) h \<and> F h \<and> L (Inr x) h)) (f x)
      (\<lambda>_. since h0 (obeys (milestone E c))) (since h0 (obeys (milestone E c)))"
  shows "valid (atCfg h0 cfg (\<lambda>h. obeys (milestone E c) h \<and> F h)) (tryE m f)
    (\<lambda>_. since h0 (obeys (milestone E c))) (since h0 (obeys (milestone E c)))"
proof (rule valid_tryE [OF phase_teaches [OF assms(1,3,4) _ assms(5,6)]])
  show "milestone E c e h" if "A e" for e h using assms(2) that by (blast intro: harmless_milestone)
qed (use assms(7) in \<open>auto intro: since_atCfg\<close>)

definition chosen :: "env \<Rightarrow> DcManageConfig \<Rightarrow> DcProgram \<Rightarrow> history \<Rightarrow> bool" where
  "chosen E cfg p h \<longleftrightarrow> ordered cfg p h \<and> authorised E p h \<and> newer E p h"

lemma growing_chosen: "growing (chosen E cfg p)"
  unfolding chosen_def by (intro growing_conj growing_facts)

lemma install_valid:
  assumes nv: "\<And>pv. eNewVersion E [] \<noteq> Inr pv"
  shows "valid (atCfg h0 cfg (\<lambda>h. obeys (milestone E cfg) h \<and> chosen E cfg p h))
    (installProgram E fuel p)
    (\<lambda>_. since h0 (obeys (milestone E cfg))) (since h0 (obeys (milestone E cfg)))"
  unfolding installProgram_def
proof (rule valid_tryE_teaches [OF imageFetched.events _ imageFetched.config growing_chosen teaches_fetch])
  show "case x of Inl _ \<Rightarrow> True | Inr tag \<Rightarrow> fetched p tag (new @ h)"
    if "case x of Inl _ \<Rightarrow> True | Inr tag \<Rightarrow> fetched p tag new" for x :: "goerr + string" and new h
    using that by (auto intro: fetched_append split: sum.splits)
next
  fix tag
  let ?I = "since h0 (obeys (milestone E cfg))"
  let ?F = "\<lambda>h. chosen E cfg p h \<and> fetched p tag h"
  let ?L = "\<lambda>e :: err. \<lambda>h. e = None \<longrightarrow> keyHeld E h"
  have g: "growing ?F" by (intro growing_conj growing_chosen growing_facts)
  have m: "?L x (new @ h)" if "?L x new" for x new h using that by (auto simp: keyHeld_def)
  have rest: "valid (atCfg h0 cfg (\<lambda>h. obeys (milestone E cfg) h \<and> justified E cfg p tag h))
     (checkE (replaceNode E tag) (checkE (finishHandover E fuel)
     (checkE (bnd (reads RunningConfig) (SaveConfig E)) (confirmNode E p)))) (\<lambda>_. ?I) ?I"
    by (rule valid_checkE [OF replace_valid]) (simp_all add: finish_valid [OF nv])
  have prep: "valid (atCfg h0 cfg (\<lambda>h. obeys (milestone E cfg) h \<and> ?F h)) (prepareHandover E)
     (\<lambda>x. atCfg h0 cfg (\<lambda>h. obeys (milestone E cfg) h \<and> ?F h \<and> ?L x h)) ?I"
    by (rule phase_teaches [OF handover.events handover.config g harmless_milestone teaches_keyHeld m])
  have rest': "valid (atCfg h0 cfg (\<lambda>h. obeys (milestone E cfg) h \<and> ?F h \<and> ?L None h))
     (checkE (replaceNode E tag) (checkE (finishHandover E fuel)
     (checkE (bnd (reads RunningConfig) (SaveConfig E)) (confirmNode E p)))) (\<lambda>_. ?I) ?I"
    by (rule valid_pre [OF rest]) (auto simp: atCfg_def since_def chosen_def justified_def)
  show "valid (atCfg h0 cfg (\<lambda>h. obeys (milestone E cfg) h \<and> chosen E cfg p h \<and>
      (case Inr tag of Inl _ \<Rightarrow> True | Inr tag \<Rightarrow> fetched p tag h)))
     (checkE (prepareHandover E) (checkE (replaceNode E tag) (checkE (finishHandover E fuel)
     (checkE (bnd (reads RunningConfig) (SaveConfig E)) (confirmNode E p))))) (\<lambda>_. ?I) ?I"
    unfolding sum.case using valid_checkE [OF prep since_atCfg rest'] by simp
qed simp

lemma valid_return:
  "valid (atCfg h0 cfg (\<lambda>h. obeys need h \<and> F h)) (ret x) (\<lambda>_. since h0 (obeys need)) (since h0 (obeys need))"
  by (rule valid_stop) simp

lemma needed_valid:
  assumes nv: "\<And>pv. eNewVersion E [] \<noteq> Inr pv"
  shows "valid (atCfg h0 cfg (\<lambda>h. obeys (milestone E cfg) h \<and> answered h v i \<and> ordered cfg p h))
      (tryE (needUpgrade E v i p) (\<lambda>needed. if \<not> needed then ret None else installProgram E fuel p))
      (\<lambda>_. since h0 (obeys (milestone E cfg))) (since h0 (obeys (milestone E cfg)))"
proof (rule valid_tryE_teaches [OF upgradeNeeded.events harmless_chain upgradeNeeded.config _ teaches_needed])
  let ?I = "since h0 (obeys (milestone E cfg))"
  fix b
  show "valid (atCfg h0 cfg (\<lambda>h. obeys (milestone E cfg) h \<and> (answered h v i \<and> ordered cfg p h) \<and>
      (Inr b = (Inr True :: goerr + bool) \<longrightarrow> i \<noteq> EnclaveId p \<and> authorised E p h \<and>
        (\<exists>lv pv. eNewVersion E v = Inr lv \<and> eNewVersion E (Version p) = Inr pv \<and> eLessThan E lv pv))))
    (if \<not> b then ret None else installProgram E fuel p) (\<lambda>_. ?I) ?I"
  proof (cases b)
    case True
    have known: "chosen E cfg p h" if "answered h v i" "ordered cfg p h" "i \<noteq> EnclaveId p"
        "authorised E p h" "eNewVersion E v = Inr lv" "eNewVersion E (Version p) = Inr pv" "eLessThan E lv pv"
      for h lv pv
      using that unfolding chosen_def newer_def by blast
    show ?thesis using True
      by (simp, intro valid_pre [OF install_valid [OF nv]]) (erule atCfg_mono, blast intro: known)
  next
    case False
    then show ?thesis by (simp add: valid_return)
  qed
qed (auto intro: growing_conj growing_facts simp: authorised_def)

lemma choose_valid:
  assumes nv: "\<And>pv. eNewVersion E [] \<noteq> Inr pv"
  shows "valid (atCfg h0 cfg (\<lambda>h. obeys (milestone E cfg) h \<and> answered h v i \<and> ordered cfg r h))
      (tryE (chooseProgram E r) (\<lambda>p. tryE (needUpgrade E v i p)
        (\<lambda>needed. if \<not> needed then ret None else installProgram E fuel p)))
      (\<lambda>_. since h0 (obeys (milestone E cfg))) (since h0 (obeys (milestone E cfg)))"
proof (rule valid_tryE [OF phase [OF programChosen.events programChosen.config]])
  let ?L = "\<lambda>x h. case x of Inl (_ :: goerr) \<Rightarrow> True | Inr p \<Rightarrow> p = r \<or> p = NewVersion cfg"
  show "growing (\<lambda>h. answered h v i \<and> ordered cfg r h)" by (intro growing_conj growing_facts)
  show "milestone E cfg e h" if "chainEvent e" for e h
    using that by (intro harmless_milestone harmless_chain)
  fix x s t assume c: "RunningConfig s = cfg" "chooseProgram E r s = (Ret x, t)"
  show "?L x (newEvents (chooseProgram E r) s)"
    using c teaches_chosen [of E r s _ t] by (auto split: sum.split)
next
  fix p
  show "valid (atCfg h0 cfg (\<lambda>h. obeys (milestone E cfg) h \<and> (answered h v i \<and> ordered cfg r h) \<and>
        (case Inr p of Inl _ \<Rightarrow> True | Inr p \<Rightarrow> p = r \<or> p = NewVersion cfg)))
      (tryE (needUpgrade E v i p) (\<lambda>needed. if \<not> needed then ret None else installProgram E fuel p))
      (\<lambda>_. since h0 (obeys (milestone E cfg))) (since h0 (obeys (milestone E cfg)))"
    by (rule valid_pre [OF needed_valid [OF nv]]) (auto simp: atCfg_def since_def ordered_def)
qed (auto intro: since_atCfg)

lemma program_valid:
  assumes nv: "\<And>pv. eNewVersion E [] \<noteq> Inr pv"
  shows "valid (atCfg h0 cfg (\<lambda>h. obeys (milestone E cfg) h \<and> answered h v i))
      (tryE (GetConfigedDcStorageInfo E fuel) (\<lambda>r. tryE (chooseProgram E r) (\<lambda>p. tryE (needUpgrade E v i p)
        (\<lambda>needed. if \<not> needed then ret None else installProgram E fuel p))))
      (\<lambda>_. since h0 (obeys (milestone E cfg))) (since h0 (obeys (milestone E cfg)))"
proof (rule valid_tryE_teaches [OF configedInfo.events harmless_chain configedInfo.config growing_facts(8) teaches_configed])
  fix r
  show "valid (atCfg h0 cfg (\<lambda>h. obeys (milestone E cfg) h \<and> answered h v i \<and>
        (case Inr r of Inl _ \<Rightarrow> True | Inr p \<Rightarrow> \<exists>api key. EvStorage api key (Inr (Some (SvProgram p))) \<in> set h)))
      (tryE (chooseProgram E r) (\<lambda>p. tryE (needUpgrade E v i p)
        (\<lambda>needed. if \<not> needed then ret None else installProgram E fuel p)))
      (\<lambda>_. since h0 (obeys (milestone E cfg))) (since h0 (obeys (milestone E cfg)))"
    by (rule valid_pre [OF choose_valid [OF nv]], erule atCfg_mono) (auto simp only: ordered_def sum.case)
qed (auto split: sum.splits)

lemma upgrade_valid:
  assumes nv: "\<And>pv. eNewVersion E [] \<noteq> Inr pv"
  shows "valid (atCfg h0 cfg (obeys (milestone E cfg))) (upgradeDeal E fuel)
    (\<lambda>_. since h0 (obeys (milestone E cfg))) (since h0 (obeys (milestone E cfg)))"
    (is "valid _ _ (\<lambda>_. ?I) ?I")
proof -
  let ?at = "\<lambda>F. atCfg h0 cfg (\<lambda>h. obeys (milestone E cfg) h \<and> F h)"
  let ?A = "\<lambda>(v, i, e :: err) h. e = None \<longrightarrow> answered h v i"
  have running: "valid (?at (\<lambda>_. True)) (ensureRunning E) (\<lambda>_. ?at (\<lambda>_. True)) ?I"
    by (rule phase_quiet [OF nodeEnsured.events nodeEnsured.config growing_true harmless_milestone])
  have version: "valid (?at (\<lambda>_. True)) (getVersionByHttpGet E dcStorageListenPort)
      (\<lambda>x. ?at (\<lambda>h. True \<and> ?A x h)) ?I"
    by (rule phase_teaches [OF versionGet.events versionGet.config growing_true _ answered_version])
      (auto simp: answered_def intro: harmless_milestone harmless_plain)
  have known: "valid (?at (\<lambda>h. answered h v i)) versionKnown (\<lambda>_. ?at (\<lambda>h. answered h v i)) ?I" for v i
    by (rule phase_quiet [OF versionOK.events versionOK.config growing_facts(8)]) simp
  have failed: "valid (?at (\<lambda>_. True)) (versionUnknown E) (\<lambda>_. ?at (\<lambda>_. True)) ?I"
    by (rule phase_quiet [OF versionFailed.events versionFailed.config growing_true harmless_milestone])
  have rest: "valid (?at (\<lambda>h. True \<and> ?A x h)) (case x of (v, i, e) \<Rightarrow> case e of
         Some x \<Rightarrow> andThen (versionUnknown E) (ret (Some x))
       | None \<Rightarrow> andThen versionKnown (tryE (GetConfigedDcStorageInfo E fuel) (\<lambda>r.
          tryE (chooseProgram E r) (\<lambda>p. tryE (needUpgrade E v i p)
           (\<lambda>needed. if \<not> needed then ret None else installProgram E fuel p))))) (\<lambda>_. ?I) ?I" for x
  proof (cases x, cases "snd (snd x)")
    fix v i e assume "x = (v, i, e)" "snd (snd x) = None"
    then show ?thesis by (simp add: valid_andThen [OF known program_valid [OF nv]])
  next
    fix v i e y assume "x = (v, i, e)" "snd (snd x) = Some y"
    then show ?thesis
      using valid_andThen [OF failed valid_return [where F = "\<lambda>_. True" and x = "Some y"]] by simp
  qed
  have "valid (?at (\<lambda>_. True)) (upgradeDeal E fuel) (\<lambda>_. ?I) ?I"
    unfolding upgradeDeal_def
    by (rule valid_checkE [OF running since_atCfg valid_bnd [OF version rest]])
  then show ?thesis by simp
qed

lemma upgrade_obeys:
  assumes "\<And>pv. eNewVersion E [] \<noteq> Inr pv"
  shows "obeys (milestone E (RunningConfig s)) (newEvents (upgradeDeal E fuel) s)"
proof (rule since_newEvents)
  have "atCfg (trace s) (RunningConfig s) (obeys (milestone E (RunningConfig s))) s"
    by (simp add: atCfg_def since_def)
  then show "since (trace s) (obeys (milestone E (RunningConfig s))) (snd (upgradeDeal E fuel s))"
    by (rule valid_all [OF upgrade_valid [OF assms]])
qed

end
