(* ===== verification/UpgradeProps.thy ===== *)
theory UpgradeProps
  imports UpgradeSpec Sample
begin

text \<open>
  The properties of the upgrade (command/command.go, \<open>upgradeDeal\<close>), read off the
  milestones of theory UpgradeSpec, and a sample machine on which a whole upgrade runs.
\<close>

section \<open>A machine to upgrade\<close>

lemma steps:
  "m s = (Ret x, t) \<Longrightarrow> bnd m f s = f x t"
  "e s = (Ret None, t) \<Longrightarrow> checkE e k s = k t"
  "r s = (Ret (Inr y), t) \<Longrightarrow> tryE r g s = g y t"
  "u s = (Ret (), t) \<Longrightarrow> andThen u n s = n t"
  by (simp_all add: runs)

text \<open>A machine without SGX2 that runs version v1 of dcstorage, while the chain recommends
  version v2; the answer to the version query changes once the old container is gone.\<close>

definition progV2 :: DcProgram where
  "progV2 = \<lparr>OriginUrl = ''o:2'', MirrorUrl = ''m:2'', EnclaveId = ''e2'', Version = ''v2'', MirrCids = []\<rparr>"

definition oldNode :: containerInfo where
  "oldNode = \<lparr>c_ID = ''n1'', c_Names = [''/dcstorage''], c_Image = ''o/dcstorage:1''\<rparr>"

fun isRemove :: "event \<Rightarrow> bool" where
  "isRemove (EvRemove _ _) = True"
| "isRemove _ = False"

definition upgradeEnv :: env where
  "upgradeEnv = nullEnv\<lparr>
     eList := (\<lambda>_ _. Inr [oldNode]),
     eCreate := (\<lambda>_ _ _ n. Inr n),
     eInspect := (\<lambda>_ _. Inr \<lparr>Running = True, StartedAt = []\<rparr>),
     eHttp := (\<lambda>h m u. HttpResp 200 (if u = versionUrl
        then (if list_ex isRemove h then ''e2@v2'' else ''e1@v1'') else ''ok'') None),
     eOutput := (\<lambda>_ _. Inr (Some ''1234'')),
     eStat := (\<lambda>_ _. StatOk), eReadFile := (\<lambda>_ p. Inr (if p = runCmdStateFilepath then ''start'' else [])),
     eDial := (\<lambda>_ _. Inr ''api''), eMetadata := (\<lambda>_ _. Inr ''meta''), eHealth := (\<lambda>_ _. Inr False),
     eProgram := (\<lambda>_ _ _. Inr (Some progV2)),
     eEnclaves := (\<lambda>_ _ _. Inr (Some [\<lparr>Blockheight = 0, InfoEnclaveId = ''e2'', Signature = ''s''\<rparr>])),
     eVerify := (\<lambda>_ _ _. Inr True),
     eNewVersion := (\<lambda>x. if x = [] then Inl nope else Inr (GoVer x)),
     eLessThan := (\<lambda>a b. a = GoVer ''v1'' \<and> b = GoVer ''v2''),
     eYamlEmit := (\<lambda>d. Inr (memberText ''nodeImage'' d))\<rparr>"

lemma upgradeEnv_fields:
  "eClient upgradeEnv h = None" "eList upgradeEnv h all = Inr [oldNode]"
  "eCreate upgradeEnv h c hc n = Inr n" "eInspect upgradeEnv h i = Inr \<lparr>Running = True, StartedAt = []\<rparr>"
  "eStart upgradeEnv h i = None" "eStop upgradeEnv h i w = None" "eRemove upgradeEnv h i = None"
  "eVolList upgradeEnv h = Inr []" "eVolCreate upgradeEnv h v = None" "eNewRequest upgradeEnv u = None"
  "ePull upgradeEnv h i = None" "ePullRead upgradeEnv h = None"
  "eHttp upgradeEnv h m u = HttpResp 200 (if u = versionUrl
        then (if list_ex isRemove h then ''e2@v2'' else ''e1@v1'') else ''ok'') None"
  "eOutput upgradeEnv h x = Inr (Some ''1234'')"
  "eDial upgradeEnv h u = Inr ''api''" "eMetadata upgradeEnv h u = Inr ''meta''"
  "eHealth upgradeEnv h a = Inr False" "eProgram upgradeEnv h a k = Inr (Some progV2)"
  "eEnclaves upgradeEnv h a k =
     Inr (Some [\<lparr>Blockheight = 0, InfoEnclaveId = ''e2'', Signature = ''s''\<rparr>])"
  "eStorageKey upgradeEnv mt md b xs = Inr (b @ concat xs)" "eMbase upgradeEnv x = Inr x" "ePubKey upgradeEnv x = Inr x"
  "eVerify upgradeEnv k mt x = Inr True"
  "eNewVersion upgradeEnv x = (if x = [] then Inl nope else Inr (GoVer x))"
  "eLessThan upgradeEnv v1 v2 \<longleftrightarrow> v1 = GoVer ''v1'' \<and> v2 = GoVer ''v2''"
  "yamlMarshal upgradeEnv cfg = Inr (NodeImage cfg)" "eWriteFile upgradeEnv h p x = None"
  "eStat upgradeEnv h p = StatOk" "eReadFile upgradeEnv h p = Inr (if p = runCmdStateFilepath then ''start'' else [])"
  "eArgs upgradeEnv = [''dc'']" "IsSgx2Support upgradeEnv = False" "IsSgxSupport upgradeEnv = False"
  by (simp_all add: upgradeEnv_def nullEnv_def yamlMarshal_def IsSgx2Support_def IsSgxSupport_def)

lemmas upgradeRun = upgradeEnv_fields runs

abbreviation replaced :: "st \<Rightarrow> bool" where
  "replaced s \<equiv> list_ex isRemove (trace s)"

lemmas urls = pccsUrl_def versionUrl_def localUrl_def serverhost_def dcStorageListenPort_def

lemma run_ensure:
  "\<exists>t. ensureRunning upgradeEnv s = (Ret None, t) \<and> replaced t = replaced s \<and> RunningConfig t = RunningConfig s"
  by (simp add: ensureRunning_def checkDcnodeStatus_def checkPccsStatus_def containerStatus_def
      findContainerIdByName_def HttpGetWithoutCheckCert_def httpResult_def urls upgradeRun)

lemma run_version:
  "\<exists>t. getVersionByHttpGet upgradeEnv dcStorageListenPort s =
     (Ret (if replaced s then (''v2'', ''e2'', None) else (''v1'', ''e1'', None)), t) \<and>
   replaced t = replaced s \<and> RunningConfig t = RunningConfig s \<and> set (trace s) \<subseteq> set (trace t)"
  by (auto simp: getVersionByHttpGet_def HttpGet_def httpResult_def withArgs_def versionUrl_def [symmetric]
      parseVersion_def split_def upgradeRun)

lemma run_program:
  "\<exists>t. GetConfigedDcStorageInfo upgradeEnv 1 s = (Ret (Inr progV2), t) \<and>
   replaced t = replaced s \<and> RunningConfig t = RunningConfig s"
  by (cases "gChainApi s"; cases "gMeta s")
    (simp_all add: GetConfigedDcStorageInfo_def GetChainApi_def waitForChainSyncCompleted_def health_def
      getRecommendProgram_def upgradeRun)

lemma run_choose:
  "RunningConfig s = defaultConfig \<Longrightarrow> chooseProgram upgradeEnv progV2 s = (Ret (Inr progV2), s)"
  by (simp add: chooseProgram_def upgradeRun defaultConfig_def progV2_def)

lemma run_need:
  "\<exists>t. needUpgrade upgradeEnv ''v1'' ''e1'' progV2 s = (Ret (Inr True), t) \<and>
   replaced t = replaced s \<and> RunningConfig t = RunningConfig s"
  by (cases "gChainApi s"; cases "gMeta s")
    (simp_all add: needUpgrade_def IfEnclaveIdValid_def GetChainApi_def committeeKey_def authorises_def
      progV2_def upgradeRun)

lemma run_fetch:
  "RunningConfig s = defaultConfig \<Longrightarrow> \<exists>t. fetchImage upgradeEnv 1 progV2 s = (Ret (Inr ''o:2''), t) \<and>
   replaced t = replaced s \<and> RunningConfig t = RunningConfig s"
  by (simp add: fetchImage_def pullFromRegistry_def pullDcStorageNodeImage_def progV2_def defaultConfig_def
      upgradeRun)

lemma run_prepare:
  "\<exists>t. prepareHandover upgradeEnv s = (Ret None, t) \<and> replaced t = replaced s \<and> RunningConfig t = RunningConfig s"
  by (simp add: prepareHandover_def stopUpgradeInDocker_def StopContainer_def upgradeRun)

lemma run_stop:
  "stopDcnodeInDocker upgradeEnv s = (Ret None, s\<lparr>trace := [EvStop ''n1'' (Some 60) None,
     EvList False (Inr [oldNode]), EvClient None] @ trace s\<rparr>)"
  by (simp add: stopDcnodeInDocker_def StopContainer_def idByName_def named_def oldNode_def
      nodeContainerName_def upgradeRun)

lemma run_remove:
  "\<exists>t new. removeDcStorageNodeInDocker upgradeEnv s = (Ret None, t) \<and> replaced t \<and>
   RunningConfig t = RunningConfig s \<and> trace t = new @ trace s"
proof -
  have new: "\<exists>new. trace (snd (removeDcStorageNodeInDocker upgradeEnv s)) = new @ trace s"
    by (metis emitsD nodeRemoved.events)
  have "contains (c_Image oldNode) ''dcstorage''" by (simp add: oldNode_def)
  then have "\<exists>t. removeDcStorageNodeInDocker upgradeEnv s = (Ret None, t) \<and> replaced t \<and>
      RunningConfig t = RunningConfig s"
    by (simp add: removeDcStorageNodeInDocker_def upgradeRun)
  then show ?thesis using new by auto
qed

lemma run_start:
  "\<exists>t new. startDcStorageNode upgradeEnv s = (Ret None, t) \<and> RunningConfig t = RunningConfig s \<and>
   trace t = new @ trace s"
proof -
  have new: "\<exists>new. trace (snd (startDcStorageNode upgradeEnv s)) = new @ trace s"
    by (metis emitsD nodeStart.events)
  have p: "parseInt 32 ''1234'' = (1234, None)"
    by (simp add: parseInt_def parseUint_def digitVal_def)
  obtain u where u: "runPccsInDocker upgradeEnv s = (Ret None, u)"
    by (simp add: runPccsInDocker_def GetPidWithListenPort_def HttpGetWithoutCheckCert_def httpResult_def
        p urls upgradeRun)
  have c: "fst (StartContainer upgradeEnv n b k hc a) = Ret None" for n b k hc a
    by (simp add: StartContainer_def createContainer_def ensureStarted_def upgradeRun split: option.split)
  have "fst (startTeeReportServerDocker upgradeEnv u) = Ret None"
    by (simp add: startTeeReportServerDocker_def CreateVolume_def c upgradeRun)
  then obtain v where v: "startTeeReportServerDocker upgradeEnv u = (Ret None, v)" by (metis prod.collapse)
  have c2: "StartContainer upgradeEnv n b k hc a = (x, d) \<Longrightarrow> x = Ret None" for n b k hc a x d
    using c by (metis fst_conv)
  have "fst (startDcnodeInDocker upgradeEnv v) = Ret None"
    by (auto simp: startDcnodeInDocker_def CreateVolume_def upgradeRun dest!: c2 split: prod.split)
  then obtain w where w: "startDcnodeInDocker upgradeEnv v = (Ret None, w)" by (metis prod.collapse)
  have "startDcStorageNode upgradeEnv s = (Ret None, w)"
    using u v w by (simp add: startDcStorageNode_def upgradeRun)
  then show ?thesis using new nodeStart.config_same [of upgradeEnv s] by auto
qed

lemma run_replace:
  "\<exists>t. replaceNode upgradeEnv tag s = (Ret None, t) \<and> replaced t \<and>
   RunningConfig t = (RunningConfig s)\<lparr>NodeImage := tag\<rparr> \<and> EvStop ''n1'' (Some 60) None \<in> set (trace t)"
proof -
  obtain u where u: "stopDcnodeInDocker upgradeEnv s = (Ret None, u)" "EvStop ''n1'' (Some 60) None \<in> set (trace u)"
      "RunningConfig u = RunningConfig s"
    by (simp add: run_stop)
  obtain v where v: "removeDcStorageNodeInDocker upgradeEnv u = (Ret None, v)" "replaced v"
      "RunningConfig v = RunningConfig u" "set (trace u) \<subseteq> set (trace v)"
    using run_remove [of u] by auto
  let ?v = "v\<lparr>RunningConfig := (RunningConfig v)\<lparr>NodeImage := tag\<rparr>\<rparr>"
  obtain w new where w: "startDcStorageNode upgradeEnv ?v = (Ret None, w)" "RunningConfig w = RunningConfig ?v"
      "trace w = new @ trace ?v"
    using run_start [of ?v] by blast
  have "replaceNode upgradeEnv tag s = (Ret None, w)"
    using u(1) v(1) w(1) by (simp add: replaceNode_def runs)
  then show ?thesis using u v w by auto
qed

lemma run_finish: "finishHandover upgradeEnv fuel s = (Ret None, s)"
  by (simp add: finishHandover_def upgradeRun)

lemma run_save:
  "bnd (reads RunningConfig) (SaveConfig upgradeEnv) s = (Ret None,
     s\<lparr>trace := EvWriteFile Config_file_path (NodeImage (RunningConfig s)) None # trace s\<rparr>)"
  by (simp add: SaveConfig_def upgradeRun)

lemma run_confirm:
  assumes "replaced s"
  shows "\<exists>t. confirmNode upgradeEnv progV2 s = (Exit 0, t) \<and> set (trace s) \<subseteq> set (trace t) \<and>
   EvSpawn [''dc'', ''upgrade'', ''daemon''] \<in> set (trace t)"
proof -
  obtain u where u: "getVersionByHttpGet upgradeEnv dcStorageListenPort s = (Ret (''v2'', ''e2'', None), u)"
      "set (trace s) \<subseteq> set (trace u)"
    using run_version [of s] assms by auto
  have "newVersionLoop upgradeEnv 0 s = (Ret (''v2'', ''e2'', None), u)"
    by (subst newVersionLoop.simps) (simp add: u runs)
  then show ?thesis using u(2) by (auto simp: confirmNode_def progV2_def selfCommand_def upgradeRun)
qed

lemma run_install:
  assumes "RunningConfig s = defaultConfig"
  shows "\<exists>t. installProgram upgradeEnv 1 progV2 s = (Exit 0, t) \<and>
   {EvStop ''n1'' (Some 60) None, EvWriteFile Config_file_path ''o:2'' None,
    EvSpawn [''dc'', ''upgrade'', ''daemon'']} \<subseteq> set (trace t)"
proof -
  obtain u where u: "fetchImage upgradeEnv 1 progV2 s = (Ret (Inr ''o:2''), u)"
    using run_fetch [OF assms] by blast
  obtain v where v: "prepareHandover upgradeEnv u = (Ret None, v)" using run_prepare by blast
  obtain w where w: "replaceNode upgradeEnv ''o:2'' v = (Ret None, w)" "replaced w"
      "RunningConfig w = (RunningConfig v)\<lparr>NodeImage := ''o:2''\<rparr>" "EvStop ''n1'' (Some 60) None \<in> set (trace w)"
    using run_replace [of "''o:2''" v] by blast
  let ?x = "w\<lparr>trace := EvWriteFile Config_file_path ''o:2'' None # trace w\<rparr>"
  have sv: "bnd (reads RunningConfig) (SaveConfig upgradeEnv) w = (Ret None, ?x)"
    using w(3) by (simp only: run_save) simp
  have "installProgram upgradeEnv 1 progV2 s = confirmNode upgradeEnv progV2 ?x"
    unfolding installProgram_def steps(3) [where r = "fetchImage upgradeEnv 1 progV2", OF u]
      steps(2) [where e = "prepareHandover upgradeEnv", OF v]
      steps(2) [where e = "replaceNode upgradeEnv ''o:2''", OF w(1)]
      steps(2) [where e = "finishHandover upgradeEnv 1", OF run_finish]
      steps(2) [where e = "bnd (reads RunningConfig) (SaveConfig upgradeEnv)", OF sv] ..
  then show ?thesis using run_confirm [of ?x] w(2,4) by fastforce
qed

text \<open>The whole upgrade: the node is stopped, the configuration written and the manager
  restarted.\<close>

lemma run_upgrade_any:
  assumes "\<not> replaced s" and "RunningConfig s = defaultConfig"
  shows "\<exists>t. upgradeDeal upgradeEnv 1 s = (Exit 0, t) \<and>
   {EvStop ''n1'' (Some 60) None, EvWriteFile Config_file_path ''o:2'' None,
    EvSpawn [''dc'', ''upgrade'', ''daemon'']} \<subseteq> set (trace t)"
proof -
  obtain u where u: "ensureRunning upgradeEnv s = (Ret None, u)" "\<not> replaced u" "RunningConfig u = defaultConfig"
    using run_ensure [of s] assms by auto
  obtain v where v: "getVersionByHttpGet upgradeEnv dcStorageListenPort u = (Ret (''v1'', ''e1'', None), v)"
      "RunningConfig v = defaultConfig"
    using run_version [of u] u by auto
  obtain v' where v': "versionKnown v = (Ret (), v')" "RunningConfig v' = defaultConfig"
    using v(2) by (simp add: versionKnown_def runs)
  obtain w where w: "GetConfigedDcStorageInfo upgradeEnv 1 v' = (Ret (Inr progV2), w)" "RunningConfig w = defaultConfig"
    using run_program [of v'] v' by auto
  obtain x where x: "needUpgrade upgradeEnv ''v1'' ''e1'' progV2 w = (Ret (Inr True), x)" "RunningConfig x = defaultConfig"
    using run_need [of w] w by auto
  obtain t where t: "installProgram upgradeEnv 1 progV2 x = (Exit 0, t)"
      "{EvStop ''n1'' (Some 60) None, EvWriteFile Config_file_path ''o:2'' None,
        EvSpawn [''dc'', ''upgrade'', ''daemon'']} \<subseteq> set (trace t)"
    using run_install [OF x(2)] by blast
  have "upgradeDeal upgradeEnv 1 s = (Exit 0, t)"
    using u v v' w x t run_choose [OF w(2)] by (simp add: upgradeDeal_def steps)
  then show ?thesis using t by blast
qed

lemma run_upgrade:
  "{EvStop ''n1'' (Some 60) None, EvWriteFile Config_file_path ''o:2'' None,
    EvSpawn [''dc'', ''upgrade'', ''daemon'']} \<subseteq> set (newEvents (upgradeDeal upgradeEnv 1) initSt)"
  using run_upgrade_any [of initSt] by (auto simp: newEvents_def initSt_def)

lemma upgradeEnv_versions: "eNewVersion upgradeEnv [] \<noteq> Inr pv"
  by (simp add: upgradeEnv_fields)

section \<open>The order of an upgrade\<close>

lemmas milestones = obeys_split [where need = "milestone E cfg" for E cfg]

text \<open>C1: The running dcstorage is taken down (stopped or its container removed) only when
  the upgrade is justified by what happened before in the same run: the chain recommended
  or the configuration orders the program, its enclave is authorised by a signature of the
  committee, it is newer than the version that answered and differs from it, its image was
  loaded or pulled, and on SGX2 dcupgrade said that it holds the node's key. The only fact
  used of the version library is that the empty string is no version.\<close>

theorem upgrade_destroys_only_justified:
  assumes "\<And>pv. eNewVersion E [] \<noteq> Inr pv"
    and "newEvents (upgradeDeal E fuel) s = later @ e # earlier" and "destroysNode e"
  shows "\<exists>p tag. justified E (RunningConfig s) p tag earlier"
  using milestones [of E "RunningConfig s" later e earlier] upgrade_obeys [OF assms(1), of s fuel] assms(2,3)
  by (cases e) auto

theorem upgrade_destroys_only_justified_witness:
  "\<exists>later earlier p tag. newEvents (upgradeDeal upgradeEnv 1) initSt =
     later @ EvStop ''n1'' (Some 60) None # earlier \<and> justified upgradeEnv (RunningConfig initSt) p tag earlier"
proof -
  obtain later earlier where split: "newEvents (upgradeDeal upgradeEnv 1) initSt =
      later @ EvStop ''n1'' (Some 60) None # earlier"
    using run_upgrade by (meson insert_subset split_list)
  have "destroysNode (EvStop ''n1'' (Some 60) None)" by (simp add: container_names)
  then show ?thesis
    using upgrade_destroys_only_justified [OF upgradeEnv_versions split] split by blast
qed

text \<open>C5: The configuration is written only at the end of a replacement of dcstorage, which
  has the order of its design. Going back from the write: on SGX2 the new dcstorage said
  that it fetched the node's key back (\<open>finish\<close>); before that a container of the name
  dcstorage with the new image was listed or created and is started or found running
  (\<open>up\<close>); before that, of a list of all containers, an old one was removed or none was
  there (\<open>down\<close>); and before that the program was justified (\<open>before\<close>). What is
  written is the running configuration with the new node image, under its usual path.\<close>

theorem upgrade_saves_only_with_key:
  assumes "\<And>pv. eNewVersion E [] \<noteq> Inr pv"
    and "newEvents (upgradeDeal E fuel) s = later @ EvWriteFile path c r # earlier"
  shows "\<exists>p tag finish up down before. earlier = finish @ up @ down @ before \<and>
    justified E (RunningConfig s) p tag before \<and> nodeCleared (NodeImage (RunningConfig s)) down \<and>
    containerUp nodeContainerName tag up \<and> keyReturned E finish \<and>
    path = Config_file_path \<and> yamlMarshal E ((RunningConfig s)\<lparr>NodeImage := tag\<rparr>) = Inr c"
proof -
  have "milestone E (RunningConfig s) (EvWriteFile path c r) earlier"
    using obeys_split upgrade_obeys [OF assms(1), of s fuel] assms(2) by metis
  then show ?thesis unfolding milestone.simps rekeyed_def installed_def cleared_def by blast
qed

theorem upgrade_saves_only_with_key_witness:
  "\<exists>later earlier finish up down before. newEvents (upgradeDeal upgradeEnv 1) initSt =
     later @ EvWriteFile Config_file_path ''o:2'' None # earlier \<and> earlier = finish @ up @ down @ before \<and>
   containerUp nodeContainerName ''o:2'' up \<and> nodeCleared (NodeImage defaultConfig) down"
proof -
  obtain later earlier where split: "newEvents (upgradeDeal upgradeEnv 1) initSt =
      later @ EvWriteFile Config_file_path ''o:2'' None # earlier"
    using run_upgrade by (meson insert_subset split_list)
  obtain p tag finish up down before where e: "earlier = finish @ up @ down @ before"
      "nodeCleared (NodeImage (RunningConfig initSt)) down" "containerUp nodeContainerName tag up"
      "yamlMarshal upgradeEnv ((RunningConfig initSt)\<lparr>NodeImage := tag\<rparr>) = Inr ''o:2''"
    using upgrade_saves_only_with_key [OF upgradeEnv_versions split] by blast
  have tag: "tag = ''o:2''" using e(4) by (simp add: upgradeEnv_fields)
  have cfg: "RunningConfig initSt = defaultConfig" by (simp add: initSt_def)
  show ?thesis using split e(1-3) unfolding tag cfg by blast
qed

text \<open>C3: The manager restarts itself only at the end of a justified upgrade whose
  configuration was saved, and right after the new dcstorage answered with the program's
  version (and its enclave, on SGX2).\<close>

theorem upgrade_restarts_only_confirmed:
  assumes "\<And>pv. eNewVersion E [] \<noteq> Inr pv"
    and "newEvents (upgradeDeal E fuel) s = later @ EvSpawn cmd # earlier"
  shows "\<exists>p tag. justified E (RunningConfig s) p tag earlier \<and> keyReturned E earlier \<and>
    saved E (RunningConfig s) tag earlier \<and> confirmed E p earlier \<and> cmd = selfCommand E"
  using milestones [of E "RunningConfig s" later _ earlier] upgrade_obeys [OF assms(1), of s fuel] assms(2)
  by fastforce

theorem upgrade_restarts_only_confirmed_witness:
  "\<exists>later earlier p. newEvents (upgradeDeal upgradeEnv 1) initSt =
     later @ EvSpawn [''dc'', ''upgrade'', ''daemon''] # earlier \<and> confirmed upgradeEnv p earlier"
proof -
  obtain later earlier where split: "newEvents (upgradeDeal upgradeEnv 1) initSt =
      later @ EvSpawn [''dc'', ''upgrade'', ''daemon''] # earlier"
    using run_upgrade by (meson insert_subset split_list)
  then show ?thesis
    using upgrade_restarts_only_confirmed [OF upgradeEnv_versions split] by blast
qed

section \<open>When dcstorage does not answer\<close>

text \<open>The refusals of Docker that make a start fail.\<close>

fun refused :: "event \<Rightarrow> bool" where
  "refused (EvClient e) = (e \<noteq> None)"
| "refused (EvList _ r) = isl r"
| "refused (EvCreate _ _ _ r) = isl r"
| "refused (EvInspect _ r) = isl r"
| "refused (EvStart _ e) = (e \<noteq> None)"
| "refused (EvStop _ _ e) = (e \<noteq> None)"
| "refused (EvRemove _ e) = (e \<noteq> None)"
| "refused _ = False"

lemma ensureStarted_refused:
  "\<exists>e u new. ensureStarted E i s = (Ret e, u) \<and> trace u = new @ trace s \<and>
     (e \<noteq> None \<longrightarrow> (\<exists>x \<in> set new. refused x))"
  by (auto simp: ensureStarted_def checkE_def tryE_def effects run split: sum.split option.split)

lemma createContainer_refused:
  "\<exists>r u new. createContainer E n b c hc s = (Ret r, u) \<and> trace u = new @ trace s \<and>
     (isl r \<longrightarrow> (\<exists>x \<in> set new. refused x))"
  by (auto simp: createContainer_def effects run split: sum.split option.split)

lemma StartContainer_refused:
  "\<exists>e u new. StartContainer E n b c hc s = (Ret e, u) \<and> trace u = new @ trace s \<and>
     (e \<noteq> None \<longrightarrow> (\<exists>x \<in> set new. refused x))"
proof (cases "eClient E (trace s)")
  case (Some x)
  then show ?thesis by (simp add: StartContainer_def checkE_def effects run)
next
  case None
  let ?r = "eList E (EvClient None # trace s) True"
  let ?u = "s\<lparr>trace := EvList True ?r # EvClient None # trace s\<rparr>"
  show ?thesis
  proof (cases ?r)
    case (Inl x)
    then show ?thesis using None by (auto simp: StartContainer_def checkE_def tryE_def effects run)
  next
    case (Inr cs)
    show ?thesis
    proof (cases "findCreated (Image c) n cs")
      case (Some i)
      obtain e v new where "ensureStarted E i ?u = (Ret e, v)" "trace v = new @ trace ?u"
          "e \<noteq> None \<longrightarrow> (\<exists>x \<in> set new. refused x)" using ensureStarted_refused [of E i ?u] by blast
      then show ?thesis using None Inr Some by (auto simp: StartContainer_def checkE_def tryE_def effects run)
    next
      case no: None
      obtain r v new where v: "createContainer E n b c hc ?u = (Ret r, v)" "trace v = new @ trace ?u"
          "isl r \<longrightarrow> (\<exists>x \<in> set new. refused x)" using createContainer_refused [of E n b c hc ?u] by blast
      show ?thesis
      proof (cases r)
        case (Inl x)
        then show ?thesis using None Inr no v by (auto simp: StartContainer_def checkE_def tryE_def effects run)
      next
        case r: (Inr i)
        obtain e w new2 where "ensureStarted E i v = (Ret e, w)" "trace w = new2 @ trace v"
            "e \<noteq> None \<longrightarrow> (\<exists>x \<in> set new2. refused x)" using ensureStarted_refused [of E i v] by blast
        then show ?thesis using None Inr no r v by (auto simp: StartContainer_def checkE_def tryE_def effects run)
      qed
    qed
  qed
qed

text \<open>One failure: the counter, and, when it is past 150, the start of dcupgrade, which comes
  up unless Docker refuses something.\<close>

definition upgradeStarted :: "string \<Rightarrow> history \<Rightarrow> bool" where
  "upgradeStarted img new \<longleftrightarrow> (\<forall>e \<in> set new. startEvent True upgradeContainerName e) \<and>
     (containerUp upgradeContainerName img new \<or> (\<exists>e \<in> set new. refused e))"

lemma upgradeStart_started:
  "upgradeStarted (UpgradeImage (RunningConfig s)) (newEvents (startDcupgradeInDocker E) s)"
proof -
  let ?c = "\<lparr>Image = UpgradeImage (RunningConfig s), Entrypoint = [], Env = []\<rparr>"
  let ?hc = "hostSettings [] sgxDevices (Some (jsonLog ''10m''))"
  obtain e u new where u: "StartContainer E upgradeContainerName True ?c ?hc s = (Ret e, u)"
      "trace u = new @ trace s" "e \<noteq> None \<longrightarrow> (\<exists>x \<in> set new. refused x)"
    using StartContainer_refused [of E upgradeContainerName True ?c ?hc s] by blast
  have "startDcupgradeInDocker E s = (Ret None, u)"
    using u(1) by (simp add: startDcupgradeInDocker_def andThen_def run)
  then have new: "newEvents (startDcupgradeInDocker E) s = new" using u(2) by (intro newEvents_eq) simp
  have "containerUp upgradeContainerName (UpgradeImage (RunningConfig s)) new" if "e = None"
    using teachesD [OF teaches_containerUp u(1,2)] that by simp
  then show ?thesis
    using u(3) emits_newEvents [OF upgradeStart.events, of _ E s] unfolding upgradeStarted_def new by blast
qed

lemma versionUnknown_step:
  "versionGetErrCount (snd (versionUnknown E s)) =
     (if versionGetErrCount s > 150 then 0 else versionGetErrCount s + 1) \<and>
   RunningConfig (snd (versionUnknown E s)) = RunningConfig s \<and>
   (if versionGetErrCount s > 150
    then upgradeStarted (UpgradeImage (RunningConfig s)) (newEvents (versionUnknown E) s)
    else newEvents (versionUnknown E) s = [])"
proof (cases "versionGetErrCount s > 150")
  case False
  then show ?thesis by (simp add: versionUnknown_def runs newEvents_def)
next
  case True
  let ?u = "s\<lparr>waitEnclaveIdFlag := False, versionGetErrCount := 0\<rparr>"
  have v: "snd (versionUnknown E s) = snd (startDcupgradeInDocker E ?u)"
    using True by (auto simp: versionUnknown_def startDcupgradeInDocker_def run andThen_def
        split: prod.split outcome.split)
  have "keeps versionGetErrCount (startDcupgradeInDocker E)"
    unfolding startDcupgradeInDocker_def docker_defs by (intro emits_intro; simp)
  then have "versionGetErrCount (snd (versionUnknown E s)) = 0" unfolding v by (simp add: keepsD)
  moreover have "RunningConfig (snd (versionUnknown E s)) = RunningConfig s"
    unfolding v using upgradeStart.config_same [of E ?u] by simp
  moreover have "newEvents (versionUnknown E) s = newEvents (startDcupgradeInDocker E) ?u"
    unfolding newEvents_def v by simp
  ultimately show ?thesis using True upgradeStart_started [of ?u E] by simp
qed

text \<open>C26: While dcstorage does not answer, the counter of failed version queries runs
  through 0 to 151 and starts again: after \<open>k\<close> failures it is \<open>k mod 152\<close>. At every
  152nd failure, and at no other, the container dcupgrade of the configured image is
  started: nothing else is touched, and it is up afterwards unless Docker refused an
  operation (with the five-minute timer of the daemon, after more than twelve hours).\<close>

theorem versionUnknown_counts:
  assumes "versionGetErrCount s = 0" and "u = ((\<lambda>u. snd (versionUnknown E u)) ^^ k) s"
  shows "versionGetErrCount u = int (k mod 152) \<and>
    (if k mod 152 = 151
     then (\<forall>e \<in> set (newEvents (versionUnknown E) u). startEvent True upgradeContainerName e) \<and>
       (containerUp upgradeContainerName (UpgradeImage (RunningConfig s)) (newEvents (versionUnknown E) u) \<or>
        (\<exists>e \<in> set (newEvents (versionUnknown E) u). refused e))
     else newEvents (versionUnknown E) u = [])"
proof -
  have "versionGetErrCount u = int (k mod 152) \<and> RunningConfig u = RunningConfig s"
    unfolding assms(2)
  proof (induction k)
    case (Suc k)
    let ?u = "((\<lambda>u. snd (versionUnknown E u)) ^^ k) s"
    show ?case using Suc versionUnknown_step [of E ?u] by (auto simp: mod_Suc)
  qed (simp add: assms(1))
  then show ?thesis using versionUnknown_step [of E u] by (auto simp: upgradeStarted_def split: if_splits)
qed

text \<open>On the sample machine the container of dcupgrade is created at the 152nd failure.\<close>

theorem versionUnknown_counts_witness:
  "\<exists>u. versionGetErrCount u = 151 \<and>
     (containerUp upgradeContainerName (UpgradeImage defaultConfig) (newEvents (versionUnknown upgradeEnv) u) \<or>
      (\<exists>e \<in> set (newEvents (versionUnknown upgradeEnv) u). refused e))"
proof -
  have "versionGetErrCount initSt = 0" "RunningConfig initSt = defaultConfig" by (simp_all add: initSt_def)
  then show ?thesis using versionUnknown_counts [where s = initSt and k = 151 and E = upgradeEnv, OF _ refl] by auto
qed

section \<open>The old container\<close>

lemma removeNamed_slashed:
  "\<forall>n \<in> set ns. \<exists>r. n = CHR ''/'' # r \<Longrightarrow> removeNamed E i ns e = ret (False, e)"
  by (induction ns) (auto simp: nodeContainerName_def)

lemma removeOld_slashed:
  assumes "\<forall>c \<in> set cs. c_Image c \<noteq> img \<and> \<not> contains (c_Image c) ''dcstorage'' \<and>
      (\<forall>n \<in> set (c_Names c). \<exists>r. n = CHR ''/'' # r)"
  shows "removeOld E img cs e s = (Ret e, s\<lparr>trace := EvPrint ''no old version dcstorage docker container'' # trace s\<rparr>)"
  using assms by (induction cs) (auto simp: removeNamed_slashed run andThen_def println_def emit_def)

text \<open>C36: Docker lists names with a leading slash, which the test of the old container's
  name does not expect: a container that is called dcstorage but whose image is neither the
  configured one nor has dcstorage in its name is left in place, and \<open>nil\<close> is
  returned.\<close>

theorem removal_ignores_names:
  assumes "\<And>h. eClient E h = None" and "\<And>h. eList E h True = Inr cs"
    and "\<And>c n. c \<in> set cs \<Longrightarrow> n \<in> set (c_Names c) \<Longrightarrow> hd n = CHR ''/'' \<and> n \<noteq> []"
    and "\<And>c. c \<in> set cs \<Longrightarrow> c_Image c \<noteq> NodeImage (RunningConfig s) \<and> \<not> contains (c_Image c) ''dcstorage''"
  shows "fst (removeDcStorageNodeInDocker E s) = Ret None \<and>
    \<not> (\<exists>e \<in> set (newEvents (removeDcStorageNodeInDocker E) s). isRemove e)"
proof -
  have "\<forall>c \<in> set cs. c_Image c \<noteq> NodeImage (RunningConfig s) \<and> \<not> contains (c_Image c) ''dcstorage'' \<and>
      (\<forall>n \<in> set (c_Names c). \<exists>r. n = CHR ''/'' # r)"
    using assms(3,4) by (metis list.collapse)
  from removeOld_slashed [OF this] show ?thesis
    by (simp add: removeDcStorageNodeInDocker_def runs assms(1,2) newEvents_def)
qed

theorem removal_ignores_names_witness:
  "\<exists>c. named nodeContainerName c \<and>
    fst (removeDcStorageNodeInDocker (nullEnv\<lparr>eList := \<lambda>_ _. Inr [c]\<rparr>) initSt) = Ret None"
proof (intro exI conjI)
  let ?c = "\<lparr>c_ID = ''n1'', c_Names = [''/dcstorage''], c_Image = ''custom:1''\<rparr>"
  let ?E = "nullEnv\<lparr>eList := \<lambda>_ _. Inr [?c]\<rparr>"
  show "named nodeContainerName ?c" by (simp add: named_def nodeContainerName_def)
  show "fst (removeDcStorageNodeInDocker ?E initSt) = Ret None"
    using removal_ignores_names [of ?E "[?c]" initSt]
    by (simp add: nullEnv_def initSt_def defaultConfig_def)
qed

end
