(* ===== verification/Daemon.thy ===== *)
theory Daemon
  imports UpgradeProps
begin

text \<open>
  The background upgrade service (command/command.go, \<open>daemonCommandDeal\<close>): one
  instance per machine, kept by the process id in a file, and a loop that tries an upgrade
  at every tick while the saved command state is start. A tick or a signal is what
  \<open>eSelect\<close> says; \<open>fuel\<close> bounds the turns of the loop, which only a signal or
  the restart at the end of an upgrade ends.
\<close>

section \<open>The service\<close>

fun daemonLoop :: "env \<Rightarrow> nat \<Rightarrow> nat \<Rightarrow> unit go" where
  "daemonLoop E fuel 0 = noFuel"
| "daemonLoop E fuel (Suc turns) =
     bnd (ext (eSelect E) EvSelect) (\<lambda>tick.
       if tick
       then bnd (checkDcnodeCmdState E) (\<lambda>started.
              if \<not> started then daemonLoop E fuel turns
              else bnd (upgradeDeal E fuel) (\<lambda>e.
                if e \<noteq> None \<or> \<not> IsSgx2Support E then daemonLoop E fuel turns
                else bnd (randIntn E 86400) (\<lambda>randnum.
                     andThen (sleep randnum) (daemonLoop E fuel turns))))
       else andThen (emit (EvRemoveFile daemonFilepath)) (exitWith 1))"

definition writePid :: "env \<Rightarrow> err go" where
  "writePid E = osWriteFile E daemonFilepath (itoa (eGetpid E))"

text \<open>Whether this process may be the service: the file was empty, or its process is gone,
  and now holds this process's id.\<close>

definition claimPid :: "env \<Rightarrow> bool go" where
  "claimPid E =
     bnd (osReadFile E daemonFilepath) (\<lambda>r. case r of
       Inl _ \<Rightarrow> ret False
     | Inr content \<Rightarrow>
         if content = [] then bnd (writePid E) (\<lambda>e. ret (e = None))
         else (case atoi content of
             (_, Some _) \<Rightarrow> ret False
           | (pid, None) \<Rightarrow> bnd (findProcess E pid) (\<lambda>p.
               if p = Inr True then ret False
               else bnd (writePid E) (\<lambda>e. ret (e = None)))))"

definition daemonCommandDeal :: "env \<Rightarrow> nat \<Rightarrow> nat \<Rightarrow> unit go" where
  "daemonCommandDeal E fuel turns =
     bnd (osStat E daemonFilepath) (\<lambda>r. case r of
       StatErr _ \<Rightarrow> ret ()
     | StatOk \<Rightarrow> bnd (claimPid E) (\<lambda>mine. if mine then daemonLoop E fuel turns else ret ())
     | StatNotExist _ \<Rightarrow> andThen (osCreate E daemonFilepath)
         (bnd (claimPid E) (\<lambda>mine. if mine then daemonLoop E fuel turns else ret ())))"

section \<open>An upgrade never waits for the ticker\<close>

fun isSelect :: "event \<Rightarrow> bool" where
  "isSelect (EvSelect _) = True"
| "isSelect _ = False"

text \<open>Waiting for a tick is no event of the parts an upgrade is made of.\<close>

lemmas not_select = harmless_def nodeStartEvent_def

lemma emits_confirm: "emits (\<lambda>e. \<not> isSelect e) (confirmNode E p)"
  unfolding confirmNode_def
  by (intro emits_intro emits_mono [OF emits_newVersion] nodeStop.weaken)
    (auto elim!: isSelect.elims(2))

lemma emits_replace: "emits (\<lambda>e. \<not> isSelect e) (replaceNode E tag)"
  unfolding replaceNode_def sleep_def
  by (intro emits_intro nodeStop.weaken nodeRemoved.weaken nodeStart.weaken)
    (auto elim!: isSelect.elims(2) simp: not_select)

lemma emits_install: "emits (\<lambda>e. \<not> isSelect e) (installProgram E fuel p)"
  unfolding installProgram_def
  by (intro emits_intro imageFetched.weaken handover.weaken emits_replace handoverDone.weaken
      saveConfig.weaken emits_confirm)
    (auto elim!: isSelect.elims(2) simp: not_select)

lemma emits_upgrade: "emits (\<lambda>e. \<not> isSelect e) (upgradeDeal E fuel)"
  unfolding upgradeDeal_def
  by (intro emits_intro nodeEnsured.weaken versionGet.weaken versionFailed.weaken versionOK.weaken
      configedInfo.weaken programChosen.weaken upgradeNeeded.weaken emits_install)
    (auto elim!: isSelect.elims(2) simp: not_select)

section \<open>Upgrades only while dcstorage is to run\<close>

text \<open>\<open>startedTick h\<close>: since the last tick the saved command state was read and was
  start.\<close>

fun startedTick :: "history \<Rightarrow> bool" where
  "startedTick [] = False"
| "startedTick (EvSelect _ # h) = False"
| "startedTick (EvReadFile p r # h) = (p = runCmdStateFilepath \<and> r = Inr ''start'' \<or> startedTick h)"
| "startedTick (_ # h) = startedTick h"

text \<open>What the service may do by itself, at any time.\<close>

fun idle :: "event \<Rightarrow> bool" where
  "idle (EvStat p _) = (p = daemonFilepath)"
| "idle (EvCreateFile p _) = (p = daemonFilepath)"
| "idle (EvReadFile p _) = (p \<in> {daemonFilepath, runCmdStateFilepath})"
| "idle (EvWriteFile p _ _) = (p = daemonFilepath)"
| "idle (EvFindProcess _ _) = True"
| "idle (EvSelect _) = True"
| "idle (EvRand _ _) = True"
| "idle (EvSleep _) = True"
| "idle (EvRemoveFile p) = (p = daemonFilepath)"
| "idle _ = False"

lemma startedTick_more: "startedTick h \<Longrightarrow> \<not> isSelect e \<Longrightarrow> startedTick (e # h)"
  by (cases e) auto

lemma ordered_more:
  "onlyAfter (\<lambda>e. \<not> idle e) startedTick h \<and> startedTick h \<Longrightarrow> \<forall>e \<in> set new. \<not> isSelect e \<Longrightarrow>
   onlyAfter (\<lambda>e. \<not> idle e) startedTick (new @ h) \<and> startedTick (new @ h)"
  by (induction new) (auto intro: startedTick_more)

lemma ordered_idle:
  "onlyAfter (\<lambda>e. \<not> idle e) startedTick h \<Longrightarrow> \<forall>e \<in> set new. idle e \<Longrightarrow>
   onlyAfter (\<lambda>e. \<not> idle e) startedTick (new @ h)"
  by (induction new) auto

abbreviation inOrder :: "history \<Rightarrow> st \<Rightarrow> bool" where
  "inOrder h0 \<equiv> since h0 (onlyAfter (\<lambda>e. \<not> idle e) startedTick)"

lemma idle_valid: "emits idle m \<Longrightarrow> valid (inOrder h0) m (\<lambda>_. inOrder h0) (inOrder h0)"
  by (rule valid_emits) (auto intro: ordered_idle)

lemma state_valid:
  "valid (inOrder h0) (checkDcnodeCmdState E)
    (\<lambda>started. since h0 (\<lambda>h. onlyAfter (\<lambda>e. \<not> idle e) startedTick h \<and> (started \<longrightarrow> startedTick h)))
    (inOrder h0)"
  unfolding valid_def
proof (intro allI impI)
  fix s assume "inOrder h0 s"
  then obtain h where "trace s = h @ h0" "onlyAfter (\<lambda>e. \<not> idle e) startedTick h"
    by (auto simp: since_def)
  then show "post (\<lambda>started. since h0 (\<lambda>h. onlyAfter (\<lambda>e. \<not> idle e) startedTick h \<and>
      (started \<longrightarrow> startedTick h))) (inOrder h0) (checkDcnodeCmdState E s)"
    by (cases "eReadFile E (trace s) runCmdStateFilepath")
      (auto simp: checkDcnodeCmdState_def osReadFile_def run since_def
        intro!: exI [of _ "EvReadFile _ _ # h"])
qed

lemma upgrade_tick:
  "valid (since h0 (\<lambda>h. onlyAfter (\<lambda>e. \<not> idle e) startedTick h \<and> startedTick h)) (upgradeDeal E fuel)
    (\<lambda>_. inOrder h0) (inOrder h0)"
  by (rule valid_post [OF valid_emits [OF emits_upgrade, where K = "\<lambda>h. onlyAfter (\<lambda>e. \<not> idle e) startedTick h \<and> startedTick h"
        and L = "\<lambda>h. onlyAfter (\<lambda>e. \<not> idle e) startedTick h \<and> startedTick h"]], erule (1) ordered_more)
    (auto elim: since_mono)

lemma loop_valid: "valid (inOrder h0) (daemonLoop E fuel turns) (\<lambda>_. inOrder h0) (inOrder h0)"
proof (induction turns)
  case 0
  then show ?case by (simp add: valid_noFuel)
next
  case (Suc turns)
  have quit: "valid (inOrder h0) (andThen (emit (EvRemoveFile daemonFilepath)) (exitWith 1)) (\<lambda>_. inOrder h0) (inOrder h0)"
    by (intro idle_valid emits_intro) simp
  have nap: "valid (inOrder h0) (bnd (randIntn E 86400) (\<lambda>n. andThen (sleep n) (daemonLoop E fuel turns)))
      (\<lambda>_. inOrder h0) (inOrder h0)"
    by (rule valid_bnd [OF idle_valid valid_andThen [OF idle_valid Suc]])
      (simp_all add: randIntn_def sleep_def emits_ext emits_emit)
  have go: "valid (since h0 (\<lambda>h. onlyAfter (\<lambda>e. \<not> idle e) startedTick h \<and> startedTick h))
      (bnd (upgradeDeal E fuel) (\<lambda>e.
        if e \<noteq> None \<or> \<not> IsSgx2Support E then daemonLoop E fuel turns
        else bnd (randIntn E 86400) (\<lambda>randnum. andThen (sleep randnum) (daemonLoop E fuel turns))))
      (\<lambda>_. inOrder h0) (inOrder h0)"
    by (rule valid_bnd [OF upgrade_tick]) (simp add: Suc nap)
  have tick: "valid (inOrder h0) (bnd (checkDcnodeCmdState E) (\<lambda>started.
      if \<not> started then daemonLoop E fuel turns
      else bnd (upgradeDeal E fuel) (\<lambda>e.
        if e \<noteq> None \<or> \<not> IsSgx2Support E then daemonLoop E fuel turns
        else bnd (randIntn E 86400) (\<lambda>randnum. andThen (sleep randnum) (daemonLoop E fuel turns)))))
      (\<lambda>_. inOrder h0) (inOrder h0)"
    by (rule valid_bnd [OF state_valid], rename_tac started, case_tac started)
      (simp_all only: simp_thms if_True if_False Suc go)
  show ?case unfolding daemonLoop.simps
    by (rule valid_bnd [OF idle_valid]) (auto intro: tick quit emits_ext)
qed

lemma claim_idle: "emits idle (claimPid E)"
  unfolding claimPid_def writePid_def osReadFile_def osWriteFile_def findProcess_def
  by (intro emits_intro; simp)

lemma daemon_valid: "valid (inOrder h0) (daemonCommandDeal E fuel turns) (\<lambda>_. inOrder h0) (inOrder h0)"
proof -
  have c: "valid (inOrder h0) (bnd (claimPid E) (\<lambda>mine. if mine then daemonLoop E fuel turns else ret ()))
      (\<lambda>_. inOrder h0) (inOrder h0)"
    by (rule valid_bnd [OF idle_valid [OF claim_idle]]) (auto intro: loop_valid valid_ret)
  have n: "valid (inOrder h0) (andThen (osCreate E daemonFilepath)
      (bnd (claimPid E) (\<lambda>mine. if mine then daemonLoop E fuel turns else ret ())))
      (\<lambda>_. inOrder h0) (inOrder h0)"
    by (rule valid_andThen [OF idle_valid c]) (simp add: osCreate_def emits_ext)
  show ?thesis unfolding daemonCommandDeal_def osStat_def
    by (rule valid_bnd [OF idle_valid]) (auto intro: c n valid_ret emits_ext split: statReply.split)
qed

text \<open>C2: The background service does nothing to the machine (other than to its own files
  and by waiting) unless, since the last tick, it read the saved command state and found
  start there: a dcstorage that was stopped by hand is neither started nor upgraded.\<close>

theorem daemon_acts_only_started:
  assumes "newEvents (daemonCommandDeal E fuel turns) s = later @ e # earlier" and "\<not> idle e"
  shows "startedTick earlier"
proof -
  have "inOrder (trace s) s" by (simp add: since_def)
  then have "inOrder (trace s) (snd (daemonCommandDeal E fuel turns s))"
    by (rule valid_all [OF daemon_valid])
  then have "onlyAfter (\<lambda>e. \<not> idle e) startedTick (newEvents (daemonCommandDeal E fuel turns) s)"
    by (rule since_newEvents)
  then show ?thesis using assms by (auto simp: onlyAfter_iff)
qed

theorem daemon_acts_only_started_witness:
  "\<exists>later earlier. newEvents (daemonCommandDeal upgradeEnv 1 1) initSt =
     later @ EvStop ''n1'' (Some 60) None # earlier \<and> startedTick earlier"
proof -
  have claim: "\<exists>u. claimPid upgradeEnv s = (Ret True, u) \<and> replaced u = replaced s \<and> RunningConfig u = RunningConfig s" for s
    by (simp add: claimPid_def writePid_def daemonFilepath_def runCmdStateFilepath_def upgradeRun)
  have ready: "\<exists>u. checkDcnodeCmdState upgradeEnv s = (Ret True, u) \<and> replaced u = replaced s \<and>
      RunningConfig u = RunningConfig s" for s
    by (simp add: checkDcnodeCmdState_def upgradeRun)
  let ?s = "initSt\<lparr>trace := [EvStat daemonFilepath StatOk]\<rparr>"
  obtain u where u: "claimPid upgradeEnv ?s = (Ret True, u)" "\<not> replaced u" "RunningConfig u = defaultConfig"
    using claim [of ?s] by (auto simp: initSt_def)
  let ?u = "u\<lparr>trace := EvSelect True # trace u\<rparr>"
  obtain v where v: "checkDcnodeCmdState upgradeEnv ?u = (Ret True, v)" "\<not> replaced v" "RunningConfig v = defaultConfig"
    using ready [of ?u] u by auto
  obtain t where t: "upgradeDeal upgradeEnv 1 v = (Exit 0, t)" "EvStop ''n1'' (Some 60) None \<in> set (trace t)"
    using run_upgrade_any [OF v(2,3)] by auto
  have "daemonCommandDeal upgradeEnv 1 1 initSt = (Exit 0, t)"
    using u(1) v(1) t(1) by (simp add: daemonCommandDeal_def osStat_def run upgradeEnv_fields initSt_def)
      (simp add: upgradeEnv_def nullEnv_def run)
  then obtain later earlier where split: "newEvents (daemonCommandDeal upgradeEnv 1 1) initSt =
      later @ EvStop ''n1'' (Some 60) None # earlier"
    using t(2) by (auto simp: newEvents_def initSt_def dest: split_list)
  show ?thesis using daemon_acts_only_started [OF split] split by auto
qed

text \<open>C21: At most one service runs: when the pid file holds the id of a process that
  lives, the service returns at once, having only looked. The id is read back as it was
  written.\<close>

theorem daemon_single_instance:
  assumes "\<And>h. eStat E h daemonFilepath = StatOk" and "\<And>h. eReadFile E h daemonFilepath = Inr (itoa pid)"
    and "\<And>h. eFindProcess E h pid = Inr True" and "- (2 ^ 63) \<le> pid" and "pid < 2 ^ 63"
  shows "daemonCommandDeal E fuel turns s = (Ret (), s\<lparr>trace :=
    [EvFindProcess pid (Inr True), EvReadFile daemonFilepath (Inr (itoa pid)), EvStat daemonFilepath StatOk] @ trace s\<rparr>)"
proof -
  have "itoa pid \<noteq> []" by (simp add: itoa_def)
  then show ?thesis
    using assms atoi_itoa [OF assms(4,5)]
    by (simp add: daemonCommandDeal_def claimPid_def runs)
qed

theorem daemon_single_instance_witness:
  "fst (daemonCommandDeal (nullEnv\<lparr>eStat := \<lambda>_ _. StatOk, eReadFile := \<lambda>_ _. Inr (itoa 77),
     eFindProcess := \<lambda>_ _. Inr True\<rparr>) 0 5 initSt) = Ret ()"
  by (subst daemon_single_instance [where pid = 77]) (simp_all add: nullEnv_def)

section \<open>The end of the service\<close>

text \<open>\<open>endsOnSignal m\<close>: when a run of \<open>m\<close> sees a signal, it removes the pid file and
  leaves with status 1, and these are its last acts. The property is kept by whatever
  comes before without waiting for a tick.\<close>

definition signalled :: "'a outcome \<Rightarrow> history \<Rightarrow> bool" where
  "signalled r new \<longleftrightarrow> (EvSelect False \<in> set new \<longrightarrow>
     r = Exit 1 \<and> (\<exists>rest. new = EvRemoveFile daemonFilepath # EvSelect False # rest \<and>
       EvSelect False \<notin> set rest))"

definition endsOnSignal :: "'a go \<Rightarrow> bool" where
  "endsOnSignal m \<longleftrightarrow> (\<forall>s. \<exists>new. trace (snd (m s)) = new @ trace s \<and> signalled (fst (m s)) new)"

named_theorems ends_intro "rules for programs that end on a signal"

lemma ends_quiet: "emits (\<lambda>e. \<not> isSelect e) m \<Longrightarrow> endsOnSignal m"
  unfolding emits_def endsOnSignal_def signalled_def by (metis isSelect.simps(1))

lemma ends_ret [ends_intro]: "endsOnSignal (ret x)"
  and ends_noFuel [ends_intro]: "endsOnSignal noFuel"
  by (rule ends_quiet, rule emits_intro)+

lemma ends_bnd:
  assumes m: "emits (\<lambda>e. \<not> isSelect e) m" and f: "\<And>x. endsOnSignal (f x)"
  shows "endsOnSignal (bnd m f)"
  unfolding endsOnSignal_def
proof
  fix s
  obtain r u where u: "m s = (r, u)" by fastforce
  obtain n1 where n1: "trace u = n1 @ trace s" "\<forall>e \<in> set n1. \<not> isSelect e"
    using emitsD [OF m, of s] u by auto
  have none: "EvSelect False \<notin> set n1" using n1(2) by fastforce
  show "\<exists>new. trace (snd (bnd m f s)) = new @ trace s \<and> signalled (fst (bnd m f s)) new"
  proof (cases r)
    case (Ret x)
    obtain n2 where "trace (snd (f x u)) = n2 @ trace u" "signalled (fst (f x u)) n2"
      using f unfolding endsOnSignal_def by blast
    then show ?thesis using Ret u n1(1) none
      by (intro exI [of _ "n2 @ n1"]) (auto simp: signalled_def run)
  qed (use u n1(1) none in \<open>auto simp: signalled_def run\<close>)
qed

lemma ends_andThen: "emits (\<lambda>e. \<not> isSelect e) m \<Longrightarrow> endsOnSignal k \<Longrightarrow> endsOnSignal (andThen m k)"
  unfolding andThen_def by (rule ends_bnd)

lemma ends_if [ends_intro]:
  "endsOnSignal m \<Longrightarrow> endsOnSignal k \<Longrightarrow> endsOnSignal (if b then m else k)"
  by simp

lemma emits_cmdState: "emits (\<lambda>e. \<not> isSelect e) (checkDcnodeCmdState E)"
  unfolding checkDcnodeCmdState_def osReadFile_def by (intro emits_intro; simp)

text \<open>The one place where a signal is seen.\<close>

lemma ends_select:
  assumes "endsOnSignal k"
  shows "endsOnSignal (bnd (ext (eSelect E) EvSelect)
    (\<lambda>tick. if tick then k else andThen (emit (EvRemoveFile daemonFilepath)) (exitWith 1)))"
  unfolding endsOnSignal_def
proof
  fix s :: st
  let ?u = "s\<lparr>trace := EvSelect True # trace s\<rparr>"
  let ?m = "bnd (ext (eSelect E) EvSelect)
    (\<lambda>tick. if tick then k else andThen (emit (EvRemoveFile daemonFilepath)) (exitWith 1))"
  obtain new where new: "trace (snd (k ?u)) = new @ trace ?u" "signalled (fst (k ?u)) new"
    using assms unfolding endsOnSignal_def by blast
  show "\<exists>new. trace (snd (?m s)) = new @ trace s \<and> signalled (fst (?m s)) new"
  proof (cases "eSelect E (trace s)")
    case True
    then have "?m s = k ?u" by (simp add: run)
    then show ?thesis using new
      by (intro exI [of _ "new @ [EvSelect True]"]) (auto simp: signalled_def)
  next
    case False
    then show ?thesis
      by (intro exI [of _ "[EvRemoveFile daemonFilepath, EvSelect False]"])
        (simp add: run andThen_def emit_def signalled_def)
  qed
qed

lemma ends_loop: "endsOnSignal (daemonLoop E fuel turns)"
proof (induction turns)
  case (Suc turns)
  have nap: "endsOnSignal (bnd (randIntn E 86400) (\<lambda>n. andThen (sleep n) (daemonLoop E fuel turns)))"
    by (intro ends_bnd ends_andThen Suc) (simp_all add: randIntn_def sleep_def emits_ext emits_emit)
  show ?case unfolding daemonLoop.simps
    by (intro ends_select ends_bnd emits_cmdState emits_upgrade ends_if Suc nap)
qed (simp add: ends_noFuel)

lemma ends_daemon: "endsOnSignal (daemonCommandDeal E fuel turns)"
proof -
  have quiet: "emits (\<lambda>e. \<not> isSelect e) (claimPid E)"
    unfolding claimPid_def writePid_def osReadFile_def osWriteFile_def findProcess_def
    by (intro emits_intro; simp)
  have c: "endsOnSignal (bnd (claimPid E) (\<lambda>mine. if mine then daemonLoop E fuel turns else ret ()))"
    by (intro ends_bnd quiet ends_if ends_loop ends_ret)
  have n: "endsOnSignal (andThen (osCreate E daemonFilepath)
      (bnd (claimPid E) (\<lambda>mine. if mine then daemonLoop E fuel turns else ret ())))"
    by (rule ends_andThen [OF _ c]) (simp add: osCreate_def emits_ext)
  show ?thesis unfolding daemonCommandDeal_def osStat_def
    by (rule ends_bnd) (auto intro: c n ends_ret emits_ext split: statReply.split)
qed

text \<open>C22: A signal ends the service: a run that sees one leaves the process with status 1,
  sees no other, and the removal of the pid file is the next and last thing it does.\<close>

theorem daemon_quits:
  assumes "EvSelect False \<in> set (newEvents (daemonCommandDeal E fuel turns) s)"
  shows "fst (daemonCommandDeal E fuel turns s) = Exit 1 \<and>
    (\<exists>rest. newEvents (daemonCommandDeal E fuel turns) s =
      EvRemoveFile daemonFilepath # EvSelect False # rest \<and> EvSelect False \<notin> set rest)"
proof -
  obtain new where "trace (snd (daemonCommandDeal E fuel turns s)) = new @ trace s"
      "signalled (fst (daemonCommandDeal E fuel turns s)) new"
    using ends_daemon unfolding endsOnSignal_def by blast
  then show ?thesis using assms by (simp add: newEvents_eq signalled_def)
qed

theorem daemon_quits_witness:
  "fst (daemonCommandDeal (upgradeEnv\<lparr>eSelect := \<lambda>_. False\<rparr>) 0 1 initSt) = Exit 1"
proof -
  let ?E = "upgradeEnv\<lparr>eSelect := \<lambda>_. False\<rparr>"
  have "EvSelect False \<in> set (newEvents (daemonCommandDeal ?E 0 1) initSt)"
    by (simp add: daemonCommandDeal_def claimPid_def writePid_def daemonFilepath_def runCmdStateFilepath_def
        upgradeEnv_def nullEnv_def runs newEvents_def initSt_def)
  from daemon_quits [OF this] show ?thesis by blast
qed

end
