(* ===== verification/Flags.thy ===== *)
theory Flags
  imports Sample
begin

text \<open>
  The flags of \<open>dc get\<close> (command/command.go, \<open>GetFileFromIpfsCommandDeal\<close>) as
  the standard library's \<open>flag\<close> package reads them: \<open>-name\<close>, \<open>-timeout\<close> and
  \<open>-secret\<close>, with one dash or two, the value behind an equals sign or in the next
  argument; and \<open>strconv.ParseInt\<close> with base 0, which the integer flag uses.
\<close>

section \<open>Integers with a base prefix\<close>

definition letterVal :: "char \<Rightarrow> nat option" where
  "letterVal c = (case digitVal c of
     Some d \<Rightarrow> Some d
   | None \<Rightarrow> if (97 :: nat) \<le> of_char (toLowerChar c) \<and> of_char (toLowerChar c) \<le> (122 :: nat)
       then Some (of_char (toLowerChar c) - 87) else None)"

definition basePrefix :: "string \<Rightarrow> nat \<times> string" where
  "basePrefix s =
     (if s = [] \<or> hd s \<noteq> CHR ''0'' then (10, s)
      else if length s \<ge> 3 \<and> toLowerChar (s ! 1) = CHR ''b'' then (2, drop 2 s)
      else if length s \<ge> 3 \<and> toLowerChar (s ! 1) = CHR ''o'' then (8, drop 2 s)
      else if length s \<ge> 3 \<and> toLowerChar (s ! 1) = CHR ''x'' then (16, drop 2 s)
      else (8, tl s))"

text \<open>The digit loop: underscores are skipped here and checked afterwards.\<close>

fun baseLoop :: "nat \<Rightarrow> nat \<Rightarrow> string \<Rightarrow> numErr + nat" where
  "baseLoop base n [] = Inr n"
| "baseLoop base n (c # cs) =
     (if c = CHR ''_'' then baseLoop base n cs
      else case letterVal c of
        None \<Rightarrow> Inl ErrSyntax
      | Some d \<Rightarrow>
          if d \<ge> base then Inl ErrSyntax
          else if n * base + d > 2 ^ 64 - 1 then Inl ErrRange
          else baseLoop base (n * base + d) cs)"

text \<open>\<open>underscoreLoop\<close>: the last thing seen is a digit or base prefix, an underscore,
  or neither.\<close>

datatype seen = SeenStart | SeenDigit | SeenUnderscore | SeenOther

fun underscoreLoop :: "bool \<Rightarrow> seen \<Rightarrow> string \<Rightarrow> bool" where
  "underscoreLoop hex i [] = (i \<noteq> SeenUnderscore)"
| "underscoreLoop hex i (c # cs) =
     (if digitVal c \<noteq> None \<or>
         hex \<and> (97 :: nat) \<le> of_char (toLowerChar c) \<and> of_char (toLowerChar c) \<le> (102 :: nat)
      then underscoreLoop hex SeenDigit cs
      else if c = CHR ''_''
      then (if i \<noteq> SeenDigit then False else underscoreLoop hex SeenUnderscore cs)
      else if i = SeenUnderscore then False
      else underscoreLoop hex SeenOther cs)"

definition underscoreOK :: "string \<Rightarrow> bool" where
  "underscoreOK s =
     (if length s \<ge> 2 \<and> hd s = CHR ''0'' \<and> toLowerChar (s ! 1) \<in> {CHR ''b'', CHR ''o'', CHR ''x''}
      then underscoreLoop (toLowerChar (s ! 1) = CHR ''x'') SeenDigit (drop 2 s)
      else underscoreLoop False SeenStart s)"

definition parseUint0 :: "string \<Rightarrow> numErr + nat" where
  "parseUint0 s =
     (if s = [] then Inl ErrSyntax
      else case basePrefix s of (base, body) \<Rightarrow> (case baseLoop base 0 body of
          Inl e \<Rightarrow> Inl e
        | Inr n \<Rightarrow> if CHR ''_'' \<in> set body \<and> \<not> underscoreOK s then Inl ErrSyntax else Inr n))"

definition parseInt0 :: "string \<Rightarrow> numErr + int" where
  "parseInt0 s =
     (if s = [] then Inl ErrSyntax
      else
        let neg = (hd s = CHR ''-'');
            body = (if hd s = CHR ''-'' \<or> hd s = CHR ''+'' then tl s else s)
        in case parseUint0 body of
             Inl e \<Rightarrow> Inl e
           | Inr un \<Rightarrow>
               if \<not> neg \<and> int un \<ge> 2 ^ 63 then Inl ErrRange
               else if neg \<and> int un > 2 ^ 63 then Inl ErrRange
               else Inr (if neg then - int un else int un))"

section \<open>The flag set\<close>

record getFlags =
  flagName :: string
  flagTimeout :: int
  flagSecret :: string

datatype flagErr = FlagHelp | FlagBad

definition setFlag :: "string \<Rightarrow> string \<Rightarrow> getFlags \<Rightarrow> getFlags option" where
  "setFlag name value fs =
     (if name = ''name'' then Some (fs\<lparr>flagName := value\<rparr>)
      else if name = ''secret'' then Some (fs\<lparr>flagSecret := value\<rparr>)
      else case parseInt0 value of Inl _ \<Rightarrow> None | Inr n \<Rightarrow> Some (fs\<lparr>flagTimeout := n\<rparr>))"

text \<open>\<open>parseOne\<close> in a loop: the first argument that is no flag, and a bare \<open>--\<close>,
  end the flags; the rest is ignored by the command.\<close>

definition flagBody :: "string \<Rightarrow> string option" where
  "flagBody s =
     (if length s < 2 \<or> hd s \<noteq> CHR ''-'' then None
      else if s ! 1 = CHR ''-'' then (if length s = 2 then None else Some (drop 2 s))
      else Some (drop 1 s))"

fun parseFlags :: "getFlags \<Rightarrow> string list \<Rightarrow> flagErr + getFlags" where
  "parseFlags fs [] = Inr fs"
| "parseFlags fs (s # args) = (case flagBody s of
     None \<Rightarrow> Inr fs
   | Some body \<Rightarrow>
       if body = [] \<or> hd body = CHR ''-'' \<or> hd body = CHR ''='' then Inl FlagBad
       else
         let name = takeWhile (\<lambda>c. c \<noteq> CHR ''='') body
         in if name \<notin> {''name'', ''timeout'', ''secret''}
            then Inl (if name = ''help'' \<or> name = ''h'' then FlagHelp else FlagBad)
            else if CHR ''='' \<in> set body
            then (case setFlag name (drop (Suc (length name)) body) fs of
                None \<Rightarrow> Inl FlagBad
              | Some fs' \<Rightarrow> parseFlags fs' args)
            else (case args of
                [] \<Rightarrow> Inl FlagBad
              | value # rest \<Rightarrow> (case setFlag name value fs of
                    None \<Rightarrow> Inl FlagBad
                  | Some fs' \<Rightarrow> parseFlags fs' rest)))"

section \<open>Reading back\<close>

lemma digitChar_lower: "d < 10 \<Longrightarrow> letterVal (digitChar d) = Some d"
  by (simp add: letterVal_def)

lemma digitChar_plain:
  assumes "d < 10" shows "digitChar d \<noteq> CHR ''_''"
proof -
  from assms have "(of_char (digitChar d) :: nat) = 48 + d" by (simp add: digitChar_def)
  then show ?thesis using assms by auto
qed

lemma baseLoop_append:
  "baseLoop b n (xs @ ys) = (case baseLoop b n xs of Inl e \<Rightarrow> Inl e | Inr k \<Rightarrow> baseLoop b k ys)"
  by (induction xs arbitrary: n) (auto split: option.split)

lemma baseLoop_natDigits: "n \<le> 2 ^ 64 - 1 \<Longrightarrow> baseLoop 10 0 (natDigits n) = Inr n"
proof (induction n rule: natDigits.induct)
  case (1 n)
  show ?case
  proof (cases "n < 10")
    case True
    then show ?thesis
      by (subst natDigits.simps) (simp add: digitChar_lower digitChar_plain)
  next
    case False
    then show ?thesis using 1
      by (subst natDigits.simps) (simp add: baseLoop_append digitChar_lower digitChar_plain)
  qed
qed

lemma natDigits_hd0: "n > 0 \<Longrightarrow> hd (natDigits n) \<noteq> CHR ''0''"
proof (induction n rule: natDigits.induct)
  case (1 n)
  show ?case
  proof (cases "n < 10")
    case True
    then have "(of_char (digitChar n) :: nat) = 48 + n" "(of_char (CHR ''0'') :: nat) = 48"
      by (simp_all add: digitChar_def)
    then have "digitChar n \<noteq> CHR ''0''" using "1.prems" by auto
    then show ?thesis using True by (subst natDigits.simps) simp
  next
    case False
    then show ?thesis using 1 by (subst natDigits.simps) simp
  qed
qed

lemma natDigits_no_underscore: "CHR ''_'' \<notin> set (natDigits n)"
  using natDigits_digits digitChar_plain by metis

lemma parseUint0_natDigits: "n \<le> 2 ^ 64 - 1 \<Longrightarrow> parseUint0 (natDigits n) = Inr n"
proof (cases "n = 0")
  case True
  have "natDigits 0 = ''0''" and "parseUint0 ''0'' = Inr 0" by code_simp+
  then show ?thesis using True by simp
next
  case False
  assume n: "n \<le> 2 ^ 64 - 1"
  have "basePrefix (natDigits n) = (10, natDigits n)"
    using False natDigits_hd0 [of n] by (simp add: basePrefix_def)
  then show ?thesis using baseLoop_natDigits [OF n] by (simp add: parseUint0_def natDigits_no_underscore)
qed

lemma parseInt0_itoa:
  assumes "- (2 ^ 63) \<le> n" and "n < 2 ^ 63"
  shows "parseInt0 (itoa n) = Inr n"
proof (cases "n < 0")
  case True
  have "parseUint0 (natDigits (nat (- n))) = Inr (nat (- n))"
    using assms by (intro parseUint0_natDigits) simp
  then show ?thesis using True assms by (simp add: parseInt0_def itoa_def)
next
  case False
  have "parseUint0 (natDigits (nat n)) = Inr (nat n)"
    using assms by (intro parseUint0_natDigits) simp
  then show ?thesis using False assms by (simp add: parseInt0_def itoa_def natDigits_hd)
qed

section \<open>Settings on the command line\<close>

datatype getOpt = OptName string | OptTimeout int | OptSecret string

fun optName :: "getOpt \<Rightarrow> string" where
  "optName (OptName x) = ''name''"
| "optName (OptTimeout n) = ''timeout''"
| "optName (OptSecret x) = ''secret''"

fun optValue :: "getOpt \<Rightarrow> string" where
  "optValue (OptName x) = x"
| "optValue (OptTimeout n) = itoa n"
| "optValue (OptSecret x) = x"

fun applyOpt :: "getOpt \<Rightarrow> getFlags \<Rightarrow> getFlags" where
  "applyOpt (OptName x) fs = fs\<lparr>flagName := x\<rparr>"
| "applyOpt (OptTimeout n) fs = fs\<lparr>flagTimeout := n\<rparr>"
| "applyOpt (OptSecret x) fs = fs\<lparr>flagSecret := x\<rparr>"

fun inRange :: "getOpt \<Rightarrow> bool" where
  "inRange (OptTimeout n) = (- (2 ^ 63) \<le> n \<and> n < 2 ^ 63)"
| "inRange _ = True"

text \<open>A setting as it is typed: with one dash or two, the value in the same argument or in
  the next.\<close>

datatype form = Form bool bool

fun render :: "form \<times> getOpt \<Rightarrow> string list" where
  "render (Form two eq, opt) =
     (let flag = (if two then ''--'' else ''-'') @ optName opt
      in if eq then [flag @ ''='' @ optValue opt] else [flag, optValue opt])"

lemma setFlag_opt: "inRange opt \<Longrightarrow> setFlag (optName opt) (optValue opt) fs = Some (applyOpt opt fs)"
  by (cases opt) (simp_all add: setFlag_def parseInt0_itoa)

lemma parseFlags_one:
  assumes "inRange opt"
  shows "parseFlags fs (render (Form two eq, opt) @ rest) = parseFlags (applyOpt opt fs) rest"
  using setFlag_opt [OF assms, of fs] by (cases opt; cases two; cases eq) (simp_all add: flagBody_def)

lemma parseFlags_render:
  "\<forall>x \<in> set opts. inRange (snd x) \<Longrightarrow>
   parseFlags fs (concat (map render opts) @ rest) = parseFlags (fold (\<lambda>x. applyOpt (snd x)) opts fs) rest"
proof (induction opts arbitrary: fs)
  case (Cons x opts)
  obtain two eq opt where x: "x = (Form two eq, opt)" by (cases x; cases "fst x") auto
  then show ?case using Cons parseFlags_one [of opt fs two eq] by simp
qed simp

text \<open>The setting that counts is the last of its kind.\<close>

definition lastOr :: "'a \<Rightarrow> 'a list \<Rightarrow> 'a" where
  "lastOr x ys = (if ys = [] then x else last ys)"

fun names :: "(form \<times> getOpt) list \<Rightarrow> string list" where
  "names [] = []"
| "names ((f, OptName x) # opts) = x # names opts"
| "names (_ # opts) = names opts"

fun timeouts :: "(form \<times> getOpt) list \<Rightarrow> int list" where
  "timeouts [] = []"
| "timeouts ((f, OptTimeout n) # opts) = n # timeouts opts"
| "timeouts (_ # opts) = timeouts opts"

fun secrets :: "(form \<times> getOpt) list \<Rightarrow> string list" where
  "secrets [] = []"
| "secrets ((f, OptSecret x) # opts) = x # secrets opts"
| "secrets (_ # opts) = secrets opts"

lemma fold_settings:
  "fold (\<lambda>x. applyOpt (snd x)) opts fs = fs\<lparr>flagName := lastOr (flagName fs) (names opts),
     flagTimeout := lastOr (flagTimeout fs) (timeouts opts),
     flagSecret := lastOr (flagSecret fs) (secrets opts)\<rparr>"
proof (induction opts arbitrary: fs)
  case (Cons x opts)
  obtain f opt where "x = (f, opt)" by fastforce
  then show ?case using Cons by (cases opt) (auto simp: lastOr_def)
qed (simp add: lastOr_def)

end
