(* ===== verification/Sha256.thy ===== *)
theory Sha256
  imports "HOL-Library.Word"
begin

unbundle bit_operations_syntax

text \<open>
  The standard library's \<open>crypto/sha256\<close> (FIPS 180-4) on byte strings, and the
  lower-case hexadecimal text that the verb \<open>%x\<close> prints for the digest.
\<close>

section \<open>Words and bytes\<close>

definition bytes :: "string \<Rightarrow> 8 word list" where
  "bytes s = map (\<lambda>c. word_of_nat (of_char c)) s"

definition wordBytes :: "32 word \<Rightarrow> 8 word list" where
  "wordBytes w = [ucast (drop_bit 24 w), ucast (drop_bit 16 w), ucast (drop_bit 8 w), ucast w]"

fun bytesWord :: "8 word list \<Rightarrow> 32 word" where
  "bytesWord [a, b, c, d] =
     push_bit 24 (ucast a) OR push_bit 16 (ucast b) OR push_bit 8 (ucast c) OR ucast d"
| "bytesWord _ = 0"

fun chunks :: "nat \<Rightarrow> 'a list \<Rightarrow> 'a list list" where
  "chunks n xs = (if n = 0 \<or> xs = [] then [] else take n xs # chunks n (drop n xs))"

declare chunks.simps [simp del]

section \<open>Padding\<close>

definition pad :: "8 word list \<Rightarrow> 8 word list" where
  "pad m = m @ [0x80] @ replicate (nat ((55 - int (length m)) mod 64)) 0 @
     (let bits = (of_nat (8 * length m) :: 64 word)
      in wordBytes (ucast (drop_bit 32 bits)) @ wordBytes (ucast bits))"

section \<open>The compression\<close>

text \<open>The constants are the first 32 bits of the fractional parts of roots of the first
  primes: \<open>kroot k n b r\<close> adds the \<open>b\<close> low bits of the \<open>k\<close>-th root of
  \<open>n\<close> to its high part \<open>r\<close>.\<close>

fun kroot :: "nat \<Rightarrow> nat \<Rightarrow> nat \<Rightarrow> nat \<Rightarrow> nat" where
  "kroot k n 0 r = r"
| "kroot k n (Suc b) r = kroot k n b (if (r + 2 ^ b) ^ k \<le> n then r + 2 ^ b else r)"

definition rootBits :: "nat \<Rightarrow> nat \<Rightarrow> 32 word" where
  "rootBits k p = word_of_nat (kroot k (p * 2 ^ (32 * k)) 36 0)"

definition primesBelow :: "nat \<Rightarrow> nat list" where
  "primesBelow m = filter (\<lambda>n. list_all (\<lambda>d. n mod d \<noteq> 0) [2..<n]) [2..<m]"

definition roundKeys :: "32 word list" where
  "roundKeys = map (rootBits 3) (primesBelow 312)"

definition initialHash :: "32 word list" where
  "initialHash = map (rootBits 2) (primesBelow 20)"

text \<open>The message schedule, newest word first.\<close>

fun extend :: "nat \<Rightarrow> 32 word list \<Rightarrow> 32 word list" where
  "extend 0 ws = ws"
| "extend (Suc n) ws =
     (let w15 = ws ! 14; w2 = ws ! 1;
          s0 = word_rotr 7 w15 XOR word_rotr 18 w15 XOR drop_bit 3 w15;
          s1 = word_rotr 17 w2 XOR word_rotr 19 w2 XOR drop_bit 10 w2
      in extend n ((ws ! 15 + s0 + ws ! 6 + s1) # ws))"

definition schedule :: "8 word list \<Rightarrow> 32 word list" where
  "schedule block = rev (extend 48 (rev (map bytesWord (chunks 4 block))))"

fun rounds :: "(32 word \<times> 32 word) list \<Rightarrow> 32 word list \<Rightarrow> 32 word list" where
  "rounds ((k, w) # kws) [a, b, c, d, e, f, g, h] =
     (let s1 = word_rotr 6 e XOR word_rotr 11 e XOR word_rotr 25 e;
          ch = (e AND f) XOR (NOT e AND g);
          t1 = h + s1 + ch + k + w;
          s0 = word_rotr 2 a XOR word_rotr 13 a XOR word_rotr 22 a;
          maj = (a AND b) XOR (a AND c) XOR (b AND c)
      in rounds kws [t1 + s0 + maj, a, b, c, d + t1, e, f, g])"
| "rounds _ hs = hs"

definition compress :: "32 word list \<Rightarrow> 8 word list \<Rightarrow> 32 word list" where
  "compress hs block = map2 (+) hs (rounds (zip roundKeys (schedule block)) hs)"

definition sha256 :: "string \<Rightarrow> 8 word list" where
  "sha256 s = concat (map wordBytes (foldl compress initialHash (chunks 64 (pad (bytes s)))))"

section \<open>Hexadecimal text\<close>

definition hexDigits :: string where
  "hexDigits = ''0123456789abcdef''"

definition hexDigit :: "nat \<Rightarrow> char" where
  "hexDigit d = hexDigits ! d"

definition hexByte :: "8 word \<Rightarrow> string" where
  "hexByte b = [hexDigit (unat (drop_bit 4 b)), hexDigit (unat (b AND 15))]"

definition hexText :: "8 word list \<Rightarrow> string" where
  "hexText bs = concat (map hexByte bs)"

section \<open>Sizes\<close>

text \<open>Every message is padded to whole blocks, and every digest has 32 bytes and 64
  hexadecimal digits.\<close>

lemma length_pad: "64 dvd length (pad m)"
proof -
  have "int (length (pad m)) = int (length m) + 9 + (55 - int (length m)) mod 64"
    by (simp add: pad_def wordBytes_def Let_def)
  moreover have "(int (length m) + 9 + (55 - int (length m)) mod 64) mod 64 = 0"
    by (simp add: mod_add_right_eq)
  ultimately have "int (length (pad m)) mod 64 = 0" by simp
  then show ?thesis by presburger
qed

lemma length_rounds: "length hs = 8 \<Longrightarrow> length (rounds kws hs) = 8"
  by (induction kws hs rule: rounds.induct) (auto simp: Let_def)

lemma length_compress: "length hs = 8 \<Longrightarrow> length (compress hs b) = 8"
  by (simp add: compress_def length_rounds)

lemma length_foldl_compress: "length hs = 8 \<Longrightarrow> length (foldl compress hs bs) = 8"
  by (induction bs arbitrary: hs) (auto simp: length_compress)

lemma length_sha256: "length (sha256 s) = 32"
proof -
  have "length (concat (map wordBytes ws)) = 4 * length ws" for ws
    by (induction ws) (auto simp: wordBytes_def)
  moreover have "length initialHash = 8"
    unfolding initialHash_def length_map by code_simp
  ultimately show ?thesis by (simp add: sha256_def length_foldl_compress)
qed

lemma hexText_length: "length (hexText bs) = 2 * length bs"
  by (induction bs) (auto simp: hexText_def hexByte_def)

lemma hexDigit_mem: "d < 16 \<Longrightarrow> hexDigit d \<in> set hexDigits"
  unfolding hexDigit_def by (rule nth_mem) (simp add: hexDigits_def)

lemma hexText_digits: "c \<in> set (hexText bs) \<Longrightarrow> c \<in> set hexDigits"
proof (induction bs)
  case Nil
  then show ?case by (simp add: hexText_def)
next
  case (Cons b bs)
  have "unat (drop_bit 4 b) < 16"
  proof -
    have "unat b < 256" using unsigned_less [of b] by simp
    then show ?thesis by (simp add: drop_bit_eq_div unat_div)
  qed
  moreover have "unat (b AND 15) < 16"
    using word_and_le1 [of b 15] by (simp add: word_le_nat_alt)
  ultimately have "set (hexByte b) \<subseteq> set hexDigits"
    by (simp add: hexByte_def hexDigit_mem)
  moreover have "hexText (b # bs) = hexByte b @ hexText bs" by (simp add: hexText_def)
  ultimately show ?case using Cons by auto
qed

end
