(* ===== verification/Json.thy ===== *)
theory Json
  imports GoStd
begin

text \<open>
  \<open>json.Unmarshal\<close> of the standard library, for the reply of the chain node
  (command/command.go, \<open>SessionKeyRes\<close>) and the version of the manager
  (config/config.go, \<open>GetVersion\<close>). The scanner is a machine that takes one byte at
  a time and keeps a stack of open arrays and objects, as the library's is; here it also
  builds the value. Decoding then walks the value: fields are matched regardless of case, a
  value of the wrong type is an error reported at the end, unknown fields are skipped.
  Strings are byte strings in UTF-8.
\<close>

section \<open>Values and the scanner\<close>

text \<open>Numbers and strings keep their text; \<open>JStr\<close> holds what is between the quotes.\<close>

datatype json = JNull | JBool bool | JNum string | JStr string | JArr "json list"
  | JObj "(string \<times> json) list"

datatype frame = ArrF "json list" | KeyF "(string \<times> json) list" | ValF "(string \<times> json) list" string

datatype numState = NNeg | N0 | N1 | NDot | NDot0 | NE | NESign | NE0

datatype mode = BeginValue | ValueOrEnd | KeyOrEnd | BeginKey | InStr string | InEsc string
  | InEscU nat string | Num numState string | Lit string json | Done json

type_synonym scanner = "mode \<times> frame list"

definition backslash :: char where
  "backslash = char_of (92 :: nat)"

definition quote :: char where
  "quote = char_of (34 :: nat)"

abbreviation code :: "char \<Rightarrow> nat" where
  "code c \<equiv> of_char c"

definition isSpace :: "char \<Rightarrow> bool" where
  "isSpace c \<longleftrightarrow> code c \<in> {32, 9, 13, 10}"

definition isDigit :: "char \<Rightarrow> bool" where
  "isDigit c \<longleftrightarrow> 48 \<le> code c \<and> code c \<le> 57"

definition hexVal :: "char \<Rightarrow> nat option" where
  "hexVal c = (if isDigit c then Some (code c - 48)
     else if 97 \<le> code c \<and> code c \<le> 102 then Some (code c - 87)
     else if 65 \<le> code c \<and> code c \<le> 70 then Some (code c - 55) else None)"

definition maxNestingDepth :: nat where
  "maxNestingDepth = 10000"

definition push :: "mode \<Rightarrow> frame \<Rightarrow> frame list \<Rightarrow> scanner option" where
  "push m f fs = (if length (f # fs) \<le> maxNestingDepth then Some (m, f # fs) else None)"

text \<open>The byte after a value (\<open>stateEndValue\<close>, \<open>stateEndTop\<close>).\<close>

fun endValue :: "json \<Rightarrow> frame list \<Rightarrow> char \<Rightarrow> scanner option" where
  "endValue v [] c = (if isSpace c then Some (Done v, []) else None)"
| "endValue v (KeyF kvs # fs) c = (if isSpace c then Some (Done v, KeyF kvs # fs)
     else if c = CHR '':'' then (case v of JStr k \<Rightarrow> Some (BeginValue, ValF kvs k # fs) | _ \<Rightarrow> None)
     else None)"
| "endValue v (ValF kvs k # fs) c = (if isSpace c then Some (Done v, ValF kvs k # fs)
     else if c = CHR '','' then Some (BeginKey, KeyF (kvs @ [(k, v)]) # fs)
     else if c = CHR ''}'' then Some (Done (JObj (kvs @ [(k, v)])), fs)
     else None)"
| "endValue v (ArrF vs # fs) c = (if isSpace c then Some (Done v, ArrF vs # fs)
     else if c = CHR '','' then Some (BeginValue, ArrF (vs @ [v]) # fs)
     else if c = CHR '']'' then Some (Done (JArr (vs @ [v])), fs)
     else None)"

fun beginValue :: "frame list \<Rightarrow> char \<Rightarrow> scanner option" where
  "beginValue fs c =
     (if isSpace c then Some (BeginValue, fs)
      else if c = CHR ''{'' then push KeyOrEnd (KeyF []) fs
      else if c = CHR ''['' then push ValueOrEnd (ArrF []) fs
      else if c = quote then Some (InStr [], fs)
      else if c = CHR ''-'' then Some (Num NNeg [c], fs)
      else if c = CHR ''0'' then Some (Num N0 [c], fs)
      else if c = CHR ''t'' then Some (Lit ''rue'' (JBool True), fs)
      else if c = CHR ''f'' then Some (Lit ''alse'' (JBool False), fs)
      else if c = CHR ''n'' then Some (Lit ''ull'' JNull, fs)
      else if isDigit c then Some (Num N1 [c], fs)
      else None)"

fun beginKey :: "frame list \<Rightarrow> char \<Rightarrow> scanner option" where
  "beginKey fs c = (if isSpace c then Some (BeginKey, fs)
     else if c = quote then Some (InStr [], fs) else None)"

text \<open>The next state in a number, \<open>None\<close> when the byte does not continue it.\<close>

fun numStep :: "numState \<Rightarrow> char \<Rightarrow> numState option" where
  "numStep NNeg c = (if c = CHR ''0'' then Some N0 else if isDigit c then Some N1 else None)"
| "numStep N0 c = (if c = CHR ''.'' then Some NDot
     else if c = CHR ''e'' \<or> c = CHR ''E'' then Some NE else None)"
| "numStep N1 c = (if isDigit c then Some N1 else if c = CHR ''.'' then Some NDot
     else if c = CHR ''e'' \<or> c = CHR ''E'' then Some NE else None)"
| "numStep NDot c = (if isDigit c then Some NDot0 else None)"
| "numStep NDot0 c = (if isDigit c then Some NDot0
     else if c = CHR ''e'' \<or> c = CHR ''E'' then Some NE else None)"
| "numStep NE c = (if c = CHR ''+'' \<or> c = CHR ''-'' then Some NESign
     else if isDigit c then Some NE0 else None)"
| "numStep NESign c = (if isDigit c then Some NE0 else None)"
| "numStep NE0 c = (if isDigit c then Some NE0 else None)"

definition numEnds :: "numState \<Rightarrow> bool" where
  "numEnds n \<longleftrightarrow> n \<in> {N0, N1, NDot0, NE0}"

fun scanStep :: "scanner \<Rightarrow> char \<Rightarrow> scanner option" where
  "scanStep (BeginValue, fs) c = beginValue fs c"
| "scanStep (ValueOrEnd, fs) c = (if isSpace c then Some (ValueOrEnd, fs)
     else if c = CHR '']'' then (case fs of f # gs \<Rightarrow> Some (Done (JArr []), gs) | [] \<Rightarrow> None)
     else beginValue fs c)"
| "scanStep (KeyOrEnd, fs) c = (if isSpace c then Some (KeyOrEnd, fs)
     else if c = CHR ''}'' then (case fs of f # gs \<Rightarrow> Some (Done (JObj []), gs) | [] \<Rightarrow> None)
     else beginKey fs c)"
| "scanStep (BeginKey, fs) c = beginKey fs c"
| "scanStep (InStr x, fs) c = (if c = quote then Some (Done (JStr x), fs)
     else if c = backslash then Some (InEsc (x @ [c]), fs)
     else if code c < 32 then None
     else Some (InStr (x @ [c]), fs))"
| "scanStep (InEsc x, fs) c = (if c = CHR ''u'' then Some (InEscU 4 (x @ [c]), fs)
     else if c \<in> {CHR ''b'', CHR ''f'', CHR ''n'', CHR ''r'', CHR ''t'', CHR ''/'', backslash, quote}
     then Some (InStr (x @ [c]), fs) else None)"
| "scanStep (InEscU n x, fs) c = (if hexVal c = None then None
     else if n > 1 then Some (InEscU (n - 1) (x @ [c]), fs) else Some (InStr (x @ [c]), fs))"
| "scanStep (Num n x, fs) c = (case numStep n c of
       Some n' \<Rightarrow> Some (Num n' (x @ [c]), fs)
     | None \<Rightarrow> if numEnds n then endValue (JNum x) fs c else None)"
| "scanStep (Lit x v, fs) c = (case x of
       [] \<Rightarrow> None
     | d # ds \<Rightarrow> if c \<noteq> d then None else if ds = [] then Some (Done v, fs) else Some (Lit ds v, fs))"
| "scanStep (Done v, fs) c = endValue v fs c"

fun scan :: "scanner \<Rightarrow> string \<Rightarrow> scanner option" where
  "scan st [] = Some st"
| "scan st (c # cs) = (case scanStep st c of None \<Rightarrow> None | Some st' \<Rightarrow> scan st' cs)"

text \<open>At the end of the input the library feeds one space.\<close>

definition parseJson :: "string \<Rightarrow> json option" where
  "parseJson s = (case scan (BeginValue, []) (s @ '' '') of
     Some (Done v, []) \<Rightarrow> Some v | _ \<Rightarrow> None)"

section \<open>The text of a string\<close>

text \<open>\<open>utf8Len s\<close>: the length of the character \<open>s\<close> starts with, 0 when it is not
  valid UTF-8 (\<open>utf8.DecodeRune\<close>).\<close>

definition cont :: "nat \<Rightarrow> nat \<Rightarrow> string \<Rightarrow> nat \<Rightarrow> bool" where
  "cont lo hi s i \<longleftrightarrow> i < length s \<and> lo \<le> code (s ! i) \<and> code (s ! i) \<le> hi"

definition utf8Len :: "string \<Rightarrow> nat" where
  "utf8Len s = (if s = [] then 0 else
     let b = code (hd s) in
     if b < 128 then 1
     else if 194 \<le> b \<and> b \<le> 223 then (if cont 128 191 s 1 then 2 else 0)
     else if 224 \<le> b \<and> b \<le> 239
       then (if cont (if b = 224 then 160 else 128) (if b = 237 then 159 else 191) s 1 \<and>
                cont 128 191 s 2 then 3 else 0)
     else if 240 \<le> b \<and> b \<le> 244
       then (if cont (if b = 240 then 144 else 128) (if b = 244 then 143 else 191) s 1 \<and>
                cont 128 191 s 2 \<and> cont 128 191 s 3 then 4 else 0)
     else 0)"

definition byte :: "nat \<Rightarrow> char" where
  "byte n = char_of n"

definition replacementChar :: string where
  "replacementChar = [byte 239, byte 191, byte 189]"

definition isSurrogate :: "nat \<Rightarrow> bool" where
  "isSurrogate r \<longleftrightarrow> 55296 \<le> r \<and> r < 57344"

definition encodeRune :: "nat \<Rightarrow> string" where
  "encodeRune r = (if r < 128 then [byte r]
     else if r < 2048 then [byte (192 + r div 64), byte (128 + r mod 64)]
     else if isSurrogate r \<or> r > 1114111 then replacementChar
     else if r < 65536
       then [byte (224 + r div 4096), byte (128 + r div 64 mod 64), byte (128 + r mod 64)]
     else [byte (240 + r div 262144), byte (128 + r div 4096 mod 64), byte (128 + r div 64 mod 64),
           byte (128 + r mod 64)])"

text \<open>The four digits of an escape \<open>\u\<close> (\<open>getu4\<close>, after the two bytes).\<close>

fun hex4 :: "string \<Rightarrow> nat option" where
  "hex4 (a # b # c # d # _) = (case (hexVal a, hexVal b, hexVal c, hexVal d) of
     (Some x, Some y, Some z, Some w) \<Rightarrow> Some (((x * 16 + y) * 16 + z) * 16 + w)
   | _ \<Rightarrow> None)"
| "hex4 _ = None"

definition getu4 :: "string \<Rightarrow> nat option" where
  "getu4 s = (if take 2 s = [backslash, CHR ''u''] then hex4 (drop 2 s) else None)"

text \<open>\<open>utf16.DecodeRune\<close> on a surrogate and what follows it.\<close>

definition pairRune :: "nat \<Rightarrow> nat option \<Rightarrow> nat option" where
  "pairRune r1 r2 = (case r2 of
     Some r \<Rightarrow> if 55296 \<le> r1 \<and> r1 < 56320 \<and> 56320 \<le> r \<and> r < 57344
        then Some ((r1 - 55296) * 1024 + (r - 56320) + 65536) else None
   | None \<Rightarrow> None)"

definition unescape :: "char \<Rightarrow> char" where
  "unescape c = (if c = CHR ''b'' then byte 8 else if c = CHR ''f'' then byte 12
     else if c = CHR ''n'' then byte 10 else if c = CHR ''r'' then byte 13
     else if c = CHR ''t'' then byte 9 else c)"

function unquote :: "string \<Rightarrow> string" where
  "unquote [] = []"
| "unquote (c # cs) =
     (if c = backslash then (case cs of
          [] \<Rightarrow> []
        | e # rest \<Rightarrow>
            if e \<noteq> CHR ''u'' then unescape e # unquote rest
            else (case hex4 rest of
                None \<Rightarrow> []
              | Some r \<Rightarrow>
                  if isSurrogate r
                  then (case pairRune r (getu4 (drop 4 rest)) of
                      Some p \<Rightarrow> encodeRune p @ unquote (drop 10 rest)
                    | None \<Rightarrow> replacementChar @ unquote (drop 4 rest))
                  else encodeRune r @ unquote (drop 4 rest)))
      else if code c < 128 then c # unquote cs
      else if utf8Len (c # cs) = 0 then replacementChar @ unquote cs
      else c # take (utf8Len (c # cs) - 1) cs @ unquote (drop (utf8Len (c # cs) - 1) cs))"
  by pat_completeness auto
termination
  by (relation "measure length") auto

declare unquote.simps(2) [simp del]

section \<open>Decoding the reply\<close>

record SessionKeyRes =
  Jsonrpc :: string
  ID :: int
  Result :: string

text \<open>A name matches a field under Unicode's simple case folding; besides the ASCII letters
  the long s (U+017F) folds to s and the Kelvin sign (U+212A) to k.\<close>

fun foldName :: "string \<Rightarrow> string" where
  "foldName [] = []"
| "foldName (c # cs) =
     (if take 2 (c # cs) = [byte 197, byte 191] then CHR ''s'' # foldName (drop 1 cs)
      else if take 3 (c # cs) = [byte 226, byte 132, byte 170] then CHR ''k'' # foldName (drop 2 cs)
      else toLowerChar c # foldName cs)"

datatype field = FJsonrpc | FID | FResult

definition fieldOf :: "string \<Rightarrow> field option" where
  "fieldOf name = (let n = foldName name in
     if n = ''jsonrpc'' then Some FJsonrpc else if n = ''id'' then Some FID
     else if n = ''result'' then Some FResult else None)"

text \<open>One member of the object; \<open>None\<close> when its value does not fit the field. A null
  leaves the field as it is.\<close>

definition storeMember :: "string \<Rightarrow> json \<Rightarrow> SessionKeyRes \<Rightarrow> SessionKeyRes option" where
  "storeMember k v r = (case fieldOf (unquote k) of
     None \<Rightarrow> Some r
   | Some f \<Rightarrow> if v = JNull then Some r else (case f of
         FJsonrpc \<Rightarrow> (case v of JStr x \<Rightarrow> Some (r\<lparr>Jsonrpc := unquote x\<rparr>) | _ \<Rightarrow> None)
       | FResult \<Rightarrow> (case v of JStr x \<Rightarrow> Some (r\<lparr>Result := unquote x\<rparr>) | _ \<Rightarrow> None)
       | FID \<Rightarrow> (case v of
             JNum x \<Rightarrow> (case parseInt 64 x of (n, None) \<Rightarrow> Some (r\<lparr>ID := n\<rparr>) | _ \<Rightarrow> None)
           | _ \<Rightarrow> None)))"

text \<open>The error of a member does not stop the decoding, but is returned at its end: the
  decoding succeeds when every member fits.\<close>

fun storeMembers :: "(string \<times> json) list \<Rightarrow> SessionKeyRes \<Rightarrow> SessionKeyRes option" where
  "storeMembers [] r = Some r"
| "storeMembers ((k, v) # kvs) r = (case storeMember k v r of
     None \<Rightarrow> None | Some r' \<Rightarrow> storeMembers kvs r')"

definition noSessionKey :: SessionKeyRes where
  "noSessionKey = \<lparr>Jsonrpc = [], ID = 0, Result = []\<rparr>"

definition unmarshalSessionKey :: "string \<Rightarrow> SessionKeyRes option" where
  "unmarshalSessionKey res = (case parseJson res of
     Some (JObj kvs) \<Rightarrow> storeMembers kvs noSessionKey
   | Some JNull \<Rightarrow> Some noSessionKey
   | _ \<Rightarrow> None)"

section \<open>The embedded version\<close>

text \<open>The bytes of config/version.json.\<close>

definition configVersion :: string where
  "configVersion = ''{'' @ [char_of (10 :: nat)] @ ''     '' @ [quote] @ ''version'' @ [quote] @ '': '' @
     [quote] @ ''v0.0.55'' @ [quote] @ [char_of (10 :: nat)] @ ''}'' @ [char_of (10 :: nat)]"

text \<open>The version is read even when the decoding reports an error: a member that does not
  fit leaves it as it is.\<close>

definition storeVersion :: "string \<times> json \<Rightarrow> string \<Rightarrow> string" where
  "storeVersion kv version = (case kv of (k, v) \<Rightarrow>
     if foldName (unquote k) = ''version'' then (case v of JStr x \<Rightarrow> unquote x | _ \<Rightarrow> version)
     else version)"

definition GetVersion :: string where
  "GetVersion = (case parseJson configVersion of
     Some (JObj kvs) \<Rightarrow> fold storeVersion kvs [] | _ \<Rightarrow> [])"

text \<open>The file is decoded without an error, so the initialiser prints nothing.\<close>

lemma configVersion_parsed: "parseJson configVersion = Some (JObj [(''version'', JStr ''v0.0.55'')])"
  by code_simp

lemma GetVersion_eq: "GetVersion = ''v0.0.55''"
  by code_simp

end
