(* ===== verification/Cli.thy ===== *)
theory Cli
  imports Daemon Flags Sha256 Json
begin

text \<open>
  The commands of \<open>dc\<close> (command/command.go, one handler per command) and the showing
  of container logs. Text for standard output is an event, a line without its newline; text
  for standard error and the log is not. The prompts of \<open>dc config\<close> repeat until the
  answer is acceptable and are given fuel (\<open>turns\<close>), as is the background service.
\<close>

section \<open>Help\<close>

definition helpLines :: "string list" where
  "helpLines = [
     ''usage:  dc command [options]'',
     ''commands:'',
     '' config                                  start config chainmode'',
     '' start {storage|chain|pccs|all}          start service with service_name'',
     ''                                         \"storage\": start dcstorage service'',
     ''                                         \"chain\": start dcchain service'',
     ''                                         \"pccs\": start local pccs service'',
     ''                                         \"all\": start dcstorage and dcchain service'',
     '' stop {storage|chain|pccs|all}           stop service  with service_name'',
     ''                                         \"storage\": stop dcstorage service'',
     ''                                         \"chain\": stop dcchain service'',
     ''                                         \"pccs\": stop local pccs service'',
     ''                                         \"all\": stop dcstorage and dcchain service'',
     '' status {storage|chain|pccs|all}         check dc daemon status and  service status'',
     ''                                         \"storage\": check dcstorage service status'',
     ''                                         \"chain\": check dcchain service status'',
     ''                                         \"pccs\": check local pccs service status'',
     ''                                         \"all\": check dcstorage and dcchain service status'',
     '' log  {storage|chain|upgrade|pccs} [num] show running service logs last \"num\" lines'',
     ''                                         \"storage\":  show dcstorage container running log'',
     ''                                         \"chain\":  show dcchain container running log'',
     ''                                         \"upgrade\":  show dcupgrade container running log'',
     ''                                         \"pccs\":  show local pccs  running log'',
     '' uniqueid                                show soft version and sgx enclaveid '',
     '' peerinfo                                show local running peer info'',
     '' memusage                                show memory usage of local running peer'',
     '' blockgc                                 send block gc command to dcsotrage'',
     '' checksum  filepath                      generate  sha256 checksum for file in the \"filepath\"'',
     '' get cid [--name][--timeout][--secret]   get file from dc net with \"cid\" '',
     ''                                         \"--name\": file to save name'',
     ''                                         \"--timeout\":  wait seconds for file to complete download'',
     ''                                         \"--secret\":  file decode secret with base32 encoded'',
     '' pccs_api_key [apikey]                   get or set pccs api key,if no apikey set,will show current apikey'',
     '' rotate-keys                             generate new storage session keys'']"

fun printLines :: "string list \<Rightarrow> unit go" where
  "printLines [] = ret ()"
| "printLines (l # ls) = andThen (println l) (printLines ls)"

definition helpTitle :: "env \<Rightarrow> string" where
  "helpTitle E = ''dcmanager version  '' @ GetVersion @ '' EPC Size:  '' @ itoa (uint (GetEpcSize E))"

definition ShowHelp :: "env \<Rightarrow> unit go" where
  "ShowHelp E = printLines (helpTitle E # helpLines)"

section \<open>Logs of a container\<close>

definition handleInterruptSignal :: "'a go" where
  "handleInterruptSignal = andThen (emit EvSignal) (exitWith 0)"

definition ContainerLogs :: "env \<Rightarrow> string \<Rightarrow> string \<Rightarrow> err go" where
  "ContainerLogs E i opts = ext (\<lambda>h. eLogs E h i opts) (EvLogs i opts)"

definition copyLogs :: "env \<Rightarrow> err go" where
  "copyLogs E = ext (eLogCopy E) EvLogCopy"

definition sinceOption :: "string \<Rightarrow> string" where
  "sinceOption t = ''since='' @ t"

definition tailOption :: "int \<Rightarrow> string" where
  "tailOption n = ''tail='' @ itoa n"

text \<open>A nil client panics when it is used; the end of the stream is no error; and when all
  went well the process waits for a signal and exits.\<close>

definition showLogsForContainer :: "env \<Rightarrow> string \<Rightarrow> int \<Rightarrow> err go" where
  "showLogsForContainer E containerId tnum =
     bnd (NewClientWithOpts E) (\<lambda>ce. case ce of
       Some _ \<Rightarrow> panic
     | None \<Rightarrow>
         if tnum = 0
         then tryE (ContainerInspect E containerId) (\<lambda>execResp.
              checkE (ContainerLogs E containerId (sinceOption (StartedAt execResp)))
             (checkE (copyLogs E) handleInterruptSignal))
         else checkE (ContainerLogs E containerId (tailOption tnum))
             (checkE (copyLogs E) handleInterruptSignal))"

definition showContainerLog :: "env \<Rightarrow> string \<Rightarrow> int \<Rightarrow> unit go" where
  "showContainerLog E containerName tnum =
     bnd (findContainerIdByName E containerName) (\<lambda>r. case r of
       Inl _ \<Rightarrow> ret ()
     | Inr containerId \<Rightarrow> andThen (showLogsForContainer E containerId tnum) (ret ()))"

section \<open>dc config\<close>

text \<open>The loops of the prompts: whether the answer is y, and a text that is not empty.\<close>

fun askYesNo :: "env \<Rightarrow> nat \<Rightarrow> bool go" where
  "askYesNo E 0 = noFuel"
| "askYesNo E (Suc turns) =
     bnd (scanln E) (\<lambda>answer.
       let input = toLower answer
       in if input \<noteq> ''y'' \<and> input \<noteq> ''n''
          then andThen (println ''please input y or n : '') (askYesNo E turns)
          else ret (input = ''y''))"

fun askKey :: "env \<Rightarrow> nat \<Rightarrow> string go" where
  "askKey E 0 = noFuel"
| "askKey E (Suc turns) =
     bnd (scanln E) (\<lambda>input.
       if input = [] then andThen (println ''please input pccs api key: '') (askKey E turns)
       else ret input)"

text \<open>Whether the configuration may go on: a node that is configured already is cleaned
  first, when the user says so.\<close>

definition cleanOld :: "env \<Rightarrow> nat \<Rightarrow> bool go" where
  "cleanOld E turns =
     bnd (reads (\<lambda>s. ValidatorFlag (RunningConfig s))) (\<lambda>flag.
       if flag = [] then ret True
       else andThen (println ''chainmode is already configed,continue will clean the chain data,continue?(y/n): '')
           (bnd (askYesNo E turns) (\<lambda>yes.
              if \<not> yes then ret False
              else bnd (removeDockerContainer E chainContainerName) (\<lambda>e.
                if e \<noteq> None then ret False
                else bnd (osRemoveAll E chainDataDir) (\<lambda>e. ret (e = None))))))"

definition askValidator :: "env \<Rightarrow> nat \<Rightarrow> unit go" where
  "askValidator E turns =
     andThen (println ''do you want to config this node as validator node?(y/n): '')
    (bnd (askYesNo E turns) (\<lambda>yes.
       if yes
       then modify (\<lambda>s. s\<lparr>RunningConfig := (RunningConfig s)\<lparr>ValidatorFlag := ''enable'', ChainSyncMode := ''full''\<rparr>\<rparr>)
       else modify (\<lambda>s. s\<lparr>RunningConfig := (RunningConfig s)\<lparr>ValidatorFlag := ''disable''\<rparr>\<rparr>)))"

definition askPccsKey :: "env \<Rightarrow> nat \<Rightarrow> unit go" where
  "askPccsKey E turns =
     bnd (reads (\<lambda>s. PccsKey (RunningConfig s))) (\<lambda>key.
       if key = []
       then andThen (println ''please input pccs api key: '')
           (bnd (askKey E turns) (\<lambda>input.
              modify (\<lambda>s. s\<lparr>RunningConfig := (RunningConfig s)\<lparr>PccsKey := input\<rparr>\<rparr>)))
       else ret ())"

definition ConfigCommandDeal :: "env \<Rightarrow> nat \<Rightarrow> unit go" where
  "ConfigCommandDeal E turns =
     bnd (cleanOld E turns) (\<lambda>goon.
       if \<not> goon then ret ()
       else andThen (askValidator E turns)
           (andThen (askPccsKey E turns)
           (bnd (bnd (reads RunningConfig) (SaveConfig E)) (\<lambda>e. case e of
              Some x \<Rightarrow> println (''save config fail,err: '' @ errMsg x)
            | None \<Rightarrow> andThen (println ''config chainmode success,starting dcchain service'')
                (bnd (startDcChain E) (\<lambda>e.
                   if e = None then showContainerLog E chainContainerName 100 else ret ()))))))"

section \<open>dc start, stop, status and log\<close>

definition startStorage :: "env \<Rightarrow> unit go" where
  "startStorage E =
     bnd (startDcStorageNode E) (\<lambda>e.
       if e = None
       then andThen (setDcnodeCmdState E ''start'') (showContainerLog E nodeContainerName 100)
       else ret ())"

definition StartCommandDeal :: "env \<Rightarrow> unit go" where
  "StartCommandDeal E =
     (if length (eArgs E) < 3 then ShowHelp E
      else let arg = eArgs E ! 2
      in if arg = ''storage'' then startStorage E
      else if arg = ''chain'' then bnd (startDcChain E) (\<lambda>e.
        if e = None then showContainerLog E chainContainerName 100 else ret ())
      else if arg = ''pccs'' then bnd (runPccsInDocker E) (\<lambda>e.
        if e = None then showContainerLog E pccsContainerName 100 else ret ())
      else if arg = ''all'' then andThen (startDcChain E) (startStorage E)
      else ShowHelp E)"

definition StopCommandDeal :: "env \<Rightarrow> unit go" where
  "StopCommandDeal E =
     (if length (eArgs E) < 3 then ShowHelp E
      else let arg = eArgs E ! 2
      in if arg = ''storage''
      then andThen (setDcnodeCmdState E ''stop'') (andThen (stopDcnodeInDocker E) (ret ()))
      else if arg = ''chain'' then stopDcchainInDocker E
      else if arg = ''pccs'' then stopPccsInDocker E
      else if arg = ''all''
      then andThen (setDcnodeCmdState E ''stop'') (andThen (stopDcnodeInDocker E)
          (andThen (stopDcchainInDocker E) (stopPccsInDocker E)))
      else ShowHelp E)"

definition printStatus :: "string \<Rightarrow> (bool \<times> err) go \<Rightarrow> unit go" where
  "printStatus what check = bnd check (\<lambda>(status, _). println (what @ '' status: '' @ statusToString status))"

definition StatusCommandDeal :: "env \<Rightarrow> unit go" where
  "StatusCommandDeal E =
     (if length (eArgs E) < 2 then ShowHelp E
      else let arg = (if length (eArgs E) > 2 then eArgs E ! 2 else ''all'')
      in andThen (printStatus ''daemon'' (checkDcDeamonStatusDc E))
        (if arg = ''storage'' then printStatus ''dcstorage'' (checkDcnodeStatus E)
         else if arg = ''chain'' then printStatus ''dcchain'' (checkDcchainStatus E)
         else if arg = ''pccs'' then printStatus ''pccs'' (checkPccsStatus E)
         else if arg = ''all''
         then andThen (printStatus ''dcstorage'' (checkDcnodeStatus E))
             (andThen (printStatus ''dcchain'' (checkDcchainStatus E))
                      (printStatus ''pccs'' (checkPccsStatus E)))
         else ShowHelp E))"

definition LogCommandDeal :: "env \<Rightarrow> unit go" where
  "LogCommandDeal E =
     (if length (eArgs E) < 3 then ShowHelp E
      else let tnum = (if length (eArgs E) > 3 then fst (atoi (eArgs E ! 3)) else 100);
               arg = eArgs E ! 2
      in if arg = ''storage'' then showContainerLog E nodeContainerName tnum
      else if arg = ''chain'' then showContainerLog E chainContainerName tnum
      else if arg = ''upgrade'' then showContainerLog E upgradeContainerName tnum
      else if arg = ''pccs'' then showContainerLog E pccsContainerName tnum
      else ShowHelp E)"

section \<open>dc upgrade\<close>

definition UpgradeCommandDeal :: "env \<Rightarrow> nat \<Rightarrow> nat \<Rightarrow> unit go" where
  "UpgradeCommandDeal E fuel turns =
     (if length (eArgs E) > 2
      then if eArgs E ! 2 = ''daemon''
           then bnd (checkDcDeamonStatusDc E) (\<lambda>(flag, _).
                  if flag then ret ()
                  else if eGetppid E \<noteq> 1 then andThen (emit (EvSpawn (selfCommand E))) (exitWith 0)
                  else daemonCommandDeal E fuel turns)
           else ShowHelp E
      else ret ())"

section \<open>Queries\<close>

definition newline :: char where
  "newline = char_of (10 :: nat)"

definition versionText :: "string \<Rightarrow> string \<Rightarrow> string \<Rightarrow> string" where
  "versionText what version enclaveId = what @ '' version: '' @ version @ '',enclaveid: '' @ enclaveId"

definition UniqueIdCommandDeal :: "env \<Rightarrow> unit go" where
  "UniqueIdCommandDeal E =
     (if length (eArgs E) < 2 then ShowHelp E
      else bnd (checkDcDeamonStatusDc E) (\<lambda>(upgradeStatus, _).
           bnd (if upgradeStatus then getVersionByHttpGet E dcUpgradeListenPort else ret ([], [], None))
             (\<lambda>(upgradeVersion, upgradeEnclaveId, _).
           bnd (checkDcnodeStatus E) (\<lambda>(nodeStatus, _).
           bnd (if nodeStatus then getVersionByHttpGet E dcStorageListenPort else ret ([], [], None))
             (\<lambda>(storageVersion, storageEnclaveId, _).
           andThen (println (''dcmanager version  '' @ GetVersion))
             (if upgradeVersion \<noteq> []
              then println (versionText ''dcstorage'' storageVersion storageEnclaveId @ [newline] @
                     versionText ''dcupgrade'' upgradeVersion upgradeEnclaveId)
              else println (versionText ''dcstorage'' storageVersion storageEnclaveId)))))))"

text \<open>A public key that cannot be decoded is reported, and shown as no account.\<close>

definition PeerInfoCommandDeal :: "env \<Rightarrow> unit go" where
  "PeerInfoCommandDeal E =
     bnd (getPeerInfoByHttpGet E) (\<lambda>(peerid, pubkey, walletAddr, e).
       if e \<noteq> None
       then println ''get peerinfo failed,please make sure storage service is running''
       else andThen (case eMbase E pubkey of
              Inl _ \<Rightarrow> println ''decode pubkey failed'' | Inr _ \<Rightarrow> ret ())
           (let account = (case eMbase E pubkey of Inl _ \<Rightarrow> [] | Inr a \<Rightarrow> a)
            in println (''peer ID: '' @ peerid @ [newline] @ ''peer Pubkey: '' @ pubkey @ [newline] @
                 ''peer Account: '' @ eHex E account @ [newline] @ ''peer Wallet Address: '' @ walletAddr)))"

definition MemoryUsageCommandDeal :: "env \<Rightarrow> unit go" where
  "MemoryUsageCommandDeal E =
     bnd (getMemoryUsageByHttpGet E) (\<lambda>r. case r of
       Inl _ \<Rightarrow> println ''get memory usage failed,please make sure storage service is running''
     | Inr memUsageInfo \<Rightarrow> println (''dcstorage memory usage: '' @ memUsageInfo))"

definition BlockGcCommandDeal :: "env \<Rightarrow> unit go" where
  "BlockGcCommandDeal E =
     bnd (sendBlockGcCommand E) (\<lambda>e.
       if e \<noteq> None
       then println ''block gc command deal failed,please make sure storage service is running''
       else println ''dcstorage gc command has been sent'')"

section \<open>dc checksum and dc get\<close>

definition Sha256sum :: "env \<Rightarrow> string \<Rightarrow> (goerr + string) go" where
  "Sha256sum E filepath =
     bnd (osOpen E filepath) (\<lambda>e. case e of
       Some x \<Rightarrow> ret (Inl x)
     | None \<Rightarrow> bnd (osReadFile E filepath) (\<lambda>r. ret (case r of
           Inl x \<Rightarrow> Inl x
         | Inr content \<Rightarrow> Inr (hexText (sha256 content)))))"

fun checksums :: "env \<Rightarrow> string list \<Rightarrow> unit go" where
  "checksums E [] = ret ()"
| "checksums E (filename # rest) =
     bnd (Sha256sum E filename) (\<lambda>r. case r of
       Inl _ \<Rightarrow> checksums E rest
     | Inr checksum \<Rightarrow> andThen (println (checksum @ [char_of (9 :: nat)] @ filename)) (checksums E rest))"

definition ChecksumCommandDeal :: "env \<Rightarrow> unit go" where
  "ChecksumCommandDeal E =
     (if length (eArgs E) < 3
      then andThen (println ''Usage: dc checksum <file>'') (exitWith 1)
      else checksums E (drop 2 (eArgs E)))"

text \<open>\<open>time.Duration(n) * time.Second\<close>, in 64 bits.\<close>

definition seconds :: "int \<Rightarrow> duration" where
  "seconds n = of_int n * 1000000000"

definition GetFileFromIpfsCommandDeal :: "env \<Rightarrow> nat \<Rightarrow> unit go" where
  "GetFileFromIpfsCommandDeal E fuel =
     (if length (eArgs E) < 3 then ShowHelp E
      else let cid = eArgs E ! 2
      in case parseFlags \<lparr>flagName = cid, flagTimeout = 600, flagSecret = []\<rparr> (drop 3 (eArgs E)) of
           Inl FlagHelp \<Rightarrow> exitWith 0
         | Inl FlagBad \<Rightarrow> exitWith 2
         | Inr fs \<Rightarrow> bnd (GetPeerAddrsForCid E fuel cid) (\<lambda>r. case r of
               Inl _ \<Rightarrow> ret ()
             | Inr (fileSize, addrInfos) \<Rightarrow>
                 if addrInfos = [] then ret ()
                 else andThen (println ''get storage location information success'')
                     (andThen (DownloadFromIpfs E cid (flagSecret fs) (flagName fs) addrInfos
                       (seconds (flagTimeout fs))) (ret ()))))"

section \<open>dc rotate-keys and dc pccs_api_key\<close>

definition rotateBody :: string where
  "rotateBody = ''{\"id\":1, \"jsonrpc\":\"2.0\", \"method\": \"author_rotateKeys\", \"params\":[]}''"

definition chainRpcUrl :: "DcManageConfig \<Rightarrow> string" where
  "chainRpcUrl cfg = ''http://'' @ serverhost @ '':'' @ itoa (ChainRpcListenPort cfg)"

text \<open>The text of a decoding error is a field of the environment.\<close>

definition RotateKeyCommandDeal :: "env \<Rightarrow> (string \<times> err) go" where
  "RotateKeyCommandDeal E =
     bnd (checkDcchainStatus E) (\<lambda>(status, e). case e of
       Some x \<Rightarrow> andThen (println ''dcchain is not running'') (ret ([], Some x))
     | None \<Rightarrow>
         if \<not> status
         then andThen (println ''dcchain is not running'')
                (ret ([], Some (GoErr ''dcchain is not running'')))
         else bnd (reads RunningConfig) (\<lambda>cfg.
           if ValidatorFlag cfg \<noteq> ''enable''
           then andThen (println ''current node isn't configed as validator, please config node as validator by running command \" dc config\" first'')
                  (ret ([], Some (GoErr ''only validator can rotate key'')))
           else bnd (HttpPost E (chainRpcUrl cfg) rotateBody) (\<lambda>r. case r of
               Inl x \<Rightarrow> ret ([], Some x)
             | Inr res \<Rightarrow> (case unmarshalSessionKey res of
                   None \<Rightarrow> ret ([], Some (eJsonErr E res))
                 | Some sessionKeyRes \<Rightarrow>
                     andThen (println (''session key: '' @ Result sessionKeyRes))
                             (ret (Result sessionKeyRes, None))))))"

definition PccsApiKeyCommandDeal :: "env \<Rightarrow> unit go" where
  "PccsApiKeyCommandDeal E =
     (if length (eArgs E) \<ge> 3
      then andThen (modify (\<lambda>s. s\<lparr>RunningConfig := (RunningConfig s)\<lparr>PccsKey := eArgs E ! 2\<rparr>\<rparr>))
          (bnd (bnd (reads RunningConfig) (SaveConfig E)) (\<lambda>e. case e of
             Some x \<Rightarrow> println (''save config fail,err: '' @ errMsg x)
           | None \<Rightarrow> println ''set api key success''))
      else bnd (reads (\<lambda>s. PccsKey (RunningConfig s))) (\<lambda>key. println (''pccs apikey: '' @ key)))"

end
