(* ===== verification/CliProps.thy ===== *)
theory CliProps
  imports Cli
begin

text \<open>
  Properties of the commands: what \<open>dc config\<close> deletes and writes, that a stop
  outlives the background service, and checksums.
\<close>

section \<open>The order of dc config\<close>

text \<open>Each event of a configuration with what it needs: the user's consent for deleting the
  data of the chain, and a complete configuration for the file.\<close>

definition consent :: "history \<Rightarrow> bool" where
  "consent h \<longleftrightarrow> (\<exists>answer. EvScan answer \<in> set h \<and> toLower answer = ''y'')"

definition completeConfig :: "DcManageConfig \<Rightarrow> bool" where
  "completeConfig cfg \<longleftrightarrow> ValidatorFlag cfg \<in> {''enable'', ''disable''} \<and> PccsKey cfg \<noteq> [] \<and>
     (ValidatorFlag cfg = ''enable'' \<longrightarrow> ChainSyncMode cfg = ''full'')"

fun configNeed :: "env \<Rightarrow> event \<Rightarrow> history \<Rightarrow> bool" where
  "configNeed E (EvRemoveAll p _) h = (p = chainDataDir \<and> consent h)"
| "configNeed E (EvWriteFile p c _) h =
     (p = Config_file_path \<and> (\<exists>cfg. yamlMarshal E cfg = Inr c \<and> completeConfig cfg))"
| "configNeed E _ h = True"

fun tame :: "event \<Rightarrow> bool" where
  "tame (EvRemoveAll _ _) = False"
| "tame (EvWriteFile _ _ _) = False"
| "tame _ = True"

lemma tame_need: "tame e \<Longrightarrow> configNeed E e h"
  by (cases e) auto

lemma obeys_tame: "obeys (configNeed E) h \<Longrightarrow> \<forall>e \<in> set new. tame e \<Longrightarrow> obeys (configNeed E) (new @ h)"
  by (induction new) (auto intro: tame_need)

abbreviation sound :: "env \<Rightarrow> history \<Rightarrow> st \<Rightarrow> bool" where
  "sound E h0 \<equiv> since h0 (obeys (configNeed E))"

lemma tame_valid: "emits tame m \<Longrightarrow> valid (sound E h0) m (\<lambda>_. sound E h0) (sound E h0)"
  by (rule valid_emits) (auto intro: obeys_tame)

text \<open>A tame step that also keeps or establishes something of the state.\<close>

lemma tame_state:
  assumes "emits tame m" and "\<And>s x t. P s \<Longrightarrow> m s = (Ret x, t) \<Longrightarrow> Q t"
  shows "valid (\<lambda>s. sound E h0 s \<and> P s) m (\<lambda>_ t. sound E h0 t \<and> Q t) (sound E h0)"
  unfolding valid_def
proof (intro allI impI)
  fix s assume s: "sound E h0 s \<and> P s"
  then have t: "sound E h0 (snd (m s))" using valid_all [OF tame_valid [OF assms(1)]] by blast
  show "post (\<lambda>_ t. sound E h0 t \<and> Q t) (sound E h0) (m s)"
    using s t assms(2) [of s] by (cases "m s"; cases "fst (m s)") auto
qed

lemma askYesNo_yes:
  "askYesNo E turns s = (Ret True, t) \<Longrightarrow>
   \<exists>answer mid. trace t = EvScan answer # mid @ trace s \<and> toLower answer = ''y''"
proof (induction turns arbitrary: s)
  case 0
  then show ?case by (simp add: run)
next
  case (Suc turns)
  let ?a = "eScan E (trace s)"
  let ?u = "s\<lparr>trace := EvPrint ''please input y or n : '' # EvScan ?a # trace s\<rparr>"
  have step: "askYesNo E (Suc turns) s = (if toLower ?a \<noteq> ''y'' \<and> toLower ?a \<noteq> ''n'' then askYesNo E turns ?u
      else (Ret (toLower ?a = ''y''), s\<lparr>trace := EvScan ?a # trace s\<rparr>))"
    by (simp add: run andThen_def println_def emit_def scanln_def Let_def)
  show ?case
  proof (cases "toLower ?a \<noteq> ''y'' \<and> toLower ?a \<noteq> ''n''")
    case True
    then have "askYesNo E turns ?u = (Ret True, t)" using Suc.prems step by simp
    then obtain answer mid where "trace t = EvScan answer # mid @ trace ?u" "toLower answer = ''y''"
      using Suc.IH by blast
    then show ?thesis
      by (intro exI [of _ answer] exI [of _ "mid @ [EvPrint ''please input y or n : '', EvScan ?a]"]) simp
  next
    case False
    then have "trace t = EvScan ?a # [] @ trace s" "toLower ?a = ''y''" using Suc.prems step by auto
    then show ?thesis by blast
  qed
qed

lemma emits_askYesNo: "emits tame (askYesNo E turns)"
  by (induction turns) (auto simp: Let_def println_def scanln_def intro!: emits_intro)

lemma emits_askKey: "emits tame (askKey E turns)"
  by (induction turns) (auto simp: println_def scanln_def intro!: emits_intro)

lemma askKey_nonempty: "askKey E turns s = (Ret key, t) \<Longrightarrow> key \<noteq> []"
  by (induction turns arbitrary: s)
    (auto simp: run andThen_def println_def emit_def scanln_def split: if_splits)

lemma emits_logs: "emits tame (showContainerLog E n k)"
  unfolding showContainerLog_def showLogsForContainer_def findContainerIdByName_def
    handleInterruptSignal_def ContainerLogs_def copyLogs_def effects
  by (intro emits_intro; simp)

lemma emits_chain: "emits tame (startDcChain E)"
  by (rule chainStart.weaken, elim disjE exE) (auto elim: plainEvent.elims startEvent.elims)

lemma since_step: "since h0 K s \<Longrightarrow> (\<And>h. K h \<Longrightarrow> L (e # h)) \<Longrightarrow> since h0 L (s\<lparr>trace := e # trace s\<rparr>)"
  unfolding since_def by (metis append_Cons st.select_convs(1) st.surjective st.update_convs(1))

lemma ask_valid:
  "valid (sound E h0) (askYesNo E turns)
     (\<lambda>yes. since h0 (\<lambda>h. obeys (configNeed E) h \<and> (yes \<longrightarrow> consent h))) (sound E h0)"
  unfolding valid_def
proof (intro allI impI)
  fix s assume s: "sound E h0 s"
  then obtain h where h: "trace s = h @ h0" by (auto simp: since_def)
  have t: "sound E h0 (snd (askYesNo E turns s))" using valid_all [OF tame_valid [OF emits_askYesNo] s] .
  obtain r u where ru: "askYesNo E turns s = (r, u)" by fastforce
  have "consent g" if "r = Ret True" "trace u = g @ h0" for g
    using askYesNo_yes [of E turns s u] ru that h by (force simp: consent_def Cons_eq_append_conv)
  then show "post (\<lambda>yes. since h0 (\<lambda>h. obeys (configNeed E) h \<and> (yes \<longrightarrow> consent h))) (sound E h0)
      (askYesNo E turns s)"
    using t ru by (cases r) (auto simp: since_def)
qed

text \<open>The removal of the old chain node, once the user has agreed.\<close>

abbreviation agreed :: "env \<Rightarrow> history \<Rightarrow> st \<Rightarrow> bool" where
  "agreed E h0 \<equiv> since h0 (\<lambda>h. obeys (configNeed E) h \<and> consent h)"

lemma agreed_sound: "agreed E h0 s \<Longrightarrow> sound E h0 s"
  by (auto elim: since_mono)

lemma wipe_valid:
  "valid (agreed E h0) (bnd (removeDockerContainer E chainContainerName) (\<lambda>e.
      if e \<noteq> None then ret False else bnd (osRemoveAll E chainDataDir) (\<lambda>e. ret (e = None))))
     (\<lambda>_. sound E h0) (sound E h0)"
proof (rule valid_bnd)
  have "emits tame (removeDockerContainer E chainContainerName)"
    unfolding removeDockerContainer_def
    by (rule removeContainer.weaken) (auto elim: removeEvent.elims)
  then have "valid (agreed E h0) (removeDockerContainer E chainContainerName) (\<lambda>_. agreed E h0) (agreed E h0)"
    by (rule valid_emits) (auto intro: obeys_tame simp: consent_def)
  then show "valid (agreed E h0) (removeDockerContainer E chainContainerName) (\<lambda>_. agreed E h0) (sound E h0)"
    by (rule valid_post) (simp_all add: agreed_sound)
  fix e :: err
  have data: "valid (agreed E h0) (osRemoveAll E chainDataDir) (\<lambda>_. sound E h0) (sound E h0)"
    unfolding osRemoveAll_def by (rule valid_ext, erule since_step) simp
  have "valid (agreed E h0) (bnd (osRemoveAll E chainDataDir) (\<lambda>e. ret (e = None))) (\<lambda>_. sound E h0) (sound E h0)"
    by (rule valid_bnd [OF data]) (simp add: valid_ret)
  then show "valid (agreed E h0) (if e \<noteq> None then ret False else bnd (osRemoveAll E chainDataDir) (\<lambda>e. ret (e = None)))
      (\<lambda>_. sound E h0) (sound E h0)"
    by (auto intro: valid_ret agreed_sound)
qed

lemma clean_valid: "valid (sound E h0) (cleanOld E turns) (\<lambda>_. sound E h0) (sound E h0)"
proof -
  have rest: "valid (since h0 (\<lambda>h. obeys (configNeed E) h \<and> (yes \<longrightarrow> consent h)))
      (if \<not> yes then ret False else bnd (removeDockerContainer E chainContainerName) (\<lambda>e.
        if e \<noteq> None then ret False else bnd (osRemoveAll E chainDataDir) (\<lambda>e. ret (e = None))))
      (\<lambda>_. sound E h0) (sound E h0)" for yes
    using wipe_valid by (cases yes) (simp_all add: valid_ret)
  have quiet: "emits tame (println x)" for x by (simp add: println_def emits_emit)
  show ?thesis unfolding cleanOld_def
    by (rule valid_bnd [OF tame_valid])
      (auto intro!: emits_intro valid_ret valid_andThen [OF tame_valid [OF quiet]] valid_bnd [OF ask_valid] rest)
qed

text \<open>What the answers make of the configuration.\<close>

abbreviation modeSet :: "st \<Rightarrow> bool" where
  "modeSet s \<equiv> ValidatorFlag (RunningConfig s) \<in> {''enable'', ''disable''} \<and>
     (ValidatorFlag (RunningConfig s) = ''enable'' \<longrightarrow> ChainSyncMode (RunningConfig s) = ''full'')"

lemma emits_askValidator: "emits tame (askValidator E turns)"
  unfolding askValidator_def println_def by (intro emits_intro emits_askYesNo; simp)

lemma askValidator_mode: "askValidator E turns s = (Ret x, t) \<Longrightarrow> modeSet t"
  by (auto simp: askValidator_def andThen_def println_def emit_def run split: outcome.splits if_splits)

lemma emits_askPccsKey: "emits tame (askPccsKey E turns)"
  unfolding askPccsKey_def println_def by (intro emits_intro emits_askKey; simp)

lemma askKey_config: "RunningConfig (snd (askKey E turns s)) = RunningConfig s"
proof -
  have "keeps RunningConfig (askKey E turns)"
    by (induction turns) (auto simp: println_def scanln_def intro!: emits_intro)
  then show ?thesis by (rule keepsD)
qed

lemma askPccsKey_complete:
  assumes "modeSet s" and "askPccsKey E turns s = (Ret x, t)"
  shows "completeConfig (RunningConfig t)"
proof (cases "PccsKey (RunningConfig s) = []")
  case False
  then show ?thesis using assms by (auto simp: askPccsKey_def run completeConfig_def)
next
  case True
  let ?u = "s\<lparr>trace := EvPrint ''please input pccs api key: '' # trace s\<rparr>"
  obtain key v where v: "askKey E turns ?u = (Ret key, v)"
      "t = v\<lparr>RunningConfig := (RunningConfig v)\<lparr>PccsKey := key\<rparr>\<rparr>"
    using assms(2) True
  proof (cases "askKey E turns ?u")
    case (Pair r v)
    then show thesis using assms(2) True that
      by (cases r) (auto simp: askPccsKey_def andThen_def println_def emit_def run)
  qed
  have "RunningConfig v = RunningConfig s" using askKey_config [of E turns ?u] v(1) by simp
  then show ?thesis using assms(1) v askKey_nonempty [OF v(1)] by (auto simp: completeConfig_def)
qed

lemma config_save_valid:
  "valid (\<lambda>s. sound E h0 s \<and> completeConfig (RunningConfig s)) (bnd (reads RunningConfig) (SaveConfig E))
    (\<lambda>_. sound E h0) (sound E h0)"
  unfolding valid_def
proof (intro allI impI)
  fix s assume s: "sound E h0 s \<and> completeConfig (RunningConfig s)"
  show "post (\<lambda>_. sound E h0) (sound E h0) (bnd (reads RunningConfig) (SaveConfig E) s)"
  proof (cases "yamlMarshal E (RunningConfig s)")
    case (Inr c)
    have "sound E h0 (s\<lparr>trace := EvWriteFile Config_file_path c r # trace s\<rparr>)" for r
      by (rule since_step [OF conjunct1 [OF s]]) (use s Inr in auto)
    then show ?thesis using Inr by (auto simp: SaveConfig_def osWriteFile_def run split: option.split)
  qed (use s in \<open>auto simp: SaveConfig_def run\<close>)
qed

lemma config_valid: "valid (sound E h0) (ConfigCommandDeal E turns) (\<lambda>_. sound E h0) (sound E h0)"
proof -
  have mode: "valid (sound E h0) (askValidator E turns) (\<lambda>_ t. sound E h0 t \<and> modeSet t) (sound E h0)"
    using tame_state [OF emits_askValidator, where P = "\<lambda>_. True" and Q = modeSet] askValidator_mode by simp
  have key: "valid (\<lambda>s. sound E h0 s \<and> modeSet s) (askPccsKey E turns)
      (\<lambda>_ t. sound E h0 t \<and> completeConfig (RunningConfig t)) (sound E h0)"
    by (rule tame_state [OF emits_askPccsKey]) (rule askPccsKey_complete)
  have chain: "valid (sound E h0) (bnd (startDcChain E) (\<lambda>e.
      if e = None then showContainerLog E chainContainerName 100 else ret ())) (\<lambda>_. sound E h0) (sound E h0)"
    by (intro tame_valid emits_intro emits_chain emits_logs)
  have say: "valid (sound E h0) (println x) (\<lambda>_. sound E h0) (sound E h0)" for x
    by (intro tame_valid) (simp add: println_def emits_emit)
  have saved: "valid (sound E h0) (case e of
      Some x \<Rightarrow> println (''save config fail,err: '' @ errMsg x)
    | None \<Rightarrow> andThen (println ''config chainmode success,starting dcchain service'')
        (bnd (startDcChain E) (\<lambda>e. if e = None then showContainerLog E chainContainerName 100 else ret ())))
      (\<lambda>_. sound E h0) (sound E h0)" for e
    by (cases e) (simp_all add: say valid_andThen [OF say chain])
  show ?thesis unfolding ConfigCommandDeal_def
  proof (rule valid_bnd [OF clean_valid])
    fix goon
    show "valid (sound E h0) (if \<not> goon then ret ()
       else andThen (askValidator E turns)
           (andThen (askPccsKey E turns)
           (bnd (bnd (reads RunningConfig) (SaveConfig E)) (\<lambda>e. case e of
              Some x \<Rightarrow> println (''save config fail,err: '' @ errMsg x)
            | None \<Rightarrow> andThen (println ''config chainmode success,starting dcchain service'')
                (bnd (startDcChain E) (\<lambda>e.
                   if e = None then showContainerLog E chainContainerName 100 else ret ())))))) (\<lambda>_. sound E h0) (sound E h0)"
      using valid_andThen [OF mode valid_andThen [OF key valid_bnd [OF config_save_valid saved]]]
      by (cases goon) (simp_all only: simp_thms if_True if_False, simp add: valid_ret)
  qed
qed

lemma config_obeys: "obeys (configNeed E) (newEvents (ConfigCommandDeal E turns) s)"
proof -
  have "sound E (trace s) s" by (simp add: since_def)
  then have "sound E (trace s) (snd (ConfigCommandDeal E turns s))" by (rule valid_all [OF config_valid])
  then show ?thesis by (rule since_newEvents)
qed

text \<open>C18: \<open>dc config\<close> deletes a directory only after an answer that is y (in either
  case), and it is the data directory of the chain.\<close>

theorem config_cleans_with_consent:
  assumes "newEvents (ConfigCommandDeal E turns) s = later @ EvRemoveAll p r # earlier"
  shows "p = chainDataDir \<and> (\<exists>answer. EvScan answer \<in> set earlier \<and> toLower answer = ''y'')"
  using obeys_split [of "configNeed E" later "EvRemoveAll p r" earlier] config_obeys [of E turns s] assms
  by (simp add: consent_def)

theorem config_cleans_with_consent_witness:
  "\<exists>later earlier. newEvents (ConfigCommandDeal (nullEnv\<lparr>eScan := \<lambda>_. ''Y'', eRemoveAll := \<lambda>_ _. Some nope\<rparr>) 1)
     (initSt\<lparr>RunningConfig := defaultConfig\<lparr>ValidatorFlag := ''enable''\<rparr>\<rparr>) =
     later @ EvRemoveAll chainDataDir (Some nope) # earlier \<and> (\<exists>a. EvScan a \<in> set earlier)"
proof -
  let ?E = "nullEnv\<lparr>eScan := \<lambda>_. ''Y'', eRemoveAll := \<lambda>_ _. Some nope\<rparr>"
  let ?s = "initSt\<lparr>RunningConfig := defaultConfig\<lparr>ValidatorFlag := ''enable''\<rparr>\<rparr>"
  have low: "toLower ''Y'' = ''y''" by code_simp
  have "EvRemoveAll chainDataDir (Some nope) \<in> set (newEvents (ConfigCommandDeal ?E 1) ?s)"
    by (simp add: ConfigCommandDeal_def cleanOld_def removeDockerContainer_def RemoveContainer_def idByName_def
        low runs nullEnv_def newEvents_def initSt_def)
  then obtain later earlier where split: "newEvents (ConfigCommandDeal ?E 1) ?s =
      later @ EvRemoveAll chainDataDir (Some nope) # earlier" by (meson split_list)
  show ?thesis using config_cleans_with_consent [OF split] split by blast
qed

text \<open>C19: What \<open>dc config\<close> writes is a complete configuration: it says whether the
  node is a validator, has a pccs key, and a validator synchronises in full.\<close>

theorem config_saves_complete:
  assumes "EvWriteFile p c r \<in> set (newEvents (ConfigCommandDeal E turns) s)"
  shows "p = Config_file_path \<and> (\<exists>cfg. yamlMarshal E cfg = Inr c \<and> PccsKey cfg \<noteq> [] \<and>
    ValidatorFlag cfg \<in> {''enable'', ''disable''} \<and>
    (ValidatorFlag cfg = ''enable'' \<longrightarrow> ChainSyncMode cfg = ''full''))"
proof -
  obtain later earlier where "newEvents (ConfigCommandDeal E turns) s = later @ EvWriteFile p c r # earlier"
    using assms by (meson split_list)
  then show ?thesis
    using obeys_split [of "configNeed E" later "EvWriteFile p c r" earlier] config_obeys [of E turns s]
    by (auto simp: completeConfig_def)
qed

theorem config_saves_complete_witness:
  "\<exists>cfg. yamlMarshal (nullEnv\<lparr>eScan := \<lambda>_. ''n'', eYamlEmit := \<lambda>d. Inr (memberText ''validatorFlag'' d)\<rparr>) cfg =
     Inr ''disable'' \<and> PccsKey cfg \<noteq> []"
proof -
  let ?E = "nullEnv\<lparr>eScan := \<lambda>_. ''n'', eYamlEmit := \<lambda>d. Inr (memberText ''validatorFlag'' d)\<rparr>"
  have low: "toLower ''n'' = ''n''" by code_simp
  have "EvWriteFile Config_file_path ''disable'' None \<in> set (newEvents (ConfigCommandDeal ?E 1) initSt)"
    by (simp add: ConfigCommandDeal_def cleanOld_def askValidator_def askPccsKey_def SaveConfig_def yamlMarshal_def
        startDcChain_def startDcchainInDocker_def StartContainer_def findCreated_def createContainer_def
        low runs nullEnv_def newEvents_def initSt_def defaultConfig_def conflictMsg_def nope_def)
  from config_saves_complete [OF this] show ?thesis by blast
qed

section \<open>A stop outlives the background service\<close>

text \<open>\<open>stopSaved h\<close>: the last thing written to the command state is stop, and the
  write succeeded.\<close>

fun stopSaved :: "history \<Rightarrow> bool" where
  "stopSaved [] = False"
| "stopSaved (EvWriteFile p c r # h) =
     (if p = runCmdStateFilepath then c = ''stop'' \<and> r = None else stopSaved h)"
| "stopSaved (_ # h) = stopSaved h"

lemma stopSaved_idle:
  assumes "idle e" and "stopSaved h"
  shows "stopSaved (e # h)"
proof -
  have "daemonFilepath \<noteq> runCmdStateFilepath" by (simp add: daemonFilepath_def runCmdStateFilepath_def)
  then show ?thesis using assms by (cases e) auto
qed

abbreviation asleep :: "history \<Rightarrow> st \<Rightarrow> bool" where
  "asleep h0 s \<equiv> since h0 (\<lambda>h. \<forall>e \<in> set h. idle e) s \<and> stopSaved (trace s)"

lemma asleep_valid:
  assumes "emits idle m"
  shows "valid (asleep h0) m (\<lambda>_. asleep h0) (asleep h0)"
  unfolding valid_def
proof (intro allI impI)
  fix s assume s: "asleep h0 s"
  obtain new where new: "trace (snd (m s)) = new @ trace s" "\<forall>e \<in> set new. idle e"
    using assms by (rule emitsD)
  have "stopSaved (new @ trace s)" using new(2) s by (induction new) (auto intro: stopSaved_idle)
  then have "asleep h0 (snd (m s))" using s new by (auto simp: since_def)
  then show "post (\<lambda>_. asleep h0) (asleep h0) (m s)" by (simp add: post_same)
qed

lemma loop_asleep:
  assumes disk: "\<And>h. stopSaved h \<Longrightarrow> eReadFile E h runCmdStateFilepath = Inr ''stop''"
  shows "valid (asleep h0) (daemonLoop E fuel turns) (\<lambda>_. asleep h0) (asleep h0)"
proof (induction turns)
  case 0
  then show ?case by (simp add: valid_noFuel)
next
  case (Suc turns)
  have look: "valid (asleep h0) (checkDcnodeCmdState E) (\<lambda>started t. asleep h0 t \<and> \<not> started) (asleep h0)"
    unfolding valid_def
  proof (intro allI impI)
    fix s assume s: "asleep h0 s"
    have r: "eReadFile E (trace s) runCmdStateFilepath = Inr ''stop''" using disk s by blast
    have "emits idle (checkDcnodeCmdState E)"
      unfolding checkDcnodeCmdState_def osReadFile_def by (intro emits_intro; simp)
    then have "asleep h0 (snd (checkDcnodeCmdState E s))" using s by (rule valid_all [OF asleep_valid])
    then show "post (\<lambda>started t. asleep h0 t \<and> \<not> started) (asleep h0) (checkDcnodeCmdState E s)"
      using r by (simp add: checkDcnodeCmdState_def osReadFile_def run)
  qed
  have tick: "valid (asleep h0) (bnd (checkDcnodeCmdState E) (\<lambda>started.
      if \<not> started then daemonLoop E fuel turns
      else bnd (upgradeDeal E fuel) (\<lambda>e.
        if e \<noteq> None \<or> \<not> IsSgx2Support E then daemonLoop E fuel turns
        else bnd (randIntn E 86400) (\<lambda>randnum. andThen (sleep randnum) (daemonLoop E fuel turns)))))
      (\<lambda>_. asleep h0) (asleep h0)"
    by (rule valid_bnd [OF look], rename_tac started, case_tac started)
      (simp_all add: valid_def [where P = "\<lambda>_. False"] valid_pre [OF Suc])
  have quit: "valid (asleep h0) (andThen (emit (EvRemoveFile daemonFilepath)) (exitWith 1)) (\<lambda>_. asleep h0) (asleep h0)"
    by (intro asleep_valid emits_intro) simp
  show ?case unfolding daemonLoop.simps
    by (rule valid_bnd [OF asleep_valid]) (auto intro: tick quit emits_ext)
qed

lemma daemon_asleep:
  assumes disk: "\<And>h. stopSaved h \<Longrightarrow> eReadFile E h runCmdStateFilepath = Inr ''stop''"
  shows "valid (asleep h0) (daemonCommandDeal E fuel turns) (\<lambda>_. asleep h0) (asleep h0)"
proof -
  have c: "valid (asleep h0) (bnd (claimPid E) (\<lambda>mine. if mine then daemonLoop E fuel turns else ret ()))
      (\<lambda>_. asleep h0) (asleep h0)"
    by (rule valid_bnd [OF asleep_valid [OF claim_idle]]) (auto intro: loop_asleep [OF disk] valid_ret)
  have n: "valid (asleep h0) (andThen (osCreate E daemonFilepath)
      (bnd (claimPid E) (\<lambda>mine. if mine then daemonLoop E fuel turns else ret ())))
      (\<lambda>_. asleep h0) (asleep h0)"
    by (rule valid_andThen [OF asleep_valid c]) (simp add: osCreate_def emits_ext)
  show ?thesis unfolding daemonCommandDeal_def osStat_def
    by (rule valid_bnd [OF asleep_valid]) (auto intro: c n valid_ret emits_ext split: statReply.split)
qed

lemma stop_saves:
  assumes "length (eArgs E) \<ge> 3" and "eArgs E ! 2 \<in> {''storage'', ''all''}"
    and "\<And>h. eWriteFile E h runCmdStateFilepath ''stop'' = None"
  shows "stopSaved (trace (snd (StopCommandDeal E s)))"
proof -
  let ?rest = "andThen (stopDcnodeInDocker E) (if eArgs E ! 2 = ''storage'' then ret ()
      else andThen (stopDcchainInDocker E) (stopPccsInDocker E))"
  let ?u = "s\<lparr>trace := EvWriteFile runCmdStateFilepath ''stop'' None # trace s\<rparr>"
  have "StopCommandDeal E s = andThen (setDcnodeCmdState E ''stop'') ?rest s"
    using assms(1,2) by (auto simp: StopCommandDeal_def)
  moreover have "setDcnodeCmdState E ''stop'' s = (Ret None, ?u)"
    using assms(3) by (simp add: setDcnodeCmdState_def osWriteFile_def run)
  ultimately have run: "StopCommandDeal E s = ?rest ?u"
    by (simp add: andThen_def [of "setDcnodeCmdState E ''stop''"] run_bnd_once)
  have stop: "emits (\<lambda>e. \<not> (\<exists>p c r. e = EvWriteFile p c r)) (StopContainer E n w)" for n w
    by (rule stopContainer.weaken) (auto elim: stopEvent.elims)
  have "emits (\<lambda>e. \<not> (\<exists>p c r. e = EvWriteFile p c r)) ?rest"
    unfolding stopDcnodeInDocker_def stopDcchainInDocker_def stopPccsInDocker_def
    by (intro emits_intro stop)
  then obtain new where new: "trace (snd (?rest ?u)) = new @ trace ?u"
      "\<forall>e \<in> set new. \<not> (\<exists>p c r. e = EvWriteFile p c r)" by (rule emitsD)
  have "stopSaved (new @ trace ?u)" using new(2)
  proof (induction new)
    case (Cons e new)
    then show ?case by (cases e) auto
  qed simp
  then show ?thesis using run new(1) by simp
qed

text \<open>C6: A stop by hand holds: after \<open>dc stop storage\<close> or \<open>dc stop all\<close>, a
  background service that is started next (by whatever arguments, in a process of its own)
  never acts on the machine, if files hold what was written to them last.\<close>

theorem stopped_stays_stopped:
  assumes "length (eArgs E) \<ge> 3" and "eArgs E ! 2 \<in> {''storage'', ''all''}"
    and "\<And>h. eWriteFile E h runCmdStateFilepath ''stop'' = None"
    and "\<And>h. stopSaved h \<Longrightarrow> eReadFile D h runCmdStateFilepath = Inr ''stop''"
    and "trace u = trace (snd (StopCommandDeal E s))"
    and "e \<in> set (newEvents (daemonCommandDeal D fuel turns) u)"
  shows "idle e"
proof -
  have a: "asleep (trace u) u" using stop_saves [OF assms(1-3), of s] assms(5) by (simp add: since_def)
  have v: "valid (asleep (trace u)) (daemonCommandDeal D fuel turns) (\<lambda>_. asleep (trace u)) (asleep (trace u))"
    by (rule daemon_asleep) (rule assms(4))
  have "since (trace u) (\<lambda>h. \<forall>e \<in> set h. idle e) (snd (daemonCommandDeal D fuel turns u))"
    using valid_all [OF v, of u] a by blast
  then have "\<forall>e \<in> set (newEvents (daemonCommandDeal D fuel turns) u). idle e" by (rule since_newEvents)
  then show ?thesis using assms(6) by blast
qed

theorem stopped_stays_stopped_witness:
  "\<exists>u. EvSelect True \<in> set (newEvents (daemonCommandDeal (nullEnv\<lparr>eStat := \<lambda>_ _. StatOk,
     eReadFile := \<lambda>_ p. Inr (if p = runCmdStateFilepath then ''stop'' else [])\<rparr>) 0 1) u) \<and> idle (EvSelect True)"
proof -
  let ?E = "nullEnv\<lparr>eArgs := [''dc'', ''stop'', ''storage'']\<rparr>"
  let ?D = "nullEnv\<lparr>eStat := \<lambda>_ _. StatOk, eReadFile := \<lambda>_ p. Inr (if p = runCmdStateFilepath then ''stop'' else [])\<rparr>"
  let ?u = "snd (StopCommandDeal ?E initSt)"
  have ev: "EvSelect True \<in> set (newEvents (daemonCommandDeal ?D 0 1) ?u)"
    by (simp add: daemonCommandDeal_def claimPid_def writePid_def checkDcnodeCmdState_def newEvents_def
        daemonFilepath_def runCmdStateFilepath_def runs nullEnv_def)
  moreover have "idle (EvSelect True)"
    by (rule stopped_stays_stopped [of ?E ?D ?u initSt _ 0 1]) (use ev in \<open>simp_all add: nullEnv_def\<close>)
  ultimately show ?thesis by blast
qed

section \<open>Checksums\<close>

text \<open>The checksum of a file that can be opened and read is the 64 hexadecimal digits
  of the SHA-256 digest of its content; otherwise it is an error, and nothing else is
  done.\<close>

lemma Sha256sum_digits:
  "(\<exists>r. fst (Sha256sum E p s) = Ret r \<and> (case r of
      Inl e \<Rightarrow> eOpen E (trace s) p = Some e \<or> eReadFile E (EvOpen p None # trace s) p = Inl e
    | Inr c \<Rightarrow> \<exists>content. eReadFile E (EvOpen p None # trace s) p = Inr content \<and> c = hexText (sha256 content) \<and>
        length c = 64 \<and> set c \<subseteq> set ''0123456789abcdef''))"
proof -
  have "length (hexText (sha256 c)) = 64" for c by (simp add: hexText_length length_sha256)
  moreover have "set (hexText (sha256 c)) \<subseteq> set hexDigits" for c using hexText_digits by blast
  ultimately show ?thesis
    by (simp add: Sha256sum_def run effects hexDigits_def [symmetric] split: option.split sum.split)
qed

section \<open>Prompts\<close>

text \<open>With the standard input closed every answer is empty, and the prompt is repeated for
  ever.\<close>

lemma askYesNo_closed:
  assumes "\<And>h. eScan E h = []"
  shows "fst (askYesNo E turns s) = NoFuel"
  using assms by (induction turns arbitrary: s)
    (simp_all add: run andThen_def println_def emit_def scanln_def toLower_def)

end
