(* ===== verification/RotateProps.thy ===== *)
theory RotateProps
  imports CliProps
begin

text \<open>
  \<open>dc rotate-keys\<close>: when a session key is returned, and what the command makes of the
  replies of the chain node, decoded as JSON (theory Json).
\<close>

section \<open>Rotating the session keys\<close>

text \<open>C32: A new session key is returned only by a validator whose dcchain container was
  seen running, and it is what dcchain answered to the one request that was made.\<close>

theorem rotate_only_validator:
  assumes "RotateKeyCommandDeal E s = (Ret (key, None), t)"
  shows "ValidatorFlag (RunningConfig s) = ''enable'' \<and>
    (\<exists>i x body res. EvInspect i (Inr x) \<in> set (newEvents (RotateKeyCommandDeal E) s) \<and> Running x \<and>
      EvHttp (POST rotateBody) (chainRpcUrl (RunningConfig s)) (HttpResp 200 body None)
        \<in> set (newEvents (RotateKeyCommandDeal E) s) \<and>
      unmarshalSessionKey body = Some res \<and> key = Result res)"
proof -
  let ?H = "\<lambda>pr r i x l c d. [EvPrint pr, EvHttp (POST rotateBody) (chainRpcUrl (RunningConfig s)) r,
        EvInspect i (Inr x), EvList True l, EvClient c, EvClient d]"
  have "\<exists>i x r body pr l c d. ValidatorFlag (RunningConfig s) = ''enable'' \<and> Running x \<and>
      httpResult ''post'' r = Inr body \<and> map_option Result (unmarshalSessionKey body) = Some key \<and>
      trace t = ?H pr r i x l c d @ trace s"
    using assms
    by (auto simp: RotateKeyCommandDeal_def checkDcchainStatus_def containerStatus_def findContainerIdByName_def
        run effects andThen_def split: option.splits sum.splits if_splits)
  then obtain i x r body pr l c d where *: "ValidatorFlag (RunningConfig s) = ''enable''" "Running x"
      "httpResult ''post'' r = Inr body" "map_option Result (unmarshalSessionKey body) = Some key"
      "trace t = ?H pr r i x l c d @ trace s" by blast
  then have "newEvents (RotateKeyCommandDeal E) s = ?H pr r i x l c d"
    using assms by (intro newEvents_eq) simp
  then show ?thesis using * httpResult_ok [of "''post''" r body] by auto
qed

section \<open>The reply of the chain node\<close>

text \<open>A reply that carries a key, as the node writes it.\<close>

definition keyReply :: "string \<Rightarrow> string" where
  "keyReply key = ''{\"jsonrpc\":\"2.0\",\"result\":\"'' @ key @ ''\",\"id\":1}''"

definition plainText :: "string \<Rightarrow> bool" where
  "plainText x \<longleftrightarrow> (\<forall>c \<in> set x. 32 \<le> code c \<and> code c < 128 \<and> c \<noteq> quote \<and> c \<noteq> backslash)"

lemma scan_append: "scan st (a @ b) = (case scan st a of None \<Rightarrow> None | Some st' \<Rightarrow> scan st' b)"
  by (induction a arbitrary: st) (auto split: option.split)

lemma scan_plain: "plainText x \<Longrightarrow> scan (InStr y, fs) x = Some (InStr (y @ x), fs)"
  by (induction x arbitrary: y) (auto simp: plainText_def)

lemma unquote_plain: "plainText x \<Longrightarrow> unquote x = x"
  by (induction x) (auto simp: plainText_def unquote.simps(2))

lemma replyFields:
  "fieldOf (unquote ''jsonrpc'') = Some FJsonrpc" "fieldOf (unquote ''result'') = Some FResult"
  "fieldOf (unquote ''id'') = Some FID" "fieldOf (unquote ''error'') = None" "unquote ''2.0'' = ''2.0''"
  by code_simp+

lemma replyId: "parseInt 64 ''1'' = (1, None)"
  by (simp add: parseInt_def parseUint_def digitVal_def)

lemma parse_keyReply:
  assumes "plainText key"
  shows "parseJson (keyReply key) =
    Some (JObj [(''jsonrpc'', JStr ''2.0''), (''result'', JStr key), (''id'', JNum ''1'')])"
proof -
  have start: "scan (BeginValue, []) ''{\"jsonrpc\":\"2.0\",\"result\":\"'' =
      Some (InStr [], [ValF [(''jsonrpc'', JStr ''2.0'')] ''result''])"
    by code_simp
  have rest: "scan (InStr key, [ValF [(''jsonrpc'', JStr ''2.0'')] ''result'']) (''\",\"id\":1}'' @ '' '') =
      Some (Done (JObj [(''jsonrpc'', JStr ''2.0''), (''result'', JStr key), (''id'', JNum ''1'')]), [])"
    by code_simp
  show ?thesis
    unfolding parseJson_def keyReply_def append_assoc
    by (simp only: scan_append [of _ "''{\"jsonrpc\":\"2.0\",\"result\":\"''"] start option.case
        scan_append [of _ key] scan_plain [OF assms] append_Nil rest prod.case mode.case list.case)
qed

text \<open>What the command makes of a reply, on a validator whose dcchain runs.\<close>

lemma rotate_reply:
  assumes "checkDcchainStatus E s = (Ret (True, None), u)" and "ValidatorFlag (RunningConfig u) = ''enable''"
    and "HttpPost E (chainRpcUrl (RunningConfig u)) rotateBody u = (Ret (Inr body), v)"
  shows "fst (RotateKeyCommandDeal E s) = (case unmarshalSessionKey body of
      None \<Rightarrow> Ret ([], Some (eJsonErr E body)) | Some res \<Rightarrow> Ret (Result res, None))"
  using assms
  by (auto simp: RotateKeyCommandDeal_def bnd_def reads_def ret_def andThen_def println_def emit_def ext_def
      split: option.split)

text \<open>C31: The session key goes through unchanged: from a reply of the node that carries a
  key of printable ASCII without quotes and backslashes (the keys are hexadecimal), a
  validator's \<open>dc rotate-keys\<close> returns exactly that key and no error.\<close>

theorem rotate_key_roundtrip:
  assumes "plainText key" and "checkDcchainStatus E s = (Ret (True, None), u)"
    and "ValidatorFlag (RunningConfig u) = ''enable''"
    and "HttpPost E (chainRpcUrl (RunningConfig u)) rotateBody u = (Ret (Inr (keyReply key)), v)"
  shows "fst (RotateKeyCommandDeal E s) = Ret (key, None)"
proof -
  have "unmarshalSessionKey (keyReply key) = Some \<lparr>Jsonrpc = ''2.0'', ID = 1, Result = key\<rparr>"
    using unquote_plain [OF assms(1)]
    by (simp add: unmarshalSessionKey_def parse_keyReply [OF assms(1)] storeMember_def noSessionKey_def replyFields replyId)
  then show ?thesis using rotate_reply [OF assms(2-4)] by simp
qed

text \<open>C35: A refusal counts as success: when the node answers with a well-formed JSON object
  that has no result (as JSON-RPC reports an error), whose other members fit their fields,
  \<open>dc rotate-keys\<close> prints an empty session key and returns it without an error.\<close>

theorem rotate_refusal_is_success:
  assumes "checkDcchainStatus E s = (Ret (True, None), u)" and "ValidatorFlag (RunningConfig u) = ''enable''"
    and "HttpPost E (chainRpcUrl (RunningConfig u)) rotateBody u = (Ret (Inr body), v)"
    and "parseJson body = Some (JObj kvs)" and "storeMembers kvs noSessionKey = Some r"
    and "\<And>k x. (k, x) \<in> set kvs \<Longrightarrow> fieldOf (unquote k) \<noteq> Some FResult"
  shows "fst (RotateKeyCommandDeal E s) = Ret ([], None)"
proof -
  have "Result r = Result r0" if "storeMembers kvs r0 = Some r" for r0
    using that assms(6)
  proof (induction kvs arbitrary: r0)
    case (Cons kx kvs)
    obtain k x where kx: "kx = (k, x)" by fastforce
    then obtain r1 where r1: "storeMember k x r0 = Some r1" "storeMembers kvs r1 = Some r"
      using Cons.prems(1) by (auto split: option.splits)
    have "Result r1 = Result r0"
      using r1(1) Cons.prems(2) [of k x] kx
      by (auto simp: storeMember_def split: option.splits field.splits json.splits prod.splits if_splits)
    moreover have "Result r = Result r1"
      by (rule Cons.IH [OF r1(2)]) (use Cons.prems(2) in auto)
    ultimately show ?case by simp
  qed simp
  then have "unmarshalSessionKey body = Some r \<and> Result r = []"
    using assms(4,5) by (simp add: unmarshalSessionKey_def noSessionKey_def)
  then show ?thesis using rotate_reply [OF assms(1-3)] by auto
qed

text \<open>A validator on whose machine dcchain runs and gives a fixed reply.\<close>

definition rotateEnv :: "string \<Rightarrow> env" where
  "rotateEnv body = upgradeEnv\<lparr>eHttp := \<lambda>_ _ _. HttpResp 200 body None\<rparr>"

definition validatorSt :: st where
  "validatorSt = initSt\<lparr>RunningConfig := defaultConfig\<lparr>ValidatorFlag := ''enable''\<rparr>\<rparr>"

lemma rotateEnv_ready:
  assumes "body \<noteq> []"
  obtains u v where "checkDcchainStatus (rotateEnv body) validatorSt = (Ret (True, None), u)"
    and "ValidatorFlag (RunningConfig u) = ''enable''"
    and "HttpPost (rotateEnv body) (chainRpcUrl (RunningConfig u)) rotateBody u = (Ret (Inr body), v)"
  using assms
  by (simp add: checkDcchainStatus_def containerStatus_def findContainerIdByName_def HttpPost_def
      httpResult_def runs rotateEnv_def upgradeEnv_def nullEnv_def validatorSt_def)

lemma plain_sample: "plainText ''0x1f''"
  by code_simp

theorem rotate_key_roundtrip_witness:
  "fst (RotateKeyCommandDeal (rotateEnv (keyReply ''0x1f'')) validatorSt) = Ret (''0x1f'', None)"
proof -
  have "keyReply ''0x1f'' \<noteq> []" by (simp add: keyReply_def)
  then obtain u v where u: "checkDcchainStatus (rotateEnv (keyReply ''0x1f'')) validatorSt = (Ret (True, None), u)"
      "ValidatorFlag (RunningConfig u) = ''enable''"
      "HttpPost (rotateEnv (keyReply ''0x1f'')) (chainRpcUrl (RunningConfig u)) rotateBody u =
        (Ret (Inr (keyReply ''0x1f'')), v)"
    by (rule rotateEnv_ready)
  show ?thesis by (rule rotate_key_roundtrip [OF plain_sample u])
qed

definition refusal :: string where
  "refusal = ''{\"jsonrpc\":\"2.0\",\"error\":{\"code\":-32601},\"id\":1}''"

theorem rotate_refusal_is_success_witness:
  "fst (RotateKeyCommandDeal (rotateEnv refusal) validatorSt) = Ret ([], None)"
proof -
  let ?kvs = "[(''jsonrpc'', JStr ''2.0''), (''error'', JObj [(''code'', JNum ''-32601'')]), (''id'', JNum ''1'')]"
  have parsed: "parseJson refusal = Some (JObj ?kvs)" by code_simp
  have stored: "storeMembers ?kvs noSessionKey = Some \<lparr>Jsonrpc = ''2.0'', ID = 1, Result = []\<rparr>"
    by (simp add: storeMember_def noSessionKey_def replyFields replyId)
  have "refusal \<noteq> []" by (simp add: refusal_def)
  then obtain u v where u: "checkDcchainStatus (rotateEnv refusal) validatorSt = (Ret (True, None), u)"
      "ValidatorFlag (RunningConfig u) = ''enable''"
      "HttpPost (rotateEnv refusal) (chainRpcUrl (RunningConfig u)) rotateBody u = (Ret (Inr refusal), v)"
    by (rule rotateEnv_ready)
  show ?thesis
    by (rule rotate_refusal_is_success [OF u parsed stored]) (auto simp: replyFields)
qed

theorem rotate_only_validator_witness:
  "\<exists>i x. EvInspect i (Inr x) \<in> set (newEvents (RotateKeyCommandDeal (rotateEnv (keyReply ''0x1f'')))
     validatorSt) \<and> Running x"
proof -
  let ?E = "rotateEnv (keyReply ''0x1f'')"
  have "keyReply ''0x1f'' \<noteq> []" by (simp add: keyReply_def)
  then obtain u v where u: "checkDcchainStatus ?E validatorSt = (Ret (True, None), u)"
      "ValidatorFlag (RunningConfig u) = ''enable''"
      "HttpPost ?E (chainRpcUrl (RunningConfig u)) rotateBody u = (Ret (Inr (keyReply ''0x1f'')), v)"
    by (rule rotateEnv_ready)
  have "unmarshalSessionKey (keyReply ''0x1f'') \<noteq> None"
    by (simp add: unmarshalSessionKey_def parse_keyReply [OF plain_sample] storeMember_def
        noSessionKey_def replyFields replyId)
  then obtain key where "fst (RotateKeyCommandDeal ?E validatorSt) = Ret (key, None)"
    using rotate_reply [OF u] by auto
  then obtain t where "RotateKeyCommandDeal ?E validatorSt = (Ret (key, None), t)" by (metis prod.collapse)
  from rotate_only_validator [OF this] show ?thesis by blast
qed

end
