(* ===== verification/GetProps.thy ===== *)
theory GetProps
  imports Cli
begin

text \<open>
  What \<open>dc get\<close> does with its command line (command/command.go,
  \<open>GetFileFromIpfsCommandDeal\<close>), and the lines of \<open>dc checksum\<close>
  (\<open>ChecksumCommandDeal\<close>).
\<close>

section \<open>dc get\<close>










section \<open>dc checksum\<close>

text \<open>What one file adds to the history, newest event first.\<close>

definition checksumEvents :: "env \<Rightarrow> history \<Rightarrow> string \<Rightarrow> history" where
  "checksumEvents E h p = (case eOpen E h p of
     Some x \<Rightarrow> [EvOpen p (Some x)]
   | None \<Rightarrow> (case eReadFile E (EvOpen p None # h) p of
       Inl x \<Rightarrow> [EvReadFile p (Inl x), EvOpen p None]
     | Inr c \<Rightarrow> [EvPrint (hexText (sha256 c) @ [char_of (9 :: nat)] @ p), EvReadFile p (Inr c), EvOpen p None]))"

lemma checksums_step:
  "checksums E (p # ps) s = checksums E ps (s\<lparr>trace := checksumEvents E (trace s) p @ trace s\<rparr>)"
  by (simp add: Sha256sum_def checksumEvents_def runs split: option.split sum.split)

text \<open>What an event tells: the file it opens (and whether it opens), the file it reads, the
  line it prints and the line that its reply calls for.\<close>

definition opens :: "event \<Rightarrow> string list" where
  "opens e = (case e of EvOpen p _ \<Rightarrow> [p] | _ \<Rightarrow> [])"

definition openable :: "event \<Rightarrow> string list" where
  "openable e = (case e of EvOpen p None \<Rightarrow> [p] | _ \<Rightarrow> [])"

definition readsFile :: "event \<Rightarrow> string list" where
  "readsFile e = (case e of EvReadFile p _ \<Rightarrow> [p] | _ \<Rightarrow> [])"

definition prints :: "event \<Rightarrow> string list" where
  "prints e = (case e of EvPrint x \<Rightarrow> [x] | _ \<Rightarrow> [])"

definition digestLine :: "event \<Rightarrow> string list" where
  "digestLine e = (case e of
     EvReadFile p (Inr c) \<Rightarrow> [hexText (sha256 c) @ [char_of (9 :: nat)] @ p] | _ \<Rightarrow> [])"

text \<open>The tellings of a history, oldest first.\<close>

definition telling :: "(event \<Rightarrow> 'a list) \<Rightarrow> history \<Rightarrow> 'a list" where
  "telling f h = concat (map f (rev h))"

lemma telling_append: "telling f (new @ old) = telling f old @ telling f new"
  by (simp add: telling_def)

lemma telling_one:
  "telling opens (checksumEvents E h p) = [p]"
  "telling readsFile (checksumEvents E h p) = telling openable (checksumEvents E h p)"
  "telling prints (checksumEvents E h p) = telling digestLine (checksumEvents E h p)"
  by (simp_all add: checksumEvents_def telling_def opens_def readsFile_def openable_def prints_def digestLine_def
      split: option.split sum.split)

lemma checksums_lines:
  "\<exists>t new. checksums E files s = (Ret (), t) \<and> trace t = new @ trace s \<and> telling opens new = files \<and>
     telling readsFile new = telling openable new \<and> telling prints new = telling digestLine new"
proof (induction files arbitrary: s)
  case (Cons p ps)
  let ?one = "checksumEvents E (trace s) p"
  obtain t new where "checksums E ps (s\<lparr>trace := ?one @ trace s\<rparr>) = (Ret (), t)"
      "trace t = new @ ?one @ trace s" "telling opens new = ps"
      "telling readsFile new = telling openable new" "telling prints new = telling digestLine new"
    using Cons [of "s\<lparr>trace := ?one @ trace s\<rparr>"] by auto
  then show ?case
    by (intro exI [of _ t] exI [of _ "new @ ?one"])
      (simp add: checksums_step telling_append telling_one del: checksums.simps)
qed (simp add: run telling_def)

text \<open>C40: \<open>dc checksum\<close> opens the files of its command line one after another, each
  once and in their order, reads those that open, and prints for each that can be read, in
  the same order, one line: the hexadecimal digits of the SHA-256 digest of what was read, a
  tab and the name. A file that cannot be opened or read is skipped, and the command returns
  normally all the same.\<close>

theorem checksum_lines:
  assumes "eArgs E = prog # verb # files" and "files \<noteq> []"
  shows "\<exists>t new. ChecksumCommandDeal E s = (Ret (), t) \<and> trace t = new @ trace s \<and>
     telling opens new = files \<and> telling readsFile new = telling openable new \<and>
     telling prints new = telling digestLine new"
  using assms checksums_lines [of E files s] by (cases files) (simp_all add: ChecksumCommandDeal_def del: checksums.simps)

text \<open>Three files: the second cannot be read.\<close>

definition sumEnv :: env where
  "sumEnv = nullEnv\<lparr>eArgs := [''dc'', ''checksum'', ''a'', ''b'', ''a''],
     eReadFile := (\<lambda>_ p. if p = ''a'' then Inr ''abc'' else Inl nope)\<rparr>"

theorem checksum_lines_witness:
  "\<exists>t. ChecksumCommandDeal sumEnv initSt = (Ret (), t) \<and> telling opens (trace t) = [''a'', ''b'', ''a''] \<and>
     telling prints (trace t) = [hexText (sha256 ''abc'') @ [char_of (9 :: nat)] @ ''a'',
       hexText (sha256 ''abc'') @ [char_of (9 :: nat)] @ ''a'']"
proof -
  obtain t where t: "ChecksumCommandDeal sumEnv initSt = (Ret (), t)"
      "telling opens (trace t) = [''a'', ''b'', ''a'']" "telling prints (trace t) = telling digestLine (trace t)"
    using checksum_lines [of sumEnv "''dc''" "''checksum''" "[''a'', ''b'', ''a'']" initSt]
    by (auto simp: sumEnv_def initSt_def)
  have "t = snd (checksums sumEnv [''a'', ''b'', ''a''] initSt)"
    using t(1) by (simp add: ChecksumCommandDeal_def sumEnv_def del: checksums.simps)
  then have "telling digestLine (trace t) = [hexText (sha256 ''abc'') @ [char_of (9 :: nat)] @ ''a'',
       hexText (sha256 ''abc'') @ [char_of (9 :: nat)] @ ''a'']"
    by (simp add: checksums_step checksumEvents_def sumEnv_def sample initSt_def run telling_def digestLine_def
        del: checksums.simps(2))
  then show ?thesis using t by auto
qed

end
