(* ===== verification/MainProg.thy ===== *)
theory MainProg
  imports Cli
begin

text \<open>
  The program (dc/main.go): the log is set up, the configuration is created when it is missing, read, given
  a random node name when it has none, and the command of the first argument is run. When
  \<open>main\<close> returns, the process ends with status 0.
\<close>

section \<open>The program\<close>

definition runCommand :: "env \<Rightarrow> nat \<Rightarrow> nat \<Rightarrow> string \<Rightarrow> unit go" where
  "runCommand E fuel turns arg =
     (if arg = ''config'' then ConfigCommandDeal E turns
      else if arg = ''start'' then StartCommandDeal E
      else if arg = ''stop'' then StopCommandDeal E
      else if arg = ''status'' then StatusCommandDeal E
      else if arg = ''log'' then LogCommandDeal E
      else if arg = ''upgrade'' then UpgradeCommandDeal E fuel turns
      else if arg = ''uniqueid'' then UniqueIdCommandDeal E
      else if arg = ''peerinfo'' then PeerInfoCommandDeal E
      else if arg = ''memusage'' then MemoryUsageCommandDeal E
      else if arg = ''checksum'' then ChecksumCommandDeal E
      else if arg = ''get'' then GetFileFromIpfsCommandDeal E fuel
      else if arg = ''rotate-keys'' then andThen (RotateKeyCommandDeal E) (ret ())
      else if arg = ''pccs_api_key'' then PccsApiKeyCommandDeal E
      else if arg = ''blockgc'' then BlockGcCommandDeal E
      else ShowHelp E)"

text \<open>An empty argument list makes the index of the first argument panic.\<close>

definition dispatch :: "env \<Rightarrow> nat \<Rightarrow> nat \<Rightarrow> unit go" where
  "dispatch E fuel turns =
     (if length (eArgs E) = 1 then andThen (ShowHelp E) (exitWith 1)
      else if eArgs E = [] then panic
      else bnd (reads (\<lambda>s. ValidatorFlag (RunningConfig s))) (\<lambda>flag.
        if flag = [] \<and> eArgs E ! 1 \<noteq> ''config''
        then andThen (println ''please config chain first,use command:  dc config'') (exitWith 0)
        else andThen (runCommand E fuel turns (eArgs E ! 1)) (exitWith 1)))"

text \<open>\<open>None\<close>: the configuration has a node name, and was saved if it is new.\<close>

definition nameNode :: "env \<Rightarrow> err go" where
  "nameNode E =
     bnd (reads (\<lambda>s. ChainNodeName (RunningConfig s))) (\<lambda>name.
       if name = []
       then bnd (RandStringBytes E 12) (\<lambda>suffix.
            andThen (modify (\<lambda>s. s\<lparr>RunningConfig := (RunningConfig s)\<lparr>ChainNodeName := ''dcnet_'' @ suffix\<rparr>\<rparr>))
                    (bnd (reads RunningConfig) (SaveConfig E)))
       else ret None)"

definition configured :: "env \<Rightarrow> unit go \<Rightarrow> unit go" where
  "configured E body =
     bnd (ReadConfig E) (\<lambda>cfg.
     andThen (modify (\<lambda>s. s\<lparr>RunningConfig := cfg\<rparr>))
    (bnd (nameNode E) (\<lambda>e. if e \<noteq> None then ret () else body)))"

definition mainBody :: "env \<Rightarrow> nat \<Rightarrow> nat \<Rightarrow> unit go" where
  "mainBody E fuel turns =
     bnd (osStat E Config_file_path) (\<lambda>r. case r of
       StatErr _ \<Rightarrow> ret ()
     | StatNotExist _ \<Rightarrow> bnd (bnd (reads RunningConfig) (SaveConfig E)) (\<lambda>e.
         if e \<noteq> None then ret () else configured E (dispatch E fuel turns))
     | StatOk \<Rightarrow> configured E (dispatch E fuel turns))"

text \<open>The log (util/util.go): its errors are dropped by \<open>main\<close>.\<close>

definition logpath :: string where
  "logpath = ''/opt/dcnetio/log''"

definition SetupDefaultLoggingConfig :: "env \<Rightarrow> string \<Rightarrow> err go" where
  "SetupDefaultLoggingConfig E file =
     checkE (if file \<noteq> [] then osMkdirAll E (filepathDir file) else ret None)
    (andThen (osChmod E file)
    (bnd (setupLogging E file) (\<lambda>returned. if returned then ret None else panic)))"

definition mainProg :: "env \<Rightarrow> nat \<Rightarrow> nat \<Rightarrow> unit go" where
  "mainProg E fuel turns =
     andThen (SetupDefaultLoggingConfig E logpath) (mainBody E fuel turns)"

section \<open>When main returns\<close>

lemma dispatch_ends: "fst (dispatch E fuel turns s) \<noteq> Ret x"
proof -
  have "fst (andThen m (exitWith c) s) \<noteq> Ret x" for m :: "unit go" and c
    by (simp add: andThen_def run split: prod.split outcome.split)
  then show ?thesis by (simp add: dispatch_def run)
qed

lemma nameNode_nil: "fst (nameNode E s) = Ret e \<Longrightarrow> e = None"
  by (auto simp: nameNode_def andThen_def SaveConfig_def osWriteFile_def run
      split: if_splits outcome.splits sum.splits option.splits)

lemma configured_ends:
  assumes "\<And>s. fst (body s) \<noteq> Ret ()"
  shows "fst (configured E body s) \<noteq> Ret ()"
proof
  assume "fst (configured E body s) = Ret ()"
  then obtain t where "configured E body s = (Ret (), t)" by (metis prod.collapse)
  then obtain cfg u e v where "nameNode E u = (Ret e, v)" "(if e \<noteq> None then ret () else body) v = (Ret (), t)"
    unfolding configured_def andThen_def by (auto elim!: bnd_Ret simp del: not_None_eq)
  then show False using nameNode_nil [of E u e] assms [of v] by auto
qed

text \<open>\<open>main\<close> returns, with exit status 0, only when the configuration file cannot
  be examined; every command that completes ends the process with status 1, and so does
  every help page.\<close>

lemma mainBody_returns_iff_unreadable:
  "fst (mainBody E fuel turns s) = Ret () \<longleftrightarrow> (\<exists>e. eStat E (trace s) Config_file_path = StatErr e)"
proof -
  have c: "fst (configured E (dispatch E fuel turns) u) \<noteq> Ret ()" for u
    by (rule configured_ends) (rule dispatch_ends)
  show ?thesis
    using c by (auto simp: mainBody_def osStat_def SaveConfig_def osWriteFile_def run
        split: statReply.splits sum.splits option.splits)
qed

lemma main_returns_unreadable:
  assumes "mainProg E fuel turns s = (Ret (), t)"
  shows "\<exists>u e. SetupDefaultLoggingConfig E logpath s = (Ret e, u) \<and>
    mainBody E fuel turns u = (Ret (), t) \<and> (\<exists>x. eStat E (trace u) Config_file_path = StatErr x)"
proof -
  obtain e u where u: "SetupDefaultLoggingConfig E logpath s = (Ret e, u)" "mainBody E fuel turns u = (Ret (), t)"
    using bnd_RetD [OF assms [unfolded mainProg_def andThen_def]] by blast
  then show ?thesis using mainBody_returns_iff_unreadable [of E fuel turns u] by simp
qed

section \<open>The guard of main\<close>

fun setupEvent :: "event \<Rightarrow> bool" where
  "setupEvent (EvStat p _) = (p = Config_file_path)"
| "setupEvent (EvReadFile p _) = (p = Config_file_path)"
| "setupEvent (EvWriteFile p _ _) = (p = Config_file_path)"
| "setupEvent (EvMkdirAll p _) = (p = filepathDir logpath)"
| "setupEvent (EvChmod p _) = (p = logpath)"
| "setupEvent (EvSetupLog p _) = (p = logpath)"
| "setupEvent (EvRand _ _) = True"
| "setupEvent (EvPrint _) = True"
| "setupEvent _ = False"

lemma emits_printLines: "emits setupEvent (printLines ls)"
  by (induction ls) (auto simp: println_def intro!: emits_intro)

lemma emits_RandString: "emits setupEvent (RandStringBytes E n)"
  by (induction n) (auto simp: randIntn_def intro!: emits_intro)

lemma emits_log: "emits setupEvent (SetupDefaultLoggingConfig E logpath)"
  unfolding SetupDefaultLoggingConfig_def osMkdirAll_def osChmod_def setupLogging_def
  by (intro emits_intro) simp_all

lemma config_setup: "configEvent e \<Longrightarrow> setupEvent e"
  by (cases e) auto

lemma emits_nameNode: "emits setupEvent (nameNode E)"
  unfolding nameNode_def
  by (intro emits_intro emits_RandString saveConfig.weaken) (auto intro: config_setup)

lemma keeps_nameNode: "keeps (\<lambda>s. ValidatorFlag (RunningConfig s)) (nameNode E)"
proof -
  have "keeps (\<lambda>s. ValidatorFlag (RunningConfig s)) (SaveConfig E cfg)" for cfg
    unfolding SaveConfig_def effects by (intro emits_intro; simp)
  then show ?thesis unfolding nameNode_def by (intro emits_intro; simp)
qed

lemma emits_valid:
  assumes "emits A m" and "\<And>s x t. m s = (Ret x, t) \<Longrightarrow> Q x t"
  shows "valid (since h0 (\<lambda>h. \<forall>e \<in> set h. A e)) m
    (\<lambda>x t. since h0 (\<lambda>h. \<forall>e \<in> set h. A e) t \<and> Q x t) (since h0 (\<lambda>h. \<forall>e \<in> set h. A e))"
  unfolding valid_def
proof (intro allI impI)
  fix s assume "since h0 (\<lambda>h. \<forall>e \<in> set h. A e) s"
  then obtain h where h: "trace s = h @ h0" "\<forall>e \<in> set h. A e" by (auto simp: since_def)
  obtain new where "trace (snd (m s)) = new @ trace s" "\<forall>e \<in> set new. A e"
    using assms(1) by (rule emitsD)
  then have s: "since h0 (\<lambda>h. \<forall>e \<in> set h. A e) (snd (m s))" using h unfolding since_def by auto
  show "post (\<lambda>x t. since h0 (\<lambda>h. \<forall>e \<in> set h. A e) t \<and> Q x t) (since h0 (\<lambda>h. \<forall>e \<in> set h. A e)) (m s)"
    using s assms(2) by (cases "m s"; cases "fst (m s)") auto
qed

abbreviation setUp :: "history \<Rightarrow> st \<Rightarrow> bool" where
  "setUp h0 \<equiv> since h0 (\<lambda>h. \<forall>e \<in> set h. setupEvent e)"

abbreviation unconfigured :: "st \<Rightarrow> bool" where
  "unconfigured s \<equiv> ValidatorFlag (RunningConfig s) = []"

lemma setup_valid: "emits setupEvent m \<Longrightarrow> valid (setUp h0) m (\<lambda>_. setUp h0) (setUp h0)"
  by (rule valid_emits) auto

lemma dispatch_guard:
  assumes "eArgs E \<noteq> []" and "length (eArgs E) = 1 \<or> eArgs E ! 1 \<noteq> ''config''"
  shows "valid (\<lambda>s. setUp h0 s \<and> unconfigured s) (dispatch E fuel turns) (\<lambda>_. setUp h0) (setUp h0)"
proof -
  have say: "emits setupEvent (andThen (println x) (exitWith c :: unit go))" for x c
    unfolding println_def by (intro emits_intro) simp
  have page: "emits setupEvent (andThen (ShowHelp E) (exitWith c :: unit go))" for c
    unfolding ShowHelp_def by (intro emits_intro emits_printLines)
  have "\<exists>m. emits setupEvent m \<and> (\<forall>s. unconfigured s \<longrightarrow> dispatch E fuel turns s = m s)"
  proof (cases "length (eArgs E) = 1")
    case True
    then show ?thesis by (intro exI [of _ "andThen (ShowHelp E) (exitWith 1)"]) (simp add: dispatch_def page)
  next
    case False
    then show ?thesis using assms
      by (intro exI [of _ "andThen (println ''please config chain first,use command:  dc config'') (exitWith 0)"])
        (simp add: dispatch_def say run)
  qed
  then obtain m where m: "emits setupEvent m" "\<And>s. unconfigured s \<Longrightarrow> dispatch E fuel turns s = m s" by blast
  show ?thesis unfolding valid_def using m(2) validD [OF setup_valid [OF m(1)]] by auto
qed

lemma configured_guard:
  assumes "eArgs E \<noteq> []" and "length (eArgs E) = 1 \<or> eArgs E ! 1 \<noteq> ''config''"
    and "\<And>y c. yamlUnmarshal E y = Inr c \<Longrightarrow> ValidatorFlag c = []"
  shows "valid (setUp h0) (configured E (dispatch E fuel turns)) (\<lambda>_. setUp h0) (setUp h0)"
  unfolding configured_def
proof (rule valid_bnd)
  have "emits setupEvent (ReadConfig E)" by (intro readConfig.weaken) (rule config_setup)
  then show "valid (setUp h0) (ReadConfig E) (\<lambda>cfg t. setUp h0 t \<and> ValidatorFlag cfg = []) (setUp h0)"
    by (rule emits_valid) (auto simp: ReadConfig_def run effects split: sum.splits dest: assms(3))
next
  fix cfg
  have set: "valid (\<lambda>t. setUp h0 t \<and> ValidatorFlag cfg = []) (modify (\<lambda>s. s\<lparr>RunningConfig := cfg\<rparr>))
      (\<lambda>_ t. setUp h0 t \<and> unconfigured t) (setUp h0)"
    by (rule valid_modify) (auto simp: since_def)
  have name: "valid (\<lambda>t. setUp h0 t \<and> unconfigured t) (nameNode E)
      (\<lambda>_ t. setUp h0 t \<and> unconfigured t) (setUp h0)"
    unfolding valid_def
  proof (intro allI impI)
    fix s assume s: "setUp h0 s \<and> unconfigured s"
    have "unconfigured (snd (nameNode E s))" using keepsD [OF keeps_nameNode] s by simp
    moreover have "setUp h0 (snd (nameNode E s))" using valid_all [OF setup_valid [OF emits_nameNode]] s by blast
    ultimately show "post (\<lambda>_ t. setUp h0 t \<and> unconfigured t) (setUp h0) (nameNode E s)"
      by (cases "nameNode E s"; cases "fst (nameNode E s)") auto
  qed
  show "valid (\<lambda>t. setUp h0 t \<and> ValidatorFlag cfg = []) (andThen (modify (\<lambda>s. s\<lparr>RunningConfig := cfg\<rparr>))
      (bnd (nameNode E) (\<lambda>e. if e \<noteq> None then ret () else dispatch E fuel turns))) (\<lambda>_. setUp h0) (setUp h0)"
    by (rule valid_andThen [OF set valid_bnd [OF name]])
      (auto intro!: valid_ret dispatch_guard [OF assms(1,2)])
qed

text \<open>C20: As long as the configuration names no mode for the chain node, every command but
  \<open>config\<close> is refused: the program touches nothing but its log and its configuration file,
  contacts no service and starts, stops and removes nothing.\<close>

theorem main_refuses_unconfigured:
  assumes "eArgs E \<noteq> []" and "length (eArgs E) = 1 \<or> eArgs E ! 1 \<noteq> ''config''"
    and "\<And>y c. yamlUnmarshal E y = Inr c \<Longrightarrow> ValidatorFlag c = []"
    and "e \<in> set (newEvents (mainProg E fuel turns) s)"
  shows "setupEvent e"
proof -
  note body = configured_guard [OF assms(1-3)]
  have save: "valid (setUp (trace s)) (bnd (reads RunningConfig) (SaveConfig E)) (\<lambda>_. setUp (trace s)) (setUp (trace s))"
    by (intro setup_valid emits_intro saveConfig.weaken config_setup)
  have new: "valid (setUp (trace s)) (bnd (bnd (reads RunningConfig) (SaveConfig E)) (\<lambda>e.
      if e \<noteq> None then ret () else configured E (dispatch E fuel turns))) (\<lambda>_. setUp (trace s)) (setUp (trace s))"
    by (rule valid_bnd [OF save]) (simp add: body valid_ret)
  have "valid (setUp (trace s)) (mainBody E fuel turns) (\<lambda>_. setUp (trace s)) (setUp (trace s))"
    unfolding mainBody_def osStat_def
    by (rule valid_bnd [OF setup_valid]) (auto simp del: not_None_eq intro: new body valid_ret emits_ext split: statReply.split)
  then have "valid (setUp (trace s)) (mainProg E fuel turns) (\<lambda>_. setUp (trace s)) (setUp (trace s))"
    unfolding mainProg_def by (rule valid_andThen [OF setup_valid [OF emits_log]])
  from valid_all [OF this, of s] have "setUp (trace s) (snd (mainProg E fuel turns s))"
    by (simp add: since_def)
  then have "\<forall>e \<in> set (newEvents (mainProg E fuel turns) s). setupEvent e"
    by (rule since_newEvents)
  then show ?thesis using assms(4) by blast
qed

theorem main_refuses_unconfigured_witness:
  "\<exists>e. e \<in> set (newEvents (mainProg (nullEnv\<lparr>eArgs := [''dc'', ''stop'', ''all''], eStat := \<lambda>_ _. StatOk,
     eReadFile := \<lambda>_ _. Inr ''x'', eYamlParse := \<lambda>_. Inr (configYaml (defaultConfig\<lparr>ChainNodeName := ''n''\<rparr>))\<rparr>) 0 0) initSt) \<and> setupEvent e"
proof -
  let ?E = "nullEnv\<lparr>eArgs := [''dc'', ''stop'', ''all''], eStat := \<lambda>_ _. StatOk,
     eReadFile := \<lambda>_ _. Inr ''x'', eYamlParse := \<lambda>_. Inr (configYaml (defaultConfig\<lparr>ChainNodeName := ''n''\<rparr>))\<rparr>"
  let ?e = "EvPrint ''please config chain first,use command:  dc config''"
  have "?e \<in> set (newEvents (mainProg ?E 0 0) initSt)"
    by (simp add: mainProg_def SetupDefaultLoggingConfig_def mainBody_def configured_def ReadConfig_def yamlUnmarshal_def nameNode_def dispatch_def runs nullEnv_def
        newEvents_def initSt_def defaultConfig_def)
  moreover have "setupEvent ?e"
    using main_refuses_unconfigured [of ?E ?e 0 0 initSt] calculation
    by (simp add: defaultConfig_def)
  ultimately show ?thesis by blast
qed

end
