(* ===== verification/Foreign.thy ===== *)
theory Foreign
  imports ServiceSpec MainProg
begin

text \<open>
  What the manager leaves alone: a machine may run containers that have nothing to do with
  it, and no command may touch them. Every command is shown to be confined (theory Confine)
  to the five containers of the manager; only an upgrade reaches further, because it removes
  a container by its image. Also: what \<open>dc stop all\<close> and the start of dcchain achieve.
\<close>

section \<open>The containers of the manager\<close>

definition managerNames :: "string set" where
  "managerNames = {nodeContainerName, chainContainerName, upgradeContainerName,
     teeReportServerContainerName, pccsContainerName}"

abbreviation ours :: "daemonContainer \<Rightarrow> bool" where
  "ours c \<equiv> d_name c \<in> managerNames"

lemma nodeNames_ours: "d_name c \<in> nodeNames \<Longrightarrow> ours c"
  by (auto simp: nodeNames_def managerNames_def)

lemma neutral_chain: "chainEvent e \<Longrightarrow> neutral e"
  by (cases e) (auto simp: neutral_def)

lemma neutral_download: "downloadEvent e \<Longrightarrow> neutral e"
  by (cases e) (auto simp: neutral_def)

lemma neutral_setup: "setupEvent e \<Longrightarrow> neutral e"
  by (cases e) (auto simp: neutral_def)

lemma neutral_config: "configEvent e \<Longrightarrow> neutral e"
  by (cases e) (auto simp: neutral_def)

lemmas confined_plain = confined_events [OF _ neutral_plain]
lemmas confined_query = confined_events [OF _ neutral_chain]

section \<open>The parts of the commands\<close>

lemma confined_chain:
  "dockerOK E d0 \<Longrightarrow> (\<And>c. d_name c = chainContainerName \<Longrightarrow> Q c) \<Longrightarrow> confined d0 Q (startDcChain E)"
  unfolding startDcChain_def startDcchainInDocker_def effects
  by (intro confined_intro startOp.confined) (auto simp: neutral_def)

lemma confined_upgradeStart:
  "dockerOK E d0 \<Longrightarrow> (\<And>c. d_name c = upgradeContainerName \<Longrightarrow> Q c) \<Longrightarrow>
   confined d0 Q (startDcupgradeInDocker E)"
  unfolding startDcupgradeInDocker_def by (intro confined_intro startOp.confined)

lemma confined_stops:
  assumes "dockerOK E d0"
  shows "confined d0 ours (stopDcnodeInDocker E)" and "confined d0 ours (stopUpgradeInDocker E)"
    and "confined d0 ours (stopDcchainInDocker E)" and "confined d0 ours (stopPccsInDocker E)"
  unfolding stopDcnodeInDocker_def stopUpgradeInDocker_def stopDcchainInDocker_def stopPccsInDocker_def
  by (intro confined_intro stopOp.confined [OF assms]; simp add: managerNames_def)+

lemma confined_status [confined_intro]: "confined d0 Q (containerStatus E n)"
  by (rule confined_plain) (rule emits_containerStatus)

lemma confined_checks [confined_intro]:
  "confined d0 Q (checkDcnodeStatus E)" "confined d0 Q (checkDcchainStatus E)"
  "confined d0 Q (checkPccsStatus E)"
  unfolding checkDcnodeStatus_def checkDcchainStatus_def
  by (rule confined_status confined_plain [OF pccsStatus.events])+

lemma confined_help [confined_intro]: "confined d0 Q (ShowHelp E)"
  unfolding ShowHelp_def by (rule confined_events [OF emits_printLines neutral_setup])

lemma confined_save [confined_intro]: "confined d0 Q (SaveConfig E cfg)"
  by (rule confined_events [OF saveConfig.events neutral_config])

lemma confined_logs [confined_intro]: "confined d0 Q (showContainerLog E n k)"
  unfolding showContainerLog_def showLogsForContainer_def findContainerIdByName_def ContainerLogs_def
    copyLogs_def handleInterruptSignal_def ContainerInspect_def effects
  by (intro confined_intro) (simp_all add: neutral_def)

lemma confined_daemonStatus [confined_intro]: "confined d0 Q (checkDcDeamonStatusDc E)"
  unfolding checkDcDeamonStatusDc_def osReadFile_def findProcess_def
  by (intro confined_intro) (simp_all add: neutral_def)

section \<open>The commands\<close>

lemma confined_asks [confined_intro]: "confined d0 Q (askYesNo E turns)" "confined d0 Q (askKey E turns)"
  by (induction turns)
    (auto intro!: confined_intro simp: scanln_def Let_def neutral_def)

lemma confined_ConfigCommand:
  assumes "dockerOK E d0" shows "confined d0 ours (ConfigCommandDeal E turns)"
  unfolding ConfigCommandDeal_def cleanOld_def askValidator_def askPccsKey_def removeDockerContainer_def
    osRemoveAll_def
  by (intro confined_intro confined_chain [OF assms] removeOp.confined [OF assms])
    (auto simp: managerNames_def neutral_def)

lemma confined_StartCommand:
  assumes "dockerOK E d0" shows "confined d0 ours (StartCommandDeal E)"
  unfolding StartCommandDeal_def startStorage_def setDcnodeCmdState_def osWriteFile_def
  by (intro confined_intro confined_chain [OF assms] confined_pccs [OF assms] confined_node [OF assms])
    (auto simp: managerNames_def nodeNames_def neutral_def)

lemma confined_StopCommand:
  assumes "dockerOK E d0" shows "confined d0 ours (StopCommandDeal E)"
  unfolding StopCommandDeal_def setDcnodeCmdState_def osWriteFile_def
  by (intro confined_intro confined_stops [OF assms]) (simp_all add: neutral_def)

lemma confined_list [confined_intro]:
  "confined d0 Q n \<Longrightarrow> (\<And>x xs. confined d0 Q (f x xs)) \<Longrightarrow>
   confined d0 Q (case r of [] \<Rightarrow> n | x # xs \<Rightarrow> f x xs)"
  by (cases r) auto

lemma confined_queries:
  "confined d0 Q (StatusCommandDeal E)" "confined d0 Q (LogCommandDeal E)"
  "confined d0 Q (UniqueIdCommandDeal E)" "confined d0 Q (PeerInfoCommandDeal E)"
  "confined d0 Q (MemoryUsageCommandDeal E)" "confined d0 Q (BlockGcCommandDeal E)"
  "confined d0 Q (RotateKeyCommandDeal E)" "confined d0 Q (PccsApiKeyCommandDeal E)"
  unfolding StatusCommandDeal_def printStatus_def LogCommandDeal_def UniqueIdCommandDeal_def
    PeerInfoCommandDeal_def MemoryUsageCommandDeal_def BlockGcCommandDeal_def RotateKeyCommandDeal_def
    PccsApiKeyCommandDeal_def getVersionByHttpGet_def getPeerInfoByHttpGet_def
    getMemoryUsageByHttpGet_def sendBlockGcCommand_def
  by (intro confined_intro; simp)+

lemma confined_checksums: "confined d0 Q (checksums E fs)"
  by (induction fs)
    (auto intro!: confined_intro simp: Sha256sum_def osOpen_def osReadFile_def neutral_def)

lemma confined_flagErr [confined_intro]:
  "confined d0 Q m \<Longrightarrow> confined d0 Q k \<Longrightarrow> confined d0 Q (case e of FlagHelp \<Rightarrow> m | FlagBad \<Rightarrow> k)"
  by (cases e) auto

lemma confined_transfers:
  "confined d0 Q (ChecksumCommandDeal E)" "confined d0 Q (GetFileFromIpfsCommandDeal E fuel)"
  unfolding ChecksumCommandDeal_def GetFileFromIpfsCommandDeal_def Let_def
  by (intro confined_intro confined_checksums confined_query [OF peersForCid.events]
      confined_events [OF ipfsDownload.events neutral_download])+

lemma confined_runCommand:
  assumes "dockerOK E d0" and "arg \<noteq> ''upgrade''"
  shows "confined d0 ours (runCommand E fuel turns arg)"
  unfolding runCommand_def using assms(2)
  by (intro confined_if confined_ConfigCommand [OF assms(1)] confined_StartCommand [OF assms(1)]
      confined_StopCommand [OF assms(1)] confined_queries confined_transfers confined_andThen
      confined_ret confined_help) simp_all

lemma confined_configured:
  "confined d0 Q body \<Longrightarrow> confined d0 Q (configured E body)"
  unfolding configured_def
  by (intro confined_intro confined_events [OF readConfig.events neutral_config]
      confined_events [OF emits_nameNode neutral_setup]) simp_all

lemma confined_main:
  assumes ok: "dockerOK E d0" and arg: "length (eArgs E) \<ge> 2 \<Longrightarrow> eArgs E ! 1 \<noteq> ''upgrade''"
  shows "confined d0 ours (mainProg E fuel turns)"
proof -
  have "confined d0 ours (runCommand E fuel turns (eArgs E ! 1))" if "length (eArgs E) \<noteq> 1" "eArgs E \<noteq> []"
  proof -
    have "length (eArgs E) \<ge> 2" using that by (cases "eArgs E" rule: remdups_adj.cases) auto
    then show ?thesis using confined_runCommand [OF ok] arg by blast
  qed
  then have "confined d0 ours (dispatch E fuel turns)"
    unfolding dispatch_def by (intro confined_intro)
  then show ?thesis
    unfolding mainProg_def mainBody_def SetupDefaultLoggingConfig_def osMkdirAll_def osChmod_def
      setupLogging_def osStat_def
    by (intro confined_intro confined_configured) (simp_all add: neutral_def)
qed

section \<open>The upgrade\<close>

text \<open>An upgrade removes the first container whose image is the configured one or has
  dcstorage in its name, whatever the container is called.\<close>

definition upgradable :: "DcManageConfig \<Rightarrow> daemonContainer \<Rightarrow> bool" where
  "upgradable cfg c \<longleftrightarrow> ours c \<or> d_image c = NodeImage cfg \<or> contains (d_image c) ''dcstorage''"

lemma ours_upgradable: "d_name c \<in> managerNames \<Longrightarrow> upgradable cfg c"
  by (simp add: upgradable_def)

text \<open>\<open>confinedAt cfg d0 Q m\<close>: \<open>m\<close> is confined when it starts with the configuration
  \<open>cfg\<close>.\<close>

definition confinedAt :: "DcManageConfig \<Rightarrow> daemonContainer list \<Rightarrow> (daemonContainer \<Rightarrow> bool) \<Rightarrow> 'a go \<Rightarrow> bool" where
  "confinedAt cfg d0 Q m \<longleftrightarrow> (\<forall>s :: st. RunningConfig s = cfg \<longrightarrow> daemonInv (daemonAt d0 (trace s)) \<longrightarrow>
     sparing Q (daemonAt d0 (trace s)) (daemonAt d0 (trace (snd (m s)))))"

lemma confinedAt_any: "confined d0 Q m \<Longrightarrow> confinedAt cfg d0 Q m"
  by (simp add: confinedAt_def confined_def)

lemma sparing_bnd:
  assumes "sparing Q d (daemonAt d0 (trace (snd (m s))))"
    and "\<And>x u. m s = (Ret x, u) \<Longrightarrow> daemonInv (daemonAt d0 (trace u)) \<Longrightarrow>
      sparing Q (daemonAt d0 (trace u)) (daemonAt d0 (trace (snd (f x u))))"
  shows "sparing Q d (daemonAt d0 (trace (snd (bnd m f s))))"
proof (cases "m s")
  case (Pair r u)
  then show ?thesis
    using assms sparing_inv sparing_trans by (cases r) (auto simp: run)
qed

lemma confinedAt_bnd:
  assumes "confined d0 Q m" and "keeps RunningConfig m" and "\<And>x. confinedAt cfg d0 Q (f x)"
  shows "confinedAt cfg d0 Q (bnd m f)"
  unfolding confinedAt_def
proof (intro allI impI)
  fix s :: st assume s: "RunningConfig s = cfg" "daemonInv (daemonAt d0 (trace s))"
  have "RunningConfig u = cfg" if "m s = (r, u)" for r u
    using keepsD [OF assms(2), of s] that s(1) by simp
  then show "sparing Q (daemonAt d0 (trace s)) (daemonAt d0 (trace (snd (bnd m f s))))"
    using assms(1,3) s by (intro sparing_bnd) (auto simp: confined_def confinedAt_def)
qed

lemma confinedAt_then:
  assumes "confinedAt cfg d0 Q m" and "\<And>x. confined d0 Q (f x)"
  shows "confinedAt cfg d0 Q (bnd m f)"
  unfolding confinedAt_def
  using assms by (intro allI impI sparing_bnd) (auto simp: confined_def confinedAt_def)

text \<open>The removal.\<close>

lemma remove_by_id:
  assumes "daemonInv d" and "c \<in> set d" and "Q c"
  shows "sparing Q d (daemonStep (EvRemove (d_id c) e) d)"
proof (cases e)
  case None
  have "filter (\<lambda>x. \<not> Q x) (filter (\<lambda>x. \<not> refers (d_id c) x) d) = filter (\<lambda>x. \<not> Q x) d"
    unfolding filter_filter using assms refers_id [OF assms(1,2)] by (intro filter_cong) auto
  then show ?thesis using None assms(1) by (simp add: sparing_def daemonInv_filter)
next
  case (Some x)
  then show ?thesis using assms(1) by (simp add: sparing_refl)
qed

lemma removeNamed_slash: "removeNamed E i (c_Names (listed c)) e = ret (False, e)"
  by (simp add: listed_def nodeContainerName_def)

lemma removeOld_spares:
  assumes "daemonInv (daemonAt d0 (trace s))" and "set ds \<subseteq> set (daemonAt d0 (trace s))"
    and Q: "\<And>c. d_image c = img \<or> contains (d_image c) ''dcstorage'' \<Longrightarrow> Q c"
  shows "sparing Q (daemonAt d0 (trace s)) (daemonAt d0 (trace (snd (removeOld E img (map listed ds) e s))))"
  using assms(1,2)
proof (induction ds arbitrary: e s)
  case Nil
  then show ?case by (simp add: run andThen_def println_def emit_def sparing_refl)
next
  case (Cons c ds)
  have remove: "sparing Q (daemonAt d0 (trace u))
      (daemonAt d0 (trace (snd (bnd (ContainerRemove E (d_id c))
        (\<lambda>e. case e of None \<Rightarrow> ret None | Some x \<Rightarrow> removeOld E img (map listed ds) (Some x)) u))))"
    if u: "daemonAt d0 (trace u) = daemonAt d0 (trace s)" and "Q c" for u
    using u Cons remove_by_id [OF Cons.prems(1), of c Q "eRemove E (trace u) (d_id c)"] \<open>Q c\<close>
      Cons.IH [of "u\<lparr>trace := EvRemove (d_id c) (eRemove E (trace u) (d_id c)) # trace u\<rparr>"]
    by (cases "eRemove E (trace u) (d_id c)") (auto simp: ContainerRemove_def run)
  show ?case
    using remove [of s] remove [of "s\<lparr>trace := EvPrint _ # trace s\<rparr>"] Cons Q
    by (auto simp: removeNamed_slash andThen_def println_def emit_def run)
qed

lemma removal_spares:
  assumes ok: "dockerOK E d0"
  shows "confinedAt cfg d0 (upgradable cfg) (removeDcStorageNodeInDocker E)"
  unfolding confinedAt_def
proof (intro allI impI)
  fix s :: st assume s: "RunningConfig s = cfg" "daemonInv (daemonAt d0 (trace s))"
  let ?h = "EvClient None # EvPrint ''begin to remove old version dcstorage docker container'' # trace s"
  let ?u = "s\<lparr>trace := EvList True (eList E ?h True) # ?h\<rparr>"
  have spared: "sparing (upgradable cfg) (daemonAt d0 (trace s))
      (daemonAt d0 (trace (snd (removeOld E (NodeImage cfg) cs None ?u))))" if "eList E ?h True = Inr cs" for cs
    using removeOld_spares [of d0 ?u "daemonAt d0 (trace s)" "NodeImage cfg" "upgradable cfg" E None]
      dockerOK_list [OF ok that] s(2) by (auto simp: upgradable_def)
  show "sparing (upgradable cfg) (daemonAt d0 (trace s))
      (daemonAt d0 (trace (snd (removeDcStorageNodeInDocker E s))))"
    using s spared
    by (auto simp: removeDcStorageNodeInDocker_def checkE_def tryE_def andThen_def effects run
        intro: sparing_refl split: option.split sum.split)
qed

lemma confinedAt_replace:
  assumes ok: "dockerOK E d0"
  shows "confinedAt cfg d0 (upgradable cfg) (replaceNode E tag)"
proof -
  have stop: "confined d0 (upgradable cfg) (stopDcnodeInDocker E)"
    unfolding stopDcnodeInDocker_def
    by (rule stopOp.confined [OF ok]) (simp add: upgradable_def managerNames_def)
  have wait: "keeps RunningConfig (case e of None \<Rightarrow> ret () | Some _ \<Rightarrow> sleep 10)" for e :: err
    by (cases e) (auto simp: sleep_def intro!: emits_intro)
  have start: "confined d0 (upgradable cfg) (startDcStorageNode E)"
    by (rule confined_node [OF ok]) (simp add: upgradable_def nodeNames_ours)
  show ?thesis
    unfolding replaceNode_def andThen_def [of "case _ of None \<Rightarrow> _ | Some _ \<Rightarrow> _"] checkE_def
    by (intro confinedAt_bnd [OF stop nodeStop.config] confinedAt_bnd [OF _ wait]
        confinedAt_then [OF removal_spares [OF ok]] confined_intro start) simp
qed

text \<open>The phases around the replacement.\<close>

lemma confined_load: "confined d0 Q (loadFromNetwork E fuel cs)"
  by (induction cs)
    (auto simp: loadDcStorageImage_def effects neutral_def
      intro!: confined_intro confined_query [OF peersForCid.events]
        confined_events [OF ipfsDownload.events neutral_download])

lemma confined_fetch: "confined d0 Q (fetchImage E fuel p)"
  unfolding fetchImage_def pullFromRegistry_def pullDcStorageNodeImage_def effects
  by (intro confined_intro confined_load) (simp_all add: neutral_def)

lemma confined_phases:
  assumes ok: "dockerOK E d0"
  shows "confined d0 ours (ensureRunning E)" and "confined d0 ours (versionUnknown E)"
    and "confined d0 ours (prepareHandover E)" and "confined d0 ours (finishHandover E fuel)"
    and "confined d0 ours (confirmNode E p)"
proof -
  note leaf = confined_stops [OF ok] confined_pccs [OF ok] confined_node [OF ok] confined_upgradeStart [OF ok]
    confined_plain [OF secretWait.events] confined_plain [OF newSecretWait.events]
    confined_plain [OF emits_newVersion]
  show "confined d0 ours (ensureRunning E)"
    unfolding ensureRunning_def
    by (intro confined_intro leaf) (auto simp: managerNames_def nodeNames_def)
  show "confined d0 ours (versionUnknown E)"
    unfolding versionUnknown_def by (intro confined_intro leaf) (simp_all add: managerNames_def)
  show "confined d0 ours (prepareHandover E)"
    unfolding prepareHandover_def by (intro confined_intro leaf) (simp_all add: managerNames_def)
  show "confined d0 ours (finishHandover E fuel)"
    unfolding finishHandover_def by (intro confined_intro leaf)
  show "confined d0 ours (confirmNode E p)"
    unfolding confirmNode_def by (intro confined_intro leaf) (simp_all add: neutral_def)
qed

lemma confined_ours: "confined d0 ours m \<Longrightarrow> confined d0 (upgradable cfg) m"
  unfolding confined_def using sparing_mono ours_upgradable by blast

lemma confinedAt_cases:
  "confinedAt cfg d0 Q n \<Longrightarrow> (\<And>x. confinedAt cfg d0 Q (g x)) \<Longrightarrow>
   confinedAt cfg d0 Q (case r of None \<Rightarrow> n | Some x \<Rightarrow> g x)"
  "(\<And>e. confinedAt cfg d0 Q (f e)) \<Longrightarrow> (\<And>x. confinedAt cfg d0 Q (h x)) \<Longrightarrow>
   confinedAt cfg d0 Q (case r' of Inl e \<Rightarrow> f e | Inr x \<Rightarrow> h x)"
  "(\<And>a b. confinedAt cfg d0 Q (k a b)) \<Longrightarrow> confinedAt cfg d0 Q (case p of (a, b) \<Rightarrow> k a b)"
  "confinedAt cfg d0 Q m \<Longrightarrow> confinedAt cfg d0 Q m' \<Longrightarrow> confinedAt cfg d0 Q (if b then m else m')"
  by (cases r; cases r'; cases p; simp)+

lemma confinedAt_install:
  assumes ok: "dockerOK E d0"
  shows "confinedAt cfg d0 (upgradable cfg) (installProgram E fuel p)"
  unfolding installProgram_def tryE_def checkE_def
  by (intro confinedAt_bnd [OF confined_fetch imageFetched.config]
      confinedAt_bnd [OF confined_ours [OF confined_phases(3) [OF ok]] handover.config]
      confinedAt_then [OF confinedAt_replace [OF ok]] confinedAt_cases
      confinedAt_any [OF confined_ret] confined_intro
      confined_ours [OF confined_phases(4) [OF ok]] confined_ours [OF confined_phases(5) [OF ok]])

lemma confinedAt_upgrade:
  assumes ok: "dockerOK E d0"
  shows "confinedAt cfg d0 (upgradable cfg) (upgradeDeal E fuel)"
proof -
  have failed: "confined d0 (upgradable cfg) (andThen (versionUnknown E) (ret (Some x)))" for x
    by (intro confined_intro confined_ours [OF confined_phases(2) [OF ok]])
  have known: "confined d0 Q versionKnown" for Q
    unfolding versionKnown_def by (rule confined_modify) simp
  show ?thesis
    unfolding upgradeDeal_def checkE_def tryE_def andThen_def [of versionKnown]
    by (intro confinedAt_bnd [OF confined_ours [OF confined_phases(1) [OF ok]] nodeEnsured.config]
        confinedAt_bnd [OF confined_plain [OF versionGet.events] versionGet.config]
        confinedAt_bnd [OF known versionOK.config]
        confinedAt_bnd [OF confined_query [OF configedInfo.events] configedInfo.config]
        confinedAt_bnd [OF confined_query [OF programChosen.events] programChosen.config]
        confinedAt_bnd [OF confined_query [OF upgradeNeeded.events] upgradeNeeded.config]
        confinedAt_cases confinedAt_any [OF confined_ret] confinedAt_any [OF failed]
        confinedAt_install [OF ok])
qed

section \<open>Foreign containers\<close>

text \<open>C10: No command but \<open>upgrade\<close> touches a container that is not the manager's: on a
  daemon that behaves as documented, whatever the files, the chain and the replies are, a run
  of the whole program keeps the daemon well formed, and every container with another name
  is after the run what it was before: not created, changed, stopped or removed.\<close>

theorem main_spares_foreign:
  assumes ok: "dockerOK E d0" and inv: "daemonInv (daemonAt d0 (trace s))"
    and arg: "length (eArgs E) \<ge> 2 \<Longrightarrow> eArgs E ! 1 \<noteq> ''upgrade''"
    and run: "mainProg E fuel turns s = (r, t)"
  shows "daemonInv (daemonAt d0 (trace t)) \<and>
    (\<forall>c. d_name c \<notin> managerNames \<longrightarrow> c \<in> set (daemonAt d0 (trace t)) \<longleftrightarrow> c \<in> set (daemonAt d0 (trace s)))"
  using confinedD [OF confined_main [OF ok arg] inv run] sparing_inv sparing_member by fastforce

definition webServer :: daemonContainer where
  "webServer = \<lparr>d_id = ''c3'', d_name = ''web'', d_image = ''nginx'', d_running = True\<rparr>"

definition sharedMachine :: "daemonContainer list" where
  "sharedMachine = webServer # twoContainers"

definition stopAllEnv :: env where
  "stopAllEnv = daemonEnv sharedMachine (nullEnv\<lparr>eArgs := [''dc'', ''stop'', ''all''],
     eStat := \<lambda>_ _. StatOk, eReadFile := \<lambda>_ _. Inr ''x'', eYamlParse := \<lambda>_.
       Inr (configYaml (defaultConfig\<lparr>ChainNodeName := ''n'', ValidatorFlag := ''disable''\<rparr>))\<rparr>)"

lemma stopAllEnv_ok: "dockerOK stopAllEnv sharedMachine"
  unfolding stopAllEnv_def by (rule daemonEnv_ok)

lemma sharedMachine_inv: "daemonInv (daemonAt sharedMachine (trace initSt))"
  by (simp add: sharedMachine_def webServer_def twoContainers_def daemonInv_def initSt_def daemonAt_def)

theorem main_spares_foreign_witness:
  "webServer \<in> set (daemonAt sharedMachine (trace (snd (mainProg stopAllEnv 0 0 initSt))))"
proof -
  have "webServer \<in> set (daemonAt sharedMachine (trace initSt))"
    by (simp add: sharedMachine_def initSt_def daemonAt_def)
  moreover have "d_name webServer \<notin> managerNames"
    by (simp add: webServer_def managerNames_def container_names)
  moreover have "eArgs stopAllEnv ! 1 \<noteq> ''upgrade''"
    by (simp add: stopAllEnv_def daemonEnv_def)
  ultimately show ?thesis
    using main_spares_foreign [OF stopAllEnv_ok sharedMachine_inv _ prod.collapse [symmetric]] by blast
qed

text \<open>C11: An upgrade spares every container that is neither the manager's by name, nor runs
  the configured node image, nor has dcstorage in the name of its image: each of these is
  after \<open>upgradeDeal\<close> what it was before, however the upgrade ends. (A container of
  another name whose image has dcstorage in its name is not spared: it may be the one that is
  removed by force.)\<close>

theorem upgrade_spares_foreign:
  assumes ok: "dockerOK E d0" and inv: "daemonInv (daemonAt d0 (trace s))"
    and run: "upgradeDeal E fuel s = (r, t)"
  shows "daemonInv (daemonAt d0 (trace t)) \<and>
    (\<forall>c. \<not> upgradable (RunningConfig s) c \<longrightarrow>
       c \<in> set (daemonAt d0 (trace t)) \<longleftrightarrow> c \<in> set (daemonAt d0 (trace s)))"
proof -
  have "sparing (upgradable (RunningConfig s)) (daemonAt d0 (trace s)) (daemonAt d0 (trace t))"
    using confinedAt_upgrade [OF ok] inv run unfolding confinedAt_def by (metis snd_conv)
  then show ?thesis using sparing_inv sparing_member by fastforce
qed

theorem upgrade_spares_foreign_witness:
  "webServer \<in> set (daemonAt sharedMachine (trace (snd
     (upgradeDeal (daemonEnv sharedMachine upgradeEnv) 9 initSt))))"
proof -
  have "webServer \<in> set (daemonAt sharedMachine (trace initSt))"
    by (simp add: sharedMachine_def initSt_def daemonAt_def)
  moreover have "\<not> upgradable (RunningConfig initSt) webServer"
    by (simp add: upgradable_def webServer_def managerNames_def container_names initSt_def
        defaultConfig_def)
  ultimately show ?thesis
    using upgrade_spares_foreign [OF daemonEnv_ok sharedMachine_inv prod.collapse [symmetric]] by blast
qed

section \<open>Starting dcchain\<close>

text \<open>C15: \<open>startDcChain\<close> implements its contract: whatever it returns, only the container
  dcchain may differ; when it returns \<open>nil\<close>, a container of that name runs with the
  chain image of the configuration.\<close>

theorem startDcChain_refines:
  assumes ok: "dockerOK E d0" and inv: "daemonInv (daemonAt d0 (trace s))"
    and run: "startDcChain E s = (r, t)"
  shows "touches {chainContainerName} (daemonAt d0 (trace s)) (daemonAt d0 (trace t)) \<and>
    (r = Ret None \<longrightarrow>
      startedSpec chainContainerName (ChainImage (RunningConfig s)) (daemonAt d0 (trace t)))"
proof (intro conjI impI)
  show "touches {chainContainerName} (daemonAt d0 (trace s)) (daemonAt d0 (trace t))"
    using confinedD [OF confined_chain [OF ok] inv run] by simp
  assume "r = Ret None"
  let ?dir = "bnd (osStat E chainDataDir) (\<lambda>r. case r of
      StatOk \<Rightarrow> ret None | StatNotExist _ \<Rightarrow> osMkdirAll E chainDataDir | StatErr e \<Rightarrow> ret (Some e))"
  obtain u where u: "?dir s = (Ret None, u)" and rest: "bnd (reads RunningConfig) (\<lambda>cfg.
      andThen (if ValidatorFlag cfg = ''enable''
               then println ''start dcchain with validator mode'' else ret ())
      (StartContainer E chainContainerName True
        \<lparr>Image = ChainImage cfg, Entrypoint = chainEntrypoint cfg, Env = []\<rparr>
        (hostSettings [bindMount chainDataDir True] [] (Some (jsonLog ''100m''))))) u = (Ret None, t)"
    using checkE_RetD [OF run [unfolded startDcChain_def startDcchainInDocker_def \<open>r = Ret None\<close>]] by blast
  have dir: "confined d0 (\<lambda>_. False) ?dir"
    unfolding effects by (intro confined_intro) (simp_all add: neutral_def)
  then have inv_u: "daemonInv (daemonAt d0 (trace u))"
    using confinedD [OF dir inv u] sparing_inv by blast
  have same: "keeps RunningConfig ?dir"
    unfolding effects by (intro keeps_bnd keeps_case_stat keeps_ext keeps_ret) simp_all
  have cfg: "RunningConfig u = RunningConfig s" using keepsD [OF same, of s] unfolding u by simp
  let ?say = "if ValidatorFlag (RunningConfig s) = ''enable''
    then println ''start dcchain with validator mode'' else ret ()"
  obtain v where v: "?say u = (Ret (), v)" and start: "StartContainer E chainContainerName True
      \<lparr>Image = ChainImage (RunningConfig s), Entrypoint = chainEntrypoint (RunningConfig s), Env = []\<rparr>
      (hostSettings [bindMount chainDataDir True] [] (Some (jsonLog ''100m''))) v = (Ret None, t)"
    using rest cfg unfolding andThen_def by (auto simp: reads_def dest!: bnd_RetD)
  have say: "confined d0 (\<lambda>_. False) ?say" by (intro confined_intro)
  then have "daemonInv (daemonAt d0 (trace v))" using confinedD [OF say inv_u v] sparing_inv by blast
  then show "startedSpec chainContainerName (ChainImage (RunningConfig s)) (daemonAt d0 (trace t))"
    using startOp.reached [OF ok _ start] by simp
qed

definition chainDirEnv :: env where
  "chainDirEnv = daemonEnv [] (nullEnv\<lparr>eStat := \<lambda>_ _. StatOk\<rparr>)"

theorem startDcChain_refines_witness:
  "startedSpec chainContainerName (ChainImage defaultConfig)
     (daemonAt [] (trace (snd (startDcChain chainDirEnv initSt))))"
proof -
  have ok: "dockerOK chainDirEnv []" unfolding chainDirEnv_def by (rule daemonEnv_ok)
  have inv: "daemonInv (daemonAt [] (trace initSt))"
    by (simp add: initSt_def daemonAt_def daemonInv_def)
  have "fst (StartContainer chainDirEnv chainContainerName True c hc w) = Ret None"
    if "daemonAt [] (trace w) = []" for c hc w
    using that by (simp add: StartContainer_def createContainer_def ensureStarted_def runs chainDirEnv_def
        daemonEnv_def nullEnv_def findCreated_def freshId_def refers_def chainContainerName_def)
  then have "fst (startDcChain chainDirEnv initSt) = Ret None"
    by (simp add: startDcChain_def startDcchainInDocker_def andThen_def checkE_def effects run
        chainDirEnv_def daemonEnv_def nullEnv_def initSt_def daemonAt_def defaultConfig_def)
  then show ?thesis
    using startDcChain_refines [OF ok inv prod.collapse [symmetric]] by (simp add: initSt_def)
qed

section \<open>dc stop all\<close>

text \<open>The failures of Docker that make a stop fail.\<close>

fun dockerFailed :: "event \<Rightarrow> bool" where
  "dockerFailed (EvClient e) = (e \<noteq> None)"
| "dockerFailed (EvList _ (Inl _)) = True"
| "dockerFailed (EvStop _ _ e) = (e \<noteq> None)"
| "dockerFailed _ = False"

lemma stop_unfailed:
  "\<exists>e u new. StopContainer E n w s = (Ret e, u) \<and> trace u = new @ trace s \<and>
     (e \<noteq> None \<longrightarrow> (\<exists>x \<in> set new. dockerFailed x))"
  by (auto simp: StopContainer_def checkE_def tryE_def effects run Let_def split: sum.split option.split)

text \<open>C13: After \<open>dc stop all\<close> none of dcstorage, dcchain and the local pccs runs, unless
  Docker refused a connection, a list or a stop: the errors the command drops are the only
  way to miss.\<close>

theorem stop_all_stops:
  assumes ok: "dockerOK E d0" and inv: "daemonInv (daemonAt d0 (trace s))"
    and args: "length (eArgs E) \<ge> 3" "eArgs E ! 2 = ''all''"
    and step: "StopCommandDeal E s = (r, t)" and fine: "\<forall>e \<in> set (newEvents (StopCommandDeal E) s). \<not> dockerFailed e"
    and c: "c \<in> set (daemonAt d0 (trace t))" "d_name c \<in> {nodeContainerName, chainContainerName, pccsContainerName}"
  shows "\<not> d_running c"
proof -
  define s1 where "s1 = snd (setDcnodeCmdState E ''stop'' s)"
  have s1: "trace s1 = EvWriteFile runCmdStateFilepath ''stop'' (eWriteFile E (trace s) runCmdStateFilepath ''stop'') # trace s"
    by (simp add: s1_def setDcnodeCmdState_def osWriteFile_def run)
  obtain e2 s2 n2 where 2: "StopContainer E nodeContainerName 60 s1 = (Ret e2, s2)" "trace s2 = n2 @ trace s1"
      "e2 \<noteq> None \<Longrightarrow> \<exists>x \<in> set n2. dockerFailed x" using stop_unfailed by blast
  obtain e3 s3 n3 where 3: "StopContainer E chainContainerName 60 s2 = (Ret e3, s3)" "trace s3 = n3 @ trace s2"
      "e3 \<noteq> None \<Longrightarrow> \<exists>x \<in> set n3. dockerFailed x" using stop_unfailed by blast
  obtain e4 s4 n4 where 4: "StopContainer E pccsContainerName 10 s3 = (Ret e4, s4)" "trace s4 = n4 @ trace s3"
      "e4 \<noteq> None \<Longrightarrow> \<exists>x \<in> set n4. dockerFailed x" using stop_unfailed by blast
  have t: "snd (StopCommandDeal E s) = s4"
    using args 2 3 4 by (simp add: StopCommandDeal_def stopDcnodeInDocker_def stopDcchainInDocker_def
        stopPccsInDocker_def setDcnodeCmdState_def osWriteFile_def andThen_def s1_def run)
  then have "set n2 \<union> set n3 \<union> set n4 \<subseteq> set (newEvents (StopCommandDeal E) s)"
    using s1 2(2) 3(2) 4(2) newEvents_eq [of "StopCommandDeal E" s] by auto
  then have nil: "e2 = None" "e3 = None" "e4 = None" using fine 2(3) 3(3) 4(3) by blast+
  have i1: "daemonInv (daemonAt d0 (trace s1))" using inv s1 by simp
  note i2 = stopOp.inv_kept [OF ok i1 2(1)] and i3 = stopOp.inv_kept [OF ok i2 3(1)]
  have t4: "t = s4" using step t by simp
  have names: "nodeContainerName \<noteq> chainContainerName" "nodeContainerName \<noteq> pccsContainerName"
      "chainContainerName \<noteq> pccsContainerName" by (simp_all add: container_names)
  note kept = stopOp.other_kept [OF ok i2 3(1), of c] stopOp.other_kept [OF ok i3 4(1), of c]
  from c(2) consider "d_name c = nodeContainerName" | "d_name c = chainContainerName"
    | "d_name c = pccsContainerName" by blast
  then show ?thesis
  proof cases
    case 1
    then show ?thesis
      using c(1) t4 names kept stopOp.reached [OF ok i1 2(1) [unfolded nil]] by auto
  next
    case 2
    then show ?thesis
      using c(1) t4 names kept stopOp.reached [OF ok i2 3(1) [unfolded nil]] by auto
  next
    case 3
    then show ?thesis using c(1) t4 stopOp.reached [OF ok i3 4(1) [unfolded nil]] by auto
  qed
qed

theorem stop_all_stops_witness:
  "\<not> (\<exists>c \<in> set (daemonAt sharedMachine (trace (snd (StopCommandDeal stopAllEnv initSt)))).
     d_name c = chainContainerName \<and> d_running c)"
proof
  assume "\<exists>c \<in> set (daemonAt sharedMachine (trace (snd (StopCommandDeal stopAllEnv initSt)))).
     d_name c = chainContainerName \<and> d_running c"
  then obtain c where c: "c \<in> set (daemonAt sharedMachine (trace (snd (StopCommandDeal stopAllEnv initSt))))"
    "d_name c = chainContainerName" "d_running c" by blast
  have args: "length (eArgs stopAllEnv) \<ge> 3" "eArgs stopAllEnv ! 2 = ''all''"
    by (simp_all add: stopAllEnv_def daemonEnv_def)
  have "\<forall>e \<in> set (newEvents (StopCommandDeal stopAllEnv) initSt). \<not> dockerFailed e"
    by (simp add: newEvents_def StopCommandDeal_def stopDcnodeInDocker_def stopDcchainInDocker_def
        stopPccsInDocker_def setDcnodeCmdState_def stopAllEnv_def StopContainer_def runs daemonEnv_def
        sample initSt_def sharedMachine_def webServer_def twoContainers_def daemonAt_def listed_def
        idByName_def named_def container_names setRunning_def refers_def)
  then show False
    using stop_all_stops [OF stopAllEnv_ok sharedMachine_inv args prod.collapse [symmetric] _ c(1)] c(2,3)
    by blast
qed

end
