(* ===== verification/Outcomes.thy ===== *)
theory Outcomes
  imports MainProg
begin

text \<open>
  How a run can end. The outcome of a program is typed: a status the code names, or a panic
  with its cause in the history. Every construct keeps this, so the proofs follow the
  structure of the definitions; the loops are inductions.
\<close>

section \<open>Well-typed outcomes\<close>

fun outcomeOK :: "history \<Rightarrow> 'a outcome \<Rightarrow> bool" where
  "outcomeOK new (Ret x) = True"
| "outcomeOK new (Exit c) = (c \<in> {0, 1, 2})"
| "outcomeOK new Panic = ((\<exists>e. EvClient (Some e) \<in> set new) \<or>
    EvSetupLog logpath False \<in> set new)"
| "outcomeOK new NoFuel = True"

definition orderly :: "'a go \<Rightarrow> bool" where
  "orderly m \<longleftrightarrow> (\<forall>s. \<exists>new. trace (snd (m s)) = new @ trace s \<and> outcomeOK new (fst (m s)))"

lemma orderlyD: "orderly m \<Longrightarrow> m s = (o1, t) \<Longrightarrow> \<exists>new. trace t = new @ trace s \<and> outcomeOK new o1"
  unfolding orderly_def by (metis fst_conv snd_conv)

lemma outcomeOK_more: "outcomeOK new o1 \<Longrightarrow> outcomeOK (new @ old) o1 \<and> outcomeOK (old @ new) o1"
  by (cases o1) auto

named_theorems orderly_intro "rules that type the outcomes of a program"

lemma orderly_ret [orderly_intro]: "orderly (ret x)"
  and orderly_noFuel [orderly_intro]: "orderly noFuel"
  and orderly_reads [orderly_intro]: "orderly (reads f)"
  and orderly_exit [orderly_intro]: "orderly (exitWith 0)" "orderly (exitWith 1)" "orderly (exitWith 2)"
  by (simp_all add: orderly_def run)

lemma orderly_modify [orderly_intro]: "(\<And>s. trace (g s) = trace s) \<Longrightarrow> orderly (modify g)"
  by (simp add: orderly_def run)

lemma orderly_ext [orderly_intro]: "orderly (ext f mk)"
  by (simp add: orderly_def run)

lemma outcomeOK_cast:
  "outcomeOK new (Exit c :: 'a outcome) \<Longrightarrow> outcomeOK new (Exit c :: 'b outcome)"
  "outcomeOK new (Panic :: 'a outcome) \<Longrightarrow> outcomeOK new (Panic :: 'b outcome)"
  by simp_all

lemma orderly_bnd [orderly_intro]:
  assumes m: "orderly m" and f: "\<And>x. orderly (f x)"
  shows "orderly (bnd m f)"
  unfolding orderly_def
proof
  fix s
  obtain o1 u where u: "m s = (o1, u)" by fastforce
  obtain n1 where n1: "trace u = n1 @ trace s" "outcomeOK n1 o1" using orderlyD [OF m u] by blast
  show "\<exists>new. trace (snd (bnd m f s)) = new @ trace s \<and> outcomeOK new (fst (bnd m f s))"
  proof (cases o1)
    case (Ret x)
    obtain n2 where "trace (snd (f x u)) = n2 @ trace u" "outcomeOK n2 (fst (f x u))"
      using f unfolding orderly_def by blast
    then show ?thesis using u n1 Ret outcomeOK_more
      by (intro exI [of _ "n2 @ n1"]) (auto simp: run)
  qed (use u n1 in \<open>auto simp: run\<close>)
qed

lemma orderly_andThen [orderly_intro]: "orderly m \<Longrightarrow> orderly k \<Longrightarrow> orderly (andThen m k)"
  unfolding andThen_def by (intro orderly_intro)

lemma orderly_case_option [orderly_intro]:
  "orderly n \<Longrightarrow> (\<And>x. orderly (g x)) \<Longrightarrow> orderly (case r of None \<Rightarrow> n | Some x \<Rightarrow> g x)"
  by (cases r) auto

lemma orderly_case_sum [orderly_intro]:
  "(\<And>e. orderly (f e)) \<Longrightarrow> (\<And>x. orderly (g x)) \<Longrightarrow> orderly (case r of Inl e \<Rightarrow> f e | Inr x \<Rightarrow> g x)"
  by (cases r) auto

lemma orderly_case_prod [orderly_intro]:
  "(\<And>a b. orderly (f a b)) \<Longrightarrow> orderly (case p of (a, b) \<Rightarrow> f a b)"
  by (cases p) auto

lemma orderly_case_list [orderly_intro]:
  "orderly n \<Longrightarrow> (\<And>x xs. orderly (f x xs)) \<Longrightarrow> orderly (case r of [] \<Rightarrow> n | x # xs \<Rightarrow> f x xs)"
  by (cases r) auto

lemma orderly_case_bool [orderly_intro]: "orderly m \<Longrightarrow> orderly k \<Longrightarrow> orderly (case b of True \<Rightarrow> m | False \<Rightarrow> k)"
  by (cases b) auto

lemma orderly_case_stat [orderly_intro]:
  "orderly x \<Longrightarrow> (\<And>e. orderly (f e)) \<Longrightarrow> (\<And>e. orderly (g e)) \<Longrightarrow>
   orderly (case r of StatOk \<Rightarrow> x | StatNotExist e \<Rightarrow> f e | StatErr e \<Rightarrow> g e)"
  by (cases r) auto

lemma orderly_case_http [orderly_intro]:
  "(\<And>e. orderly (f e)) \<Longrightarrow> (\<And>a b c. orderly (g a b c)) \<Longrightarrow>
   orderly (case r of HttpFail e \<Rightarrow> f e | HttpResp a b c \<Rightarrow> g a b c)"
  by (cases r) auto

lemma orderly_case_node [orderly_intro]:
  "orderly m \<Longrightarrow> (\<And>c e. orderly (g c e)) \<Longrightarrow>
   orderly (case r of FolderNode \<Rightarrow> m | FileNode c e \<Rightarrow> g c e)"
  by (cases r) auto

lemma orderly_case_flagErr [orderly_intro]:
  "orderly m \<Longrightarrow> orderly k \<Longrightarrow> orderly (case e of FlagHelp \<Rightarrow> m | FlagBad \<Rightarrow> k)"
  by (cases e) auto

lemma orderly_if [orderly_intro]:
  "(b \<Longrightarrow> orderly m) \<Longrightarrow> (\<not> b \<Longrightarrow> orderly k) \<Longrightarrow> orderly (if b then m else k)"
  by auto

lemma orderly_Let [orderly_intro]: "(\<And>x. orderly (f x)) \<Longrightarrow> orderly (Let x f)"
  by (simp add: Let_def)

lemma orderly_tryE [orderly_intro]: "orderly m \<Longrightarrow> (\<And>x. orderly (f x)) \<Longrightarrow> orderly (tryE m f)"
  unfolding tryE_def by (intro orderly_intro)

lemma orderly_checkE [orderly_intro]: "orderly m \<Longrightarrow> orderly k \<Longrightarrow> orderly (checkE m k)"
  unfolding checkE_def by (intro orderly_intro)

text \<open>The one dereference of a client that may be nil.\<close>

lemma orderly_client:
  assumes "orderly k"
  shows "orderly (bnd (NewClientWithOpts E) (\<lambda>ce. case ce of Some _ \<Rightarrow> panic | None \<Rightarrow> k))"
  unfolding orderly_def
proof
  fix s :: st
  let ?e = "eClient E (trace s)"
  let ?u = "s\<lparr>trace := EvClient ?e # trace s\<rparr>"
  obtain new where "trace (snd (k ?u)) = new @ trace ?u" "outcomeOK new (fst (k ?u))"
    using assms unfolding orderly_def by blast
  then show "\<exists>new. trace (snd (bnd (NewClientWithOpts E) (\<lambda>ce. case ce of Some _ \<Rightarrow> panic | None \<Rightarrow> k) s)) =
      new @ trace s \<and> outcomeOK new (fst (bnd (NewClientWithOpts E) (\<lambda>ce. case ce of Some _ \<Rightarrow> panic | None \<Rightarrow> k) s))"
    using outcomeOK_more
    by (cases ?e) (auto simp: NewClientWithOpts_def run intro!: exI [of _ "new @ [EvClient None]"])
qed

text \<open>The log: the library panics when it cannot open its output.\<close>

lemma orderly_log: "orderly (SetupDefaultLoggingConfig E logpath)"
proof -
  have log: "orderly (bnd (setupLogging E logpath) (\<lambda>returned. if returned then ret None else panic))"
    unfolding orderly_def by (auto simp: setupLogging_def run)
  show ?thesis
    unfolding SetupDefaultLoggingConfig_def osMkdirAll_def osChmod_def
    by (intro orderly_checkE orderly_andThen orderly_ext orderly_if orderly_ret log)
qed

section \<open>The functions\<close>

lemma orderly_effects [orderly_intro]:
  "orderly (emit e)" "orderly (println x)" "orderly (sleep n)" "orderly (NewClientWithOpts E)"
  "orderly (ContainerList E b)" "orderly (ContainerInspect E i)" "orderly (ContainerStart E i)"
  "orderly (ContainerStop E i wait)" "orderly (ContainerRemove E i)" "orderly (ContainerCreate E c hc name)"
  "orderly (VolumeList E)" "orderly (VolumeCreate E v)" "orderly (httpDo E meth u)"
  "orderly (osStat E p)" "orderly (osReadFile E p)" "orderly (osWriteFile E p x)" "orderly (osMkdirAll E p)"
  "orderly (osRemoveAll E p)" "orderly (osCreate E p)" "orderly (osOpen E p)" "orderly (findProcess E pid)"
  "orderly (scanln E)" "orderly (getStorage look wrap api key)" "orderly (ImagePull E p)" "orderly (copyPull E)"
  "orderly (ImageLoad E p)" "orderly (net E x)" "orderly (getFile E x)" "orderly (openFolder E x)"
  "orderly (ctxDone E)" "orderly (bootstrap E peers)" "orderly (health E api)" "orderly (randIntn E n)"
  unfolding effects health_def randIntn_def by (rule orderly_ext)+

lemma orderly_http [orderly_intro]:
  "orderly (HttpGet E u a)" "orderly (HttpGetWithoutCheckCert E u a)" "orderly (HttpPost E u b)"
  unfolding HttpGet_def HttpGetWithoutCheckCert_def HttpPost_def by (intro orderly_intro)+

lemma orderly_config [orderly_intro]: "orderly (ReadConfig E)" "orderly (SaveConfig E cfg)"
  unfolding ReadConfig_def SaveConfig_def by (intro orderly_intro)+

lemma orderly_docker [orderly_intro]:
  "orderly (CreateVolume E v)" "orderly (StartContainer E n b c hc)" "orderly (StopContainer E n w)"
  "orderly (RemoveContainer E n)"
  unfolding CreateVolume_def StartContainer_def createContainer_def ensureStarted_def StopContainer_def
    RemoveContainer_def
  by (intro orderly_intro)+

text \<open>The chain.\<close>

lemma orderly_sync [orderly_intro]: "orderly (syncLoop E fuel api r)"
  by (induction E fuel api r rule: syncLoop.induct) (auto intro!: orderly_intro)

lemma orderly_chain [orderly_intro]:
  "orderly (GetChainApi E)" "orderly (GetConfigedDcStorageInfo E fuel)" "orderly (GetPeerAddrInfo E p a m)"
  "orderly (IfEnclaveIdValid E i)"
  unfolding GetChainApi_def GetConfigedDcStorageInfo_def GetPeerAddrInfo_def IfEnclaveIdValid_def
    getRecommendProgram_def waitForChainSyncCompleted_def
  by (intro orderly_intro; simp)+

lemma orderly_collect [orderly_intro]: "orderly (collectAddrs E a m acc ps)"
  by (induction ps arbitrary: acc) (auto intro!: orderly_intro)

lemma orderly_trust [orderly_intro]: "orderly (trustLoop E a m acc e ps)"
  by (induction ps arbitrary: acc e) (auto intro!: orderly_intro)

lemma orderly_peers [orderly_intro]:
  "orderly (GetPeerAddrsForCid E fuel cid)" "orderly (GetTrustStoragePeers E)"
  unfolding GetPeerAddrsForCid_def getPeerAddrsForCid_def GetTrustStoragePeers_def
    waitForChainSyncCompleted_def
  by (intro orderly_intro)+

text \<open>Downloads.\<close>

lemma orderly_file [orderly_intro]: "orderly (downloadFile E c eof p secret)"
  unfolding downloadFile_def runStream_def by (intro orderly_intro)

lemma orderly_folder [orderly_intro]:
  "orderly (downloadFolderFromIpfs E d p secret)" "orderly (forEachEntry E es p secret)"
  by (induction E d p secret and E es p secret rule: downloadFolderFromIpfs_forEachEntry.induct)
    (auto split: option.split intro!: orderly_intro)

lemma orderly_download [orderly_intro]: "orderly (DownloadFromIpfs E c s p as d)"
  unfolding DownloadFromIpfs_def newContext_def newIPFSHostKey_def GetAvailablePort_def printErr_def
    pullAndDownloadFolder_def
  by (intro orderly_intro)

section \<open>The services and the upgrade\<close>

lemma orderly_pccsWait [orderly_intro]: "orderly (pccsWait E i)"
  by (induction E i rule: pccsWait.induct) (subst pccsWait.simps, auto intro!: orderly_intro)

lemma orderly_waitDcUpdate [orderly_intro]: "orderly (waitDcUpdateLoop E n)"
  by (induction E n rule: waitDcUpdateLoop.induct) (subst waitDcUpdateLoop.simps, auto intro!: orderly_intro)

lemma orderly_waitNewDc [orderly_intro]: "orderly (waitNewDcLoop E fuel n)"
  by (induction E fuel n rule: waitNewDcLoop.induct) (auto intro!: orderly_intro)

lemma orderly_newVersion [orderly_intro]: "orderly (newVersionLoop E n)"
  by (induction E n rule: newVersionLoop.induct)
    (subst newVersionLoop.simps, auto simp: getVersionByHttpGet_def intro!: orderly_intro, metis)

lemma orderly_services [orderly_intro]:
  "orderly (runPccsInDocker E)" "orderly (startTeeReportServerDocker E)" "orderly (startDcnodeInDocker E)"
  "orderly (startDcChain E)" "orderly (startDcupgradeInDocker E)" "orderly (stopDcnodeInDocker E)"
  "orderly (stopUpgradeInDocker E)" "orderly (stopDcchainInDocker E)" "orderly (stopPccsInDocker E)"
  unfolding runPccsInDocker_def GetPidWithListenPort_def startTeeReportServerDocker_def
    startDcnodeInDocker_def startDcChain_def startDcchainInDocker_def startDcupgradeInDocker_def
    stopDcnodeInDocker_def stopUpgradeInDocker_def stopDcchainInDocker_def stopPccsInDocker_def
  by (intro orderly_intro)+

lemma orderly_node [orderly_intro]: "orderly (startDcStorageNode E)"
  unfolding startDcStorageNode_def by (intro orderly_intro)

lemma orderly_find [orderly_intro]: "orderly (findContainerIdByName E n)"
  unfolding findContainerIdByName_def by (intro orderly_client orderly_intro)

lemma orderly_status [orderly_intro]: "orderly (containerStatus E n)"
  unfolding containerStatus_def by (intro orderly_intro)

lemma orderly_checks [orderly_intro]:
  "orderly (checkDcnodeStatus E)" "orderly (checkDcchainStatus E)" "orderly (checkPccsStatus E)"
  "orderly (checkDcDeamonStatusDc E)" "orderly (checkDcnodeCmdState E)"
  unfolding checkDcnodeStatus_def checkDcchainStatus_def checkPccsStatus_def checkDcDeamonStatusDc_def
    checkDcnodeCmdState_def
  by (intro orderly_intro)+

lemma orderly_removeNamed [orderly_intro]: "orderly (removeNamed E i ns e)"
  by (induction ns arbitrary: e) (auto intro!: orderly_intro)

lemma orderly_removeOld [orderly_intro]: "orderly (removeOld E img cs e)"
  by (induction cs arbitrary: e) (auto intro!: orderly_intro)

lemma orderly_load [orderly_intro]: "orderly (loadFromNetwork E fuel cs)"
  by (induction cs) (auto simp: loadDcStorageImage_def intro!: orderly_intro)

lemma orderly_phases [orderly_intro]:
  "orderly (ensureRunning E)" "orderly (versionUnknown E)" "orderly (chooseProgram E p)"
  "orderly (needUpgrade E v i p)" "orderly (fetchImage E fuel p)" "orderly (prepareHandover E)"
  "orderly (replaceNode E tag)" "orderly (finishHandover E fuel)" "orderly (confirmNode E p)"
  unfolding ensureRunning_def versionUnknown_def chooseProgram_def needUpgrade_def fetchImage_def
    pullFromRegistry_def pullDcStorageNodeImage_def prepareHandover_def waitDcUpdateGetPeerSecret_def
    replaceNode_def removeDcStorageNodeInDocker_def finishHandover_def waitNewDcGetPeerSecret_def
    confirmNode_def
  by (intro orderly_intro; simp)+

lemma orderly_upgrade [orderly_intro]: "orderly (upgradeDeal E fuel)"
  unfolding upgradeDeal_def installProgram_def versionKnown_def getVersionByHttpGet_def
  by (intro orderly_intro) simp

lemma orderly_loop [orderly_intro]: "orderly (daemonLoop E fuel turns)"
  by (induction turns) (auto intro!: orderly_intro)

lemma orderly_service [orderly_intro]: "orderly (daemonCommandDeal E fuel turns)"
  unfolding daemonCommandDeal_def claimPid_def writePid_def by (intro orderly_intro)

section \<open>The commands\<close>

lemma orderly_asks [orderly_intro]: "orderly (askYesNo E turns)" "orderly (askKey E turns)"
  by (induction turns) (auto simp: Let_def intro!: orderly_intro)

lemma orderly_logs [orderly_intro]: "orderly (showContainerLog E n k)"
proof -
  have "orderly (showLogsForContainer E i k)" for i
    unfolding showLogsForContainer_def ContainerLogs_def copyLogs_def handleInterruptSignal_def
    by (intro orderly_client orderly_intro)
  then show ?thesis unfolding showContainerLog_def by (intro orderly_intro)
qed

lemma orderly_help [orderly_intro]: "orderly (ShowHelp E)"
proof -
  have "orderly (printLines ls)" for ls by (induction ls) (auto intro!: orderly_intro)
  then show ?thesis unfolding ShowHelp_def .
qed

lemma orderly_checksums [orderly_intro]: "orderly (checksums E fs)"
  by (induction fs) (auto simp: Sha256sum_def intro!: orderly_intro)

lemma orderly_prompting [orderly_intro]: "orderly (ConfigCommandDeal E turns)"
  unfolding ConfigCommandDeal_def cleanOld_def askValidator_def askPccsKey_def removeDockerContainer_def
  by (intro orderly_intro; simp)

lemma orderly_control [orderly_intro]:
  "orderly (StartCommandDeal E)" "orderly (StopCommandDeal E)" "orderly (StatusCommandDeal E)"
  "orderly (LogCommandDeal E)" "orderly (UpgradeCommandDeal E fuel turns)"
  unfolding StartCommandDeal_def startStorage_def StopCommandDeal_def StatusCommandDeal_def
    printStatus_def LogCommandDeal_def UpgradeCommandDeal_def setDcnodeCmdState_def
  by (intro orderly_intro)+

lemma orderly_queries [orderly_intro]:
  "orderly (UniqueIdCommandDeal E)" "orderly (PeerInfoCommandDeal E)" "orderly (MemoryUsageCommandDeal E)"
  "orderly (BlockGcCommandDeal E)" "orderly (ChecksumCommandDeal E)"
  "orderly (GetFileFromIpfsCommandDeal E fuel)" "orderly (RotateKeyCommandDeal E)"
  "orderly (PccsApiKeyCommandDeal E)"
  unfolding UniqueIdCommandDeal_def PeerInfoCommandDeal_def MemoryUsageCommandDeal_def
    BlockGcCommandDeal_def ChecksumCommandDeal_def GetFileFromIpfsCommandDeal_def RotateKeyCommandDeal_def
    PccsApiKeyCommandDeal_def getVersionByHttpGet_def getPeerInfoByHttpGet_def
    getMemoryUsageByHttpGet_def sendBlockGcCommand_def
  by (intro orderly_intro; simp)+

lemma orderly_random:
  assumes "\<And>h n. 0 < n \<Longrightarrow> eRand E h n < n" shows "orderly (RandStringBytes E n)"
proof (induction n)
  case (Suc n)
  show ?case
    unfolding orderly_def
  proof
    fix s :: st
    let ?i = "eRand E (trace s) (length letterBytes)"
    let ?m = "bnd (RandStringBytes E n) (\<lambda>b. ret (letterBytes ! ?i # b))"
    let ?u = "s\<lparr>trace := EvRand (length letterBytes) ?i # trace s\<rparr>"
    have "orderly ?m" using Suc by (intro orderly_intro)
    then obtain new where "trace (snd (?m ?u)) = new @ trace ?u" "outcomeOK new (fst (?m ?u))"
      unfolding orderly_def by blast
    moreover have "RandStringBytes E (Suc n) s = ?m ?u"
      using assms [of "length letterBytes" "trace s"] by (simp add: randIntn_def letterBytes_def run)
    ultimately show "\<exists>new. trace (snd (RandStringBytes E (Suc n) s)) = new @ trace s \<and>
        outcomeOK new (fst (RandStringBytes E (Suc n) s))"
      using outcomeOK_more by (intro exI [of _ "new @ [EvRand (length letterBytes) ?i]"]) auto
  qed
qed (simp add: orderly_ret)

text \<open>C12: Every run of the program has a typed outcome. If random numbers are in range, as
  the library documents, and the process has a name (\<open>os.Args[0]\<close>), then \<open>main\<close>
  leaves with status 0, 1 or 2 if it leaves, returns only when the configuration file cannot
  be examined, and panics only after the creation of a Docker client failed or the log could
  not be opened: no other error, reply, file or argument makes it panic.\<close>

theorem main_outcome_typed:
  assumes rand: "\<And>h n. 0 < n \<Longrightarrow> eRand E h n < n" and args: "eArgs E \<noteq> []"
    and step: "mainProg E fuel turns s = (o1, t)"
  shows "\<exists>new. trace t = new @ trace s \<and> (\<forall>c. o1 = Exit c \<longrightarrow> c \<in> {0, 1, 2}) \<and>
    (o1 = Panic \<longrightarrow> (\<exists>e. EvClient (Some e) \<in> set new) \<or> EvSetupLog logpath False \<in> set new) \<and>
    (o1 = Ret () \<longrightarrow> (\<exists>h e. eStat E h Config_file_path = StatErr e))"
proof -
  have "orderly (runCommand E fuel turns arg)" for arg
    unfolding runCommand_def by (intro orderly_intro)
  then have "orderly (dispatch E fuel turns)"
    using args unfolding dispatch_def by (auto intro!: orderly_intro)
  then have "orderly (mainBody E fuel turns)"
    unfolding mainBody_def configured_def nameNode_def
    by (intro orderly_intro orderly_random rand; simp)
  then have main: "orderly (mainProg E fuel turns)"
    unfolding mainProg_def by (intro orderly_andThen orderly_log)
  show ?thesis using orderlyD [OF main step] main_returns_unreadable [of E fuel turns s] step by force
qed

definition noDockerEnv :: env where
  "noDockerEnv = nullEnv\<lparr>eArgs := [''dc'', ''log'', ''storage''], eClient := \<lambda>_. Some nope,
     eStat := \<lambda>_ _. StatOk, eReadFile := \<lambda>_ _. Inr ''x'', eYamlParse := \<lambda>_.
       Inr (configYaml (defaultConfig\<lparr>ChainNodeName := ''n'', ValidatorFlag := ''disable''\<rparr>))\<rparr>"

theorem main_outcome_typed_witness:
  "fst (mainProg noDockerEnv 0 0 initSt) = Panic \<and>
   ((\<exists>e. EvClient (Some e) \<in> set (newEvents (mainProg noDockerEnv 0 0) initSt)) \<or>
    EvSetupLog logpath False \<in> set (newEvents (mainProg noDockerEnv 0 0) initSt))"
proof -
  have panics: "fst (mainProg noDockerEnv 0 0 initSt) = Panic"
    by (simp add: mainProg_def mainBody_def SetupDefaultLoggingConfig_def configured_def ReadConfig_def yamlUnmarshal_def nameNode_def dispatch_def runs runCommand_def
        LogCommandDeal_def showContainerLog_def findContainerIdByName_def noDockerEnv_def nullEnv_def
        initSt_def defaultConfig_def)
  obtain new where "trace (snd (mainProg noDockerEnv 0 0 initSt)) = new @ trace initSt"
      "(\<exists>e. EvClient (Some e) \<in> set new) \<or> EvSetupLog logpath False \<in> set new"
    using main_outcome_typed [of noDockerEnv 0 0 initSt Panic "snd (mainProg noDockerEnv 0 0 initSt)"]
      panics prod.collapse [of "mainProg noDockerEnv 0 0 initSt"]
    by (auto simp: noDockerEnv_def nullEnv_def)
  then show ?thesis using panics newEvents_eq by metis
qed

end
