(* ===== verification/Spec2Isabelle.thy ===== *)
theory Spec2Isabelle
  imports StreamProofs ServiceSpec CliProps RotateProps GetProps Foreign Outcomes
begin

text \<open>
  Verification of dcmanager, the manager of a DC storage node (the Go program \<open>dc\<close>).

  The program. \<open>dc\<close> is run with a command. It keeps its configuration in a YAML file
  (config/config.go), drives Docker containers (util/util.go) for the storage node
  (dcstorage), the chain node (dcchain), the upgrade helper (dcupgrade), the local pccs
  and the report server, asks the chain node for programs, files, peers and authorised
  enclaves (blockchain/blockchain.go), fetches files from the storage network
  (util/litepeer.go), and runs, as a background service, the unattended upgrade of
  dcstorage in which the node's key is handed from the old enclave to the new one
  (command/command.go). dc/main.go reads the configuration and dispatches.

  The model. A program is a function from the state of the process to an outcome (a
  returned value, an exit with its status, a panic, or running out of fuel) and a state
  (theory Prelude). The state (theory World, \<open>st\<close>) is the history of the run, newest
  event first, and the package variables of the sources: \<open>RunningConfig\<close>,
  \<open>gChainApi\<close>, \<open>gMeta\<close>, \<open>verionLogFlag\<close>, \<open>waitEnclaveIdFlag\<close> and
  \<open>versionGetErrCount\<close>. Everything the repository does not implement (the Docker
  daemon, the operating system, HTTP peers, the chain node, the storage network, and the
  third-party functions for the text of YAML, versions, keys, signatures and addresses) is a
  field of the record \<open>env\<close>; an operation with an effect sees the whole history and
  appends an event with its arguments and its reply, so that any environment, whatever
  its own state, is such a record. The standard library is modelled where the code
  depends on it: \<open>strings\<close> and \<open>strconv\<close> (GoStd), \<open>flag\<close> (Flags),
  \<open>crypto/sha256\<close> (Sha256), \<open>encoding/json\<close> (Json), \<open>io.Pipe\<close>, goroutines and contexts (FileStream).
  Errors are values (\<open>err\<close>, or a sum with \<open>goerr\<close>), so that every early
  return, \<open>log.Fatalf\<close> and panic of the source is a branch.

  The theories, in the order of the code they model:
  \<^item> Prelude, GoStd, World, Logic, Sample: the shared notions; strings and decimal numbers;
    the environment, the state and the external operations; the program logic (bounds on
    events, parts of the state kept, total-outcome triples, order of events); the
    environments of the witnesses.
  \<^item> ConfigData, ConfigIO: config/config.go (the records, the defaults, the struct tags as
    conversions between the records and YAML documents, \<open>ReadConfig\<close>, \<open>SaveConfig\<close>).
  \<^item> Docker, DaemonSpec: the container and volume helpers of util/util.go branch by branch,
    and an abstract Docker daemon with the contracts of start, stop and remove which the
    detailed definitions refine. Two interfaces carry the clients: the locale
    \<open>component\<close> (the events an operation may cause, and that it keeps the
    configuration) and the locale \<open>container_op\<close> (what an operation on a named
    container may change, and the goal it reached when it returns \<open>nil\<close>), interpreted
    by the start, the stop and the removal.
  \<^item> Util: the other helpers of util/util.go and the progress reports of util/litepeer.go and
    util/download.go.
  \<^item> Blockchain: blockchain/blockchain.go.
  \<^item> FileStream, StreamProofs, Download: \<open>downloadFile\<close> as a state machine of its two
    goroutines, its caller and its context, with its correctness and termination for every
    interleaving; the rest of util/litepeer.go and util/download.go, with the time limit and
    the bootstrap peers of a download as events.
  \<^item> Services, Confine, ServiceSpec: the status checks, the saved command state, starting and
    stopping every service with its container settings, the queries to the local programs
    and the bounded waits (locale \<open>polling\<close>); what a program may change on the
    abstract daemon (\<open>confined\<close>), and that the reported status is the truth.
  \<^item> Upgrade, UpgradeSpec, UpgradeProps: \<open>upgradeDeal\<close> in phases; the milestones each
    event of an upgrade needs and that every run respects them (the write of the configuration
    needs the phases of the replacement in their order: justified, old container gone, new
    container up, key fetched); the safety properties read off, with a machine on which a whole upgrade runs.
  \<^item> Daemon: the background service (pid file, ticks, signals).
  \<^item> Flags, Sha256, Json, Cli, CliProps, RotateProps, GetProps: the command handlers and what
    they guarantee.
  \<^item> MainProg: dc/main.go.
  \<^item> Foreign: the commands against the abstract daemon: the containers that are not the
    manager's are left alone; what \<open>dc stop all\<close> and the start of dcchain achieve.
  \<^item> Outcomes: the outcomes of the whole program: the statuses it exits with, and the only
    ways it can panic.

  What the properties show. Safety of the upgrade: dcstorage is taken down only for a
  program that the chain recommends or the configuration orders, that the committee signed,
  that is newer and fetched, and whose predecessor's key dcupgrade holds; the configuration
  is saved only when the new dcstorage has the key; the manager restarts only when the new
  version answers. The background service acts only while the saved command state is start
  and a stop by hand holds. Container commands refine contracts on an abstract daemon, and
  no command touches a container that is not the manager's. The program panics only when the
  Docker client cannot be created or the log cannot be opened.
  Downloads are complete and terminate under every interleaving. The reported status is
  the truth, a saved configuration is read back, the settings of \<open>dc get\<close> reach the
  download, and \<open>dc checksum\<close> prints the digests of what it read. Several properties state defects exactly (errors
  that are dropped, waits that need not end, names that never match); they are listed as
  findings in the manifest.

  Bounds and fuel. Loops with a counter are total functions with a measure: pccs is asked
  10 times, dcupgrade at most 61 times, the new version at most 61 times. Loops that the code
  does not bound are given fuel: the wait for the chain to be in sync and the wait for the
  new dcstorage (\<open>fuel\<close>), the prompts of \<open>dc config\<close> and the turns of the background
  service (\<open>turns\<close>). Running out of fuel is an outcome of its own, which no property
  takes for a return; safety properties hold for every amount of fuel, and
  \<open>waitForChainSyncCompleted_returns\<close>, \<open>waitNewDc_answered\<close> and their neighbours
  say how much is enough, and when none is.

  Not modelled: the messages written to the log and to standard error (of the log only its
  set-up is); when progress lines of package util reach the terminal (their text and their
  times are modelled apart, in Util); \<open>folderPBData\<close>, an encoder for the network
  libraries, whose only error is a missing field that the code sets; what a time limit does to the
  calls under it (the limit of a download is computed and recorded; that it passed appears as
  a reply of the environment: a failed request, a cancelled context); the text of YAML
  documents, the conversion of values that do not fit their field, and the text of a JSON
  error; the goroutine of \<open>pullAndDownloadFolder\<close> beside its caller (it is run to its
  end, see Download); the shell scripts and the C program.
\<close>

end
